theory Spec2Isabelle
  imports Complex_Main "HOL-Library.Multiset" "HOL-Library.AList"
begin

section \<open>Numbers, colours and geometry records\<close>

text \<open>
  The analyser is JavaScript.  Its numbers are modelled as \<^typ>\<open>real\<close>: every
  arithmetic operation is exact, and the special values \<open>NaN\<close> and \<open>\<plusminus>Infinity\<close> do not
  exist.  Where the source starts a search with \<open>Infinity\<close> (the best distance found so
  far), the model uses an \<^typ>\<open>real option\<close> whose \<open>None\<close> is that initial value.
  Counters and indices (\<open>zIndex\<close>, array positions, lengths) are \<^typ>\<open>nat\<close>.
  Object fields that an object literal of the source may leave out (\<open>id\<close>, \<open>lab\<close>,
  \<open>hex\<close>) are options; \<open>None\<close> is JavaScript's \<open>undefined\<close>.
  Field names are prefixed where the source's one-letter names (\<open>r\<close>, \<open>g\<close>, \<open>b\<close>,
  \<open>a\<close>, \<open>x\<close>, \<open>y\<close>, \<open>L\<close>) would capture variables.
\<close>

record rgba =
  red :: real
  green :: real
  blue :: real
  alpha :: real

record lab =
  lab_L :: real
  lab_a :: real
  lab_b :: real

record bbox =
  box_x :: real
  box_y :: real
  box_width :: real
  box_height :: real

record point =
  pt_x :: real
  pt_y :: real

record stop =
  offset :: string
  color :: string
  opacity :: real
  stop_rgb :: rgba

text \<open>
  A paint object as \<open>extractPaint\<close> builds it.  \<open>ptype\<close> is the source's \<open>type\<close>
  (\<open>"none"\<close>, \<open>"solid"\<close>, \<open>"linear"\<close>, \<open>"radial"\<close>, \<open>"complex_mesh"\<close>).  Every object
  literal of \<open>extractPaint\<close> carries \<open>raw\<close> and \<open>rgba\<close>; only solid paints carry \<open>lab\<close>
  and \<open>hex\<close>; and \<open>id\<close> is absent until \<open>deduplicatePaints\<close> copies the object into
  its table.  Only gradients carry \<open>stops\<close>.  The two readers of that field are
  \<open>classifyGradient\<close>, which reads \<open>paint.stops || []\<close>, and \<open>paintKey\<close>, which reads
  it on linear and radial paints only; so an absent stop list is modelled as the empty
  list.  The gradient's \<open>gradientId\<close> and \<open>attrs\<close> are left out: nothing below reads
  them.
\<close>

record paint =
  ptype :: string
  raw :: string
  paint_rgba :: rgba
  paint_lab :: "lab option"
  hex :: "string option"
  stops :: "stop list"
  pid :: "string option"

subsection \<open>color-utils.js\<close>

definition linearize :: "real \<Rightarrow> real" where
  "linearize c = (if c > 0.04045 then ((c + 0.055) / 1.055) powr 2.4 else c / 12.92)"

definition lab_f :: "real \<Rightarrow> real" where
  "lab_f t = (if t > 0.008856 then root 3 t else 7.787 * t + 16 / 116)"

definition rgbToLab :: "rgba \<Rightarrow> lab" where
  "rgbToLab c =
     (let rr = linearize (red c / 255);
          gg = linearize (green c / 255);
          bb = linearize (blue c / 255);
          x = lab_f ((rr * 0.4124564 + gg * 0.3575761 + bb * 0.1804375) / 0.95047);
          y = lab_f (rr * 0.2126729 + gg * 0.7151522 + bb * 0.0721750);
          z = lab_f ((rr * 0.0193339 + gg * 0.1191920 + bb * 0.9503041) / 1.08883)
      in \<lparr>lab_L = 116 * y - 16, lab_a = 500 * (x - y), lab_b = 200 * (y - z)\<rparr>)"

definition deltaE :: "lab \<Rightarrow> lab \<Rightarrow> real" where
  "deltaE l1 l2 =
     sqrt ((lab_L l1 - lab_L l2)\<^sup>2 + (lab_a l1 - lab_a l2)\<^sup>2 + (lab_b l1 - lab_b l2)\<^sup>2)"

definition isWhiteLike :: "rgba \<Rightarrow> bool" where
  "isWhiteLike c =
     (let l = rgbToLab c; chroma = sqrt (lab_a l * lab_a l + lab_b l * lab_b l)
      in lab_L l > 92 \<and> chroma < 8)"

text \<open>\<open>Math.round\<close> rounds halves upwards.\<close>

definition jsRound :: "real \<Rightarrow> int" where
  "jsRound v = \<lfloor>v + 1 / 2\<rfloor>"

definition hexDigit :: "nat \<Rightarrow> char" where
  "hexDigit n = ''0123456789abcdef'' ! (n mod 16)"

text \<open>One colour channel: clamped to \<open>0..255\<close>, base 16, padded to two digits.\<close>

definition byteHex :: "real \<Rightarrow> string" where
  "byteHex v =
     (let n = nat (max 0 (min 255 (jsRound v))) in [hexDigit (n div 16), hexDigit (n mod 16)])"

definition rgbToHex :: "rgba \<Rightarrow> string" where
  "rgbToHex c = ''#'' @ byteHex (red c) @ byteHex (green c) @ byteHex (blue c)"

subsection \<open>geometry-utils.js\<close>

definition bboxContains :: "bbox \<Rightarrow> bbox \<Rightarrow> bool" where
  "bboxContains outer inner =
     (let margin = 0.5 in
        box_x inner \<ge> box_x outer - margin \<and>
        box_y inner \<ge> box_y outer - margin \<and>
        box_x inner + box_width inner \<le> box_x outer + box_width outer + margin \<and>
        box_y inner + box_height inner \<le> box_y outer + box_height outer + margin)"

record edgeTouch =
  touch_top :: bool
  touch_right :: bool
  touch_bottom :: bool
  touch_left :: bool

definition touchesViewBoxEdge :: "bbox \<Rightarrow> bbox \<Rightarrow> edgeTouch" where
  "touchesViewBoxEdge shapeBbox viewBox =
     (let margin = box_width viewBox * 0.02 in
        \<lparr>touch_top = (box_y shapeBbox \<le> box_y viewBox + margin),
         touch_right = (box_x shapeBbox + box_width shapeBbox
                          \<ge> box_x viewBox + box_width viewBox - margin),
         touch_bottom = (box_y shapeBbox + box_height shapeBbox
                          \<ge> box_y viewBox + box_height viewBox - margin),
         touch_left = (box_x shapeBbox \<le> box_x viewBox + margin)\<rparr>)"

definition areaRatio :: "bbox \<Rightarrow> bbox \<Rightarrow> real" where
  "areaRatio shapeBbox viewBox =
     (let shapeArea = box_width shapeBbox * box_height shapeBbox;
          vbArea = box_width viewBox * box_height viewBox
      in if vbArea > 0 then shapeArea / vbArea else 0)"

definition bboxAspectRatio :: "bbox \<Rightarrow> real" where
  "bboxAspectRatio bb = (if box_height bb > 0 then box_width bb / box_height bb else 1)"

section \<open>Gradient classification (gradient-classifier)\<close>

text \<open>
  The result object of \<open>classifyGradient\<close>; \<open>stopCount\<close> and \<open>note\<close> are present
  only in some branches.
\<close>

record gradientClass =
  gc_type :: string
  gc_confidence :: real
  gc_canRecreateVector :: bool
  gc_stopCount :: "nat option"
  gc_note :: "string option"

definition startsWith :: "string \<Rightarrow> string \<Rightarrow> bool" where
  "startsWith s pre = (take (length pre) s = pre)"

text \<open>The note of the many-stops branch; its dash is U+2014, given in UTF-8.\<close>

definition manyStopsNote :: string where
  "manyStopsNote =
     ''Many stops '' @ [CHR 0xE2, CHR 0x80, CHR 0x94] @
     '' may be approximating a complex gradient''"

definition classifyGradient :: "paint option \<Rightarrow> gradientClass" where
  "classifyGradient po =
     (case po of
        None \<Rightarrow> \<lparr>gc_type = ''not_gradient'', gc_confidence = 1, gc_canRecreateVector = True,
                  gc_stopCount = None, gc_note = None\<rparr>
      | Some p \<Rightarrow>
          if ptype p = ''solid'' \<or> ptype p = ''none'' then
            \<lparr>gc_type = ''not_gradient'', gc_confidence = 1, gc_canRecreateVector = True,
             gc_stopCount = None, gc_note = None\<rparr>
          else if ptype p = ''complex_mesh'' then
            \<lparr>gc_type = ''complex_mesh'', gc_confidence = 0.9, gc_canRecreateVector = False,
             gc_stopCount = None, gc_note = None\<rparr>
          else
            let ss = stops p in
            if length ss = 0 then
              \<lparr>gc_type = ''unknown'', gc_confidence = 0.5, gc_canRecreateVector = False,
               gc_stopCount = None, gc_note = None\<rparr>
            else if length ss \<le> 5 \<and> (\<exists>s \<in> set ss. startsWith (color s) ''url('') then
              \<lparr>gc_type = ''textured'', gc_confidence = 0.8, gc_canRecreateVector = False,
               gc_stopCount = None, gc_note = None\<rparr>
            else if length ss \<le> 5 \<and> ptype p = ''linear'' then
              \<lparr>gc_type = ''simple_linear'', gc_confidence = 0.95, gc_canRecreateVector = True,
               gc_stopCount = Some (length ss), gc_note = None\<rparr>
            else if length ss \<le> 5 \<and> ptype p = ''radial'' then
              \<lparr>gc_type = ''simple_radial'', gc_confidence = 0.95, gc_canRecreateVector = True,
               gc_stopCount = Some (length ss), gc_note = None\<rparr>
            else if ptype p = ''linear'' then
              \<lparr>gc_type = ''simple_linear'', gc_confidence = 0.7, gc_canRecreateVector = True,
               gc_stopCount = Some (length ss), gc_note = Some manyStopsNote\<rparr>
            else if ptype p = ''radial'' then
              \<lparr>gc_type = ''simple_radial'', gc_confidence = 0.7, gc_canRecreateVector = True,
               gc_stopCount = Some (length ss), gc_note = Some manyStopsNote\<rparr>
            else
              \<lparr>gc_type = ''textured'', gc_confidence = 0.5, gc_canRecreateVector = False,
               gc_stopCount = None, gc_note = None\<rparr>)"

definition threeStopLinear :: paint where
  "threeStopLinear =
     \<lparr>ptype = ''linear'', raw = ''url(#g)'',
      paint_rgba = \<lparr>red = 255, green = 0, blue = 0, alpha = 1\<rparr>,
      paint_lab = None, hex = None,
      stops =
        [\<lparr>offset = ''0%'', color = ''#ff0000'', opacity = 1,
          stop_rgb = \<lparr>red = 255, green = 0, blue = 0, alpha = 1\<rparr>\<rparr>,
         \<lparr>offset = ''50%'', color = ''#00ff00'', opacity = 1,
          stop_rgb = \<lparr>red = 0, green = 255, blue = 0, alpha = 1\<rparr>\<rparr>,
         \<lparr>offset = ''100%'', color = ''#0000ff'', opacity = 1,
          stop_rgb = \<lparr>red = 0, green = 0, blue = 255, alpha = 1\<rparr>\<rparr>],
      pid = None\<rparr>"

definition greyStop :: stop where
  "greyStop = \<lparr>offset = ''0%'', color = ''url(#p)'', opacity = 1,
               stop_rgb = \<lparr>red = 0, green = 0, blue = 0, alpha = 1\<rparr>\<rparr>"

definition sixStopRadial :: paint where
  "sixStopRadial =
     \<lparr>ptype = ''radial'', raw = ''url(#h)'',
      paint_rgba = \<lparr>red = 0, green = 0, blue = 0, alpha = 1\<rparr>,
      paint_lab = None, hex = None,
      stops = replicate 6 greyStop, pid = None\<rparr>"

definition noStopLinear :: paint where
  "noStopLinear =
     \<lparr>ptype = ''linear'', raw = ''url(#e)'',
      paint_rgba = \<lparr>red = 0, green = 0, blue = 0, alpha = 1\<rparr>,
      paint_lab = None, hex = None, stops = [], pid = None\<rparr>"

text \<open>
  Claim C9.  \<open>classifyGradient\<close> returns \<open>simple_linear\<close> with confidence 0.95,
  recreatable, stop count 3 for every linear paint with exactly three stops none of which
  has a \<open>url(\<close> colour; for every linear or radial paint with more than five stops it
  returns \<open>simple_linear\<close> or \<open>simple_radial\<close> respectively, at confidence 0.7 with the
  explanatory note; and for every linear or radial paint with no stops it returns
  \<open>unknown\<close> at confidence 0.5, not recreatable.
\<close>

theorem classifyGradient_rules:
  "(ptype p = ''linear'' \<and> length (stops p) = 3 \<and>
      (\<forall>s \<in> set (stops p). \<not> startsWith (color s) ''url('')
     \<longrightarrow> classifyGradient (Some p) =
           \<lparr>gc_type = ''simple_linear'', gc_confidence = 0.95, gc_canRecreateVector = True,
            gc_stopCount = Some 3, gc_note = None\<rparr>) \<and>
   ((ptype q = ''linear'' \<or> ptype q = ''radial'') \<and> length (stops q) > 5
     \<longrightarrow> classifyGradient (Some q) =
           \<lparr>gc_type = (if ptype q = ''linear'' then ''simple_linear'' else ''simple_radial''),
            gc_confidence = 0.7, gc_canRecreateVector = True,
            gc_stopCount = Some (length (stops q)), gc_note = Some manyStopsNote\<rparr>) \<and>
   ((ptype u = ''linear'' \<or> ptype u = ''radial'') \<and> stops u = []
     \<longrightarrow> classifyGradient (Some u) =
           \<lparr>gc_type = ''unknown'', gc_confidence = 0.5, gc_canRecreateVector = False,
            gc_stopCount = None, gc_note = None\<rparr>)"
proof (intro conjI impI)
  assume h: "ptype p = ''linear'' \<and> length (stops p) = 3 \<and>
      (\<forall>s \<in> set (stops p). \<not> startsWith (color s) ''url('')"
  then have "stops p \<noteq> []" by auto
  with h show "classifyGradient (Some p) =
           \<lparr>gc_type = ''simple_linear'', gc_confidence = 0.95, gc_canRecreateVector = True,
            gc_stopCount = Some 3, gc_note = None\<rparr>"
    by (simp add: classifyGradient_def)
next
  assume h: "(ptype q = ''linear'' \<or> ptype q = ''radial'') \<and> length (stops q) > 5"
  then have "stops q \<noteq> []" by auto
  with h show "classifyGradient (Some q) =
           \<lparr>gc_type = (if ptype q = ''linear'' then ''simple_linear'' else ''simple_radial''),
            gc_confidence = 0.7, gc_canRecreateVector = True,
            gc_stopCount = Some (length (stops q)), gc_note = Some manyStopsNote\<rparr>"
    by (auto simp: classifyGradient_def)
next
  assume h: "(ptype u = ''linear'' \<or> ptype u = ''radial'') \<and> stops u = []"
  then show "classifyGradient (Some u) =
           \<lparr>gc_type = ''unknown'', gc_confidence = 0.5, gc_canRecreateVector = False,
            gc_stopCount = None, gc_note = None\<rparr>"
    by (auto simp: classifyGradient_def)
qed

theorem classifyGradient_rules_witness:
  "classifyGradient (Some threeStopLinear) =
     \<lparr>gc_type = ''simple_linear'', gc_confidence = 0.95, gc_canRecreateVector = True,
      gc_stopCount = Some 3, gc_note = None\<rparr> \<and>
   classifyGradient (Some sixStopRadial) =
     \<lparr>gc_type = ''simple_radial'', gc_confidence = 0.7, gc_canRecreateVector = True,
      gc_stopCount = Some 6, gc_note = Some manyStopsNote\<rparr> \<and>
   classifyGradient (Some noStopLinear) =
     \<lparr>gc_type = ''unknown'', gc_confidence = 0.5, gc_canRecreateVector = False,
      gc_stopCount = None, gc_note = None\<rparr>"
  using classifyGradient_rules [of threeStopLinear sixStopRadial noStopLinear]
  by (simp add: threeStopLinear_def sixStopRadial_def noStopLinear_def startsWith_def)

section \<open>The path registry entry\<close>

text \<open>
  A registered path (\<open>pathEntry\<close> of \<open>buildRegistries\<close>), without the fields no
  function below reads (\<open>el\<close>, \<open>pointHash\<close>, \<open>fillRule\<close>, \<open>subpathIndex\<close>).
\<close>

record pathEntry =
  path_id :: string
  originalId :: string
  path_bbox :: bbox
  path_area :: real
  centroid :: point
  perimeter :: real
  fillPaint :: paint
  strokePaint :: paint
  zIndex :: nat
  compoundParent :: "string option"

section \<open>Shape clustering: classifyCluster (shape-clustering)\<close>

record clusterMember =
  cm_id :: string
  cm_centroid :: point
  cm_bbox :: bbox
  cm_area :: real
  cm_originalId :: string

record clusterInfo =
  cl_type :: string
  cl_confidence :: real
  cl_bbox :: "bbox option"
  cl_aspectRatio :: real
  cl_memberCount :: nat

text \<open>
  The bounds start at \<open>\<plusminus>Infinity\<close> in the source and are narrowed by every member, so
  for a cluster with a first member they are the minimum and maximum over the members.
  For an empty list (which \<open>proximityClustering\<close> never yields) the bounds stay infinite
  and the box is \<open>x = y = Infinity\<close>, \<open>width = height = -Infinity\<close>, which the number
  model does not have: that box is \<open>None\<close>.  Its height is not positive, so
  \<open>bboxAspectRatio\<close> gives 1 for it, and the chain is evaluated as for any other cluster.
\<close>

definition classifyCluster :: "clusterMember list \<Rightarrow> bbox \<Rightarrow> clusterInfo" where
  "classifyCluster members viewBox =
     (let clusterBbox =
            (case members of
               [] \<Rightarrow> None
             | m # ms \<Rightarrow>
                 let minX = foldl (\<lambda>acc k. min acc (box_x (cm_bbox k))) (box_x (cm_bbox m)) ms;
                     minY = foldl (\<lambda>acc k. min acc (box_y (cm_bbox k))) (box_y (cm_bbox m)) ms;
                     maxX = foldl (\<lambda>acc k. max acc (box_x (cm_bbox k) + box_width (cm_bbox k)))
                              (box_x (cm_bbox m) + box_width (cm_bbox m)) ms;
                     maxY = foldl (\<lambda>acc k. max acc (box_y (cm_bbox k) + box_height (cm_bbox k)))
                              (box_y (cm_bbox m) + box_height (cm_bbox m)) ms
                 in Some \<lparr>box_x = minX, box_y = minY,
                           box_width = maxX - minX, box_height = maxY - minY\<rparr>);
          ar = (case clusterBbox of None \<Rightarrow> 1 | Some bb \<Rightarrow> bboxAspectRatio bb);
          (ty, conf) =
            (if ar > 3.0 then (''wordmark'', 0.85)
             else if ar > 2.0 \<and> length members > 5 then (''wordmark'', 0.65)
             else if ar < 2.0 \<and> length members \<le> 8 then (''icon'', 0.7)
             else if ar < 1.5 then (''icon'', 0.8)
             else (''unknown'', 0.5))
      in \<lparr>cl_type = ty, cl_confidence = conf, cl_bbox = clusterBbox,
          cl_aspectRatio = ar, cl_memberCount = length members\<rparr>)"

definition memberAt :: "string \<Rightarrow> real \<Rightarrow> clusterMember" where
  "memberAt i x0 =
     \<lparr>cm_id = i, cm_centroid = \<lparr>pt_x = x0 + 3, pt_y = 5\<rparr>,
      cm_bbox = \<lparr>box_x = x0, box_y = 0, box_width = 6, box_height = 10\<rparr>,
      cm_area = 60, cm_originalId = i\<rparr>"

definition threeInARow :: "clusterMember list" where
  "threeInARow = [memberAt ''p_0'' 0, memberAt ''p_1'' 6, memberAt ''p_2'' 12]"

definition unitViewBox :: bbox where
  "unitViewBox = \<lparr>box_x = 0, box_y = 0, box_width = 100, box_height = 100\<rparr>"

lemma classifyCluster_empty:
  "classifyCluster [] viewBox =
     \<lparr>cl_type = ''icon'', cl_confidence = 0.7, cl_bbox = None, cl_aspectRatio = 1,
      cl_memberCount = 0\<rparr>"
  by (simp add: classifyCluster_def)

lemma classifyCluster_threeInARow:
  "classifyCluster threeInARow unitViewBox =
     \<lparr>cl_type = ''icon'', cl_confidence = 0.7,
      cl_bbox = Some \<lparr>box_x = 0, box_y = 0, box_width = 18, box_height = 10\<rparr>,
      cl_aspectRatio = 1.8, cl_memberCount = 3\<rparr>"
  by (simp add: classifyCluster_def threeInARow_def memberAt_def bboxAspectRatio_def)

text \<open>
  Claim C2, as the specification states it, fails: three members side by side, with an
  aggregate box of 18 by 10 (aspect ratio 1.8), are classified \<open>icon\<close> at 0.7 by the
  third branch of the chain, not \<open>unknown\<close> at 0.5.
\<close>

theorem classifyCluster_counterexample:
  "classifyCluster threeInARow unitViewBox =
     \<lparr>cl_type = ''icon'', cl_confidence = 0.7,
      cl_bbox = Some \<lparr>box_x = 0, box_y = 0, box_width = 18, box_height = 10\<rparr>,
      cl_aspectRatio = 1.8, cl_memberCount = 3\<rparr> \<and>
   \<not> (cl_type (classifyCluster threeInARow unitViewBox) = ''unknown'' \<and>
      cl_confidence (classifyCluster threeInARow unitViewBox) = 0.5)"
  by (simp add: classifyCluster_threeInARow)

text \<open>
  Claim C2, amended.  For every shape cluster whose aggregate bounding-box aspect ratio
  is strictly between 1.5 and 2.0 and whose member count is at most 5, the classification
  is decided by the third branch of the chain (aspect ratio below 2.0 with at most 8
  members): type \<open>icon\<close> with confidence 0.7.
\<close>

theorem classifyCluster_mid_band:
  assumes "1.5 < cl_aspectRatio (classifyCluster members viewBox)"
    and "cl_aspectRatio (classifyCluster members viewBox) < 2.0"
    and "length members \<le> 5"
  shows "cl_type (classifyCluster members viewBox) = ''icon'' \<and>
         cl_confidence (classifyCluster members viewBox) = 0.7"
  using assms by (auto simp: classifyCluster_def Let_def split: if_splits)

theorem classifyCluster_mid_band_witness:
  "cl_type (classifyCluster threeInARow unitViewBox) = ''icon'' \<and>
   cl_confidence (classifyCluster threeInARow unitViewBox) = 0.7"
  by (rule classifyCluster_mid_band)
     (simp_all add: classifyCluster_threeInARow, simp add: threeInARow_def)

section \<open>Background plate detection (white-classifier.js)\<close>

record plateCandidate =
  cand_id :: string
  cand_score :: real
  cand_ratio :: real
  cand_isWhite :: bool
  cand_zIndex :: nat

text \<open>
  The score the loop body of \<open>detectBackgroundPlate\<close> computes for one path; \<open>None\<close>
  when the body leaves by \<open>continue\<close> (area ratio below 0.7, or a \<open>none\<close> fill) and
  computes no score.
\<close>

definition plateScore :: "bbox \<Rightarrow> pathEntry \<Rightarrow> real option" where
  "plateScore viewBox p =
     (let ratio = areaRatio (path_bbox p) viewBox in
      if ratio < 0.7 then None
      else
        let fill = fillPaint p in
        if ptype fill = ''none'' then None
        else
          let zScore = (if zIndex p \<le> 2 then 1 else if zIndex p \<le> 5 then 0.5 else 0.2);
              edges = touchesViewBoxEdge (path_bbox p) viewBox;
              edgeScore = (if touch_top edges then 0.25 else 0)
                        + (if touch_right edges then 0.25 else 0)
                        + (if touch_bottom edges then 0.25 else 0)
                        + (if touch_left edges then 0.25 else 0);
              isWhite = (ptype fill = ''solid'' \<and> isWhiteLike (paint_rgba fill));
              colorScore = (if isWhite then 1 else 0.3)
          in Some (ratio * 0.3 + zScore * 0.3 + edgeScore * 0.2 + colorScore * 0.2))"

text \<open>One iteration: the pair is \<open>(bestCandidate, bestScore)\<close>.\<close>

definition plateStep ::
  "bbox \<Rightarrow> plateCandidate option \<times> real \<Rightarrow> string \<times> pathEntry \<Rightarrow> plateCandidate option \<times> real"
where
  "plateStep viewBox st ip =
     (case plateScore viewBox (snd ip) of
        None \<Rightarrow> st
      | Some score \<Rightarrow>
          if score > snd st then
            (Some \<lparr>cand_id = fst ip, cand_score = score,
                   cand_ratio = areaRatio (path_bbox (snd ip)) viewBox,
                   cand_isWhite = (ptype (fillPaint (snd ip)) = ''solid'' \<and>
                                   isWhiteLike (paint_rgba (fillPaint (snd ip)))),
                   cand_zIndex = zIndex (snd ip)\<rparr>, score)
          else st)"

definition detectBackgroundPlate ::
  "(string \<times> pathEntry) list \<Rightarrow> bbox \<Rightarrow> plateCandidate option" where
  "detectBackgroundPlate paths viewBox =
     (let st = foldl (plateStep viewBox) (None, 0) paths
      in if snd st > 0.6 then fst st else None)"

definition blackSolid :: paint where
  "blackSolid =
     \<lparr>ptype = ''solid'', raw = ''#000000'',
      paint_rgba = \<lparr>red = 0, green = 0, blue = 0, alpha = 1\<rparr>,
      paint_lab = Some \<lparr>lab_L = 0, lab_a = 0, lab_b = 0\<rparr>,
      hex = Some ''#000000'', stops = [], pid = None\<rparr>"

definition plateOfHeight :: "real \<Rightarrow> pathEntry" where
  "plateOfHeight h =
     \<lparr>path_id = ''p_0'', originalId = ''anon_0'',
      path_bbox = \<lparr>box_x = 0, box_y = 0, box_width = 100, box_height = h\<rparr>,
      path_area = 100 * h, centroid = \<lparr>pt_x = 50, pt_y = h / 2\<rparr>, perimeter = 200 + 2 * h,
      fillPaint = blackSolid, strokePaint = blackSolid, zIndex = 0, compoundParent = None\<rparr>"

text \<open>
  Claim C8.  Take two paths with the same non-\<open>none\<close> fill paint, the same \<open>zIndex\<close> and
  the same edge contacts, the first with bounding-box-to-viewBox area ratio 0.5 and the
  second with ratio 0.9.  The first is below the 0.7 gate and gets no score at all, the
  second gets a positive score, and from every state of the search the best score after
  the second path is at least the best score after the first: the detection score does
  not decrease.
\<close>

theorem plate_score_monotone:
  assumes "ptype (fillPaint p) \<noteq> ''none''"
    and "fillPaint q = fillPaint p" and "zIndex q = zIndex p"
    and "touchesViewBoxEdge (path_bbox q) viewBox = touchesViewBoxEdge (path_bbox p) viewBox"
    and "areaRatio (path_bbox p) viewBox = 0.5"
    and "areaRatio (path_bbox q) viewBox = 0.9"
  shows "plateScore viewBox p = None \<and>
         (\<exists>s. plateScore viewBox q = Some s \<and> 0.39 \<le> s) \<and>
         snd (plateStep viewBox st (i, p)) \<le> snd (plateStep viewBox st (i, q))"
proof -
  have p: "plateScore viewBox p = None"
    using assms(5) by (simp add: plateScore_def)
  have q: "\<exists>s. plateScore viewBox q = Some s \<and> 0.39 \<le> s"
    using assms(1,2,6) by (simp add: plateScore_def Let_def)
  have "snd (plateStep viewBox st (i, p)) = snd st"
    using p by (simp add: plateStep_def)
  moreover have "snd st \<le> snd (plateStep viewBox st (i, q))"
    using q by (auto simp: plateStep_def)
  ultimately show ?thesis using p q by simp
qed

theorem plate_score_monotone_witness:
  "plateScore unitViewBox (plateOfHeight 50) = None \<and>
   (\<exists>s. plateScore unitViewBox (plateOfHeight 90) = Some s \<and> 0.39 \<le> s) \<and>
   snd (plateStep unitViewBox (None, 0) (''p_0'', plateOfHeight 50))
     \<le> snd (plateStep unitViewBox (None, 0) (''p_0'', plateOfHeight 90))"
  by (rule plate_score_monotone)
     (simp_all add: plateOfHeight_def blackSolid_def unitViewBox_def areaRatio_def
        touchesViewBoxEdge_def)

section \<open>Containment graph (white-classifier.js, geometry-utils.js)\<close>

text \<open>
  The geometry tests read the rendering engine.  In the model an element is its registry
  entry and \<open>getBBox\<close> is the entry's \<open>bbox\<close> (the registry took it from the same
  call).  \<open>pointInFill\<close> is the engine's \<open>isPointInFill\<close>, \<open>None\<close> when the engine
  has no such function, in which case \<open>isPointInShape\<close> falls back to the bounding
  box.  \<open>buildContainmentGraph\<close> takes the shape test as a parameter whose result
  \<open>None\<close> stands for a call that throws (the source then records the edge).  The graph
  is the source's \<open>Map\<close> from path id to node.
\<close>

record graphNode =
  containedBy :: "string list"
  contains :: "string list"

type_synonym containmentGraph = "string \<rightharpoonup> graphNode"

definition isPointInShape ::
  "(pathEntry \<Rightarrow> real \<Rightarrow> real \<Rightarrow> bool) option \<Rightarrow> pathEntry \<Rightarrow> real \<Rightarrow> real \<Rightarrow> bool" where
  "isPointInShape pointInFill el x y =
     (case pointInFill of
        Some f \<Rightarrow> f el x y
      | None \<Rightarrow>
          let bb = path_bbox el in
          x \<ge> box_x bb \<and> x \<le> box_x bb + box_width bb \<and>
          y \<ge> box_y bb \<and> y \<le> box_y bb + box_height bb)"

definition isShapeContainedIn ::
  "(pathEntry \<Rightarrow> real \<Rightarrow> real \<Rightarrow> bool) option \<Rightarrow> pathEntry \<Rightarrow> pathEntry \<Rightarrow> bool" where
  "isShapeContainedIn pointInFill containerEl containedEl =
     (let inner = path_bbox containedEl; outer = path_bbox containerEl in
      if \<not> bboxContains outer inner then False
      else
        let samples = 8 :: nat;
            inside = length (filter
              (\<lambda>i. isPointInShape pointInFill containerEl
                     (box_x inner + (box_width inner * (real i + 1)) / (real samples + 1))
                     (box_y inner + box_height inner / 2))
              [0..<samples])
        in real inside \<ge> real samples * 0.7)"

definition bboxArea :: "bbox \<Rightarrow> real" where
  "bboxArea bb = box_width bb * box_height bb"

definition graphInit :: "pathEntry list \<Rightarrow> containmentGraph" where
  "graphInit entries =
     foldl (\<lambda>g p. g(path_id p \<mapsto> \<lparr>containedBy = [], contains = []\<rparr>)) Map.empty entries"

definition recordEdge :: "containmentGraph \<Rightarrow> pathEntry \<Rightarrow> pathEntry \<Rightarrow> containmentGraph" where
  "recordEdge g outer inner =
     (let g1 = (case g (path_id inner) of
                  None \<Rightarrow> g
                | Some n \<Rightarrow> g(path_id inner \<mapsto> n\<lparr>containedBy := containedBy n @ [path_id outer]\<rparr>))
      in case g1 (path_id outer) of
           None \<Rightarrow> g1
         | Some n \<Rightarrow> g1(path_id outer \<mapsto> n\<lparr>contains := contains n @ [path_id inner]\<rparr>))"

definition pairStep ::
  "(pathEntry \<Rightarrow> pathEntry \<Rightarrow> bool option) \<Rightarrow> pathEntry list \<Rightarrow> containmentGraph \<Rightarrow> nat \<times> nat
     \<Rightarrow> containmentGraph" where
  "pairStep shapeTest entries g ij =
     (if fst ij = snd ij then g
      else
        let outer = entries ! fst ij; inner = entries ! snd ij in
        if \<not> bboxContains (path_bbox outer) (path_bbox inner) then g
        else
          let innerArea = bboxArea (path_bbox inner);
              outerArea = bboxArea (path_bbox outer)
          in if outerArea > 0 \<and> innerArea / outerArea > 0.95 then g
             else (case shapeTest outer inner of
                     Some False \<Rightarrow> g
                   | _ \<Rightarrow> recordEdge g outer inner))"

definition indexPairs :: "nat \<Rightarrow> (nat \<times> nat) list" where
  "indexPairs n = concat (map (\<lambda>i. map (\<lambda>j. (i, j)) [0..<n]) [0..<n])"

definition buildContainmentGraph ::
  "(pathEntry \<Rightarrow> pathEntry \<Rightarrow> bool option) \<Rightarrow> pathEntry list \<Rightarrow> containmentGraph" where
  "buildContainmentGraph shapeTest entries =
     foldl (pairStep shapeTest entries) (graphInit entries) (indexPairs (length entries))"

definition edgeRecorded :: "containmentGraph \<Rightarrow> string \<Rightarrow> string \<Rightarrow> bool" where
  "edgeRecorded g outerId innerId =
     (case g innerId of None \<Rightarrow> False | Some n \<Rightarrow> outerId \<in> set (containedBy n))"

definition edgeOk :: "pathEntry list \<Rightarrow> string \<Rightarrow> string \<Rightarrow> bool" where
  "edgeOk entries outerId innerId =
     (\<exists>outer \<in> set entries. \<exists>inner \<in> set entries.
        path_id outer = outerId \<and> path_id inner = innerId \<and>
        bboxContains (path_bbox outer) (path_bbox inner) \<and>
        \<not> (bboxArea (path_bbox outer) > 0 \<and>
           bboxArea (path_bbox inner) / bboxArea (path_bbox outer) > 0.95))"

subsection \<open>Every recorded edge passed the bounding-box tests\<close>

lemma graphInit_nodes:
  "foldl (\<lambda>g p. g(path_id p \<mapsto> \<lparr>containedBy = [], contains = []\<rparr>)) g0 entries k = Some n
   \<Longrightarrow> g0 k = Some n \<or> n = \<lparr>containedBy = [], contains = []\<rparr>"
  by (induction entries rule: rev_induct) (auto split: if_splits)

lemma graphInit_no_edge: "\<not> edgeRecorded (graphInit entries) a b"
  using graphInit_nodes [of Map.empty entries b]
  by (auto simp: edgeRecorded_def graphInit_def split: option.splits)

lemma recordEdge_edges:
  "edgeRecorded (recordEdge g outer inner) a b
   \<Longrightarrow> edgeRecorded g a b \<or> (a = path_id outer \<and> b = path_id inner)"
  by (auto simp: edgeRecorded_def recordEdge_def Let_def split: option.splits if_splits)

lemma pairStep_edges:
  assumes "edgeRecorded (pairStep shapeTest entries g ij) a b"
    and "fst ij < length entries" and "snd ij < length entries"
  shows "edgeRecorded g a b \<or> edgeOk entries a b"
proof (cases "pairStep shapeTest entries g ij = g")
  case True
  with assms(1) show ?thesis by simp
next
  case False
  then have rec: "pairStep shapeTest entries g ij = recordEdge g (entries ! fst ij) (entries ! snd ij)"
    and c: "bboxContains (path_bbox (entries ! fst ij)) (path_bbox (entries ! snd ij))"
    and r: "\<not> (bboxArea (path_bbox (entries ! fst ij)) > 0 \<and>
           bboxArea (path_bbox (entries ! snd ij)) / bboxArea (path_bbox (entries ! fst ij)) > 0.95)"
    by (auto simp: pairStep_def Let_def split: if_splits option.splits bool.splits)
  from assms(1) rec recordEdge_edges
  have "edgeRecorded g a b \<or> (a = path_id (entries ! fst ij) \<and> b = path_id (entries ! snd ij))"
    by metis
  then show ?thesis
  proof
    assume "edgeRecorded g a b" then show ?thesis ..
  next
    assume "a = path_id (entries ! fst ij) \<and> b = path_id (entries ! snd ij)"
    with c r assms(2,3) have "edgeOk entries a b"
      unfolding edgeOk_def using nth_mem by blast
    then show ?thesis ..
  qed
qed

lemma foldl_pairStep_edges:
  assumes "\<forall>ij \<in> set ps. fst ij < length entries \<and> snd ij < length entries"
    and "edgeRecorded (foldl (pairStep shapeTest entries) g ps) a b"
  shows "edgeRecorded g a b \<or> edgeOk entries a b"
  using assms
proof (induction ps arbitrary: g)
  case Nil
  then show ?case by simp
next
  case (Cons ij ps)
  then have "edgeRecorded (pairStep shapeTest entries g ij) a b \<or> edgeOk entries a b"
    by simp
  with Cons.prems(1) pairStep_edges show ?case by fastforce
qed

lemma indexPairs_bound: "ij \<in> set (indexPairs n) \<Longrightarrow> fst ij < n \<and> snd ij < n"
  by (auto simp: indexPairs_def)

lemma buildContainmentGraph_edges:
  "edgeRecorded (buildContainmentGraph shapeTest entries) a b \<Longrightarrow> edgeOk entries a b"
  unfolding buildContainmentGraph_def
  using foldl_pairStep_edges [of "indexPairs (length entries)" entries shapeTest "graphInit entries" a b]
    graphInit_no_edge indexPairs_bound by blast

definition lineOuter :: pathEntry where
  "lineOuter =
     \<lparr>path_id = ''p_0'', originalId = ''anon_0'',
      path_bbox = \<lparr>box_x = 0, box_y = 0, box_width = 10, box_height = 0\<rparr>,
      path_area = 0, centroid = \<lparr>pt_x = 5, pt_y = 0\<rparr>, perimeter = 10,
      fillPaint = blackSolid, strokePaint = blackSolid, zIndex = 0, compoundParent = None\<rparr>"

definition bandInner :: pathEntry where
  "bandInner =
     \<lparr>path_id = ''p_1'', originalId = ''anon_1'',
      path_bbox = \<lparr>box_x = 0, box_y = - 0.25, box_width = 10, box_height = 0.5\<rparr>,
      path_area = 5, centroid = \<lparr>pt_x = 5, pt_y = 0\<rparr>, perimeter = 21,
      fillPaint = blackSolid, strokePaint = blackSolid, zIndex = 1, compoundParent = None\<rparr>"

lemma indexPairs_two: "indexPairs (Suc (Suc 0)) = [(0,0),(0,1),(1,0),(1,1)]"
  by (simp add: indexPairs_def)

lemma upt_eight: "[0..<8] = [0,1,2,3,4,5,6,7]"
  by (simp add: upt_rec)

lemma line_contains_band: "isShapeContainedIn None lineOuter bandInner"
  by (simp add: isShapeContainedIn_def isPointInShape_def lineOuter_def bandInner_def bboxContains_def Let_def upt_eight)

lemma recordEdge_keeps:
  "edgeRecorded g a b \<Longrightarrow> edgeRecorded (recordEdge g outer inner) a b"
  by (auto simp: edgeRecorded_def recordEdge_def Let_def split: option.splits)

lemma pairStep_keeps:
  "edgeRecorded g a b \<Longrightarrow> edgeRecorded (pairStep shapeTest entries g ij) a b"
  by (auto simp: pairStep_def Let_def recordEdge_keeps split: option.splits bool.splits)

lemma recordEdge_new:
  "g (path_id inner) = Some n \<Longrightarrow> edgeRecorded (recordEdge g outer inner) (path_id outer) (path_id inner)"
  by (auto simp: edgeRecorded_def recordEdge_def Let_def split: option.splits)

lemma two_entry_edge:
  assumes ids: "path_id outer \<noteq> path_id inner"
    and c: "bboxContains (path_bbox outer) (path_bbox inner)"
    and r: "\<not> (bboxArea (path_bbox outer) > 0 \<and>
              bboxArea (path_bbox inner) / bboxArea (path_bbox outer) > 0.95)"
    and t: "shapeTest outer inner \<noteq> Some False"
  shows "edgeRecorded (buildContainmentGraph shapeTest [outer, inner]) (path_id outer) (path_id inner)"
proof -
  let ?es = "[outer, inner]"
  let ?g1 = "recordEdge (graphInit ?es) outer inner"
  have g0: "graphInit ?es (path_id inner) = Some \<lparr>containedBy = [], contains = []\<rparr>"
    by (simp add: graphInit_def)
  have s0: "pairStep shapeTest ?es (graphInit ?es) (0, 0) = graphInit ?es"
    by (simp add: pairStep_def)
  have s1: "pairStep shapeTest ?es (graphInit ?es) (0, Suc 0) = ?g1"
    using c r t by (auto simp: pairStep_def Let_def split: option.splits bool.splits)
  have e: "edgeRecorded ?g1 (path_id outer) (path_id inner)"
    using g0 by (rule recordEdge_new)
  have "buildContainmentGraph shapeTest ?es =
     pairStep shapeTest ?es (pairStep shapeTest ?es ?g1 (Suc 0, 0)) (Suc 0, Suc 0)"
    by (simp add: buildContainmentGraph_def indexPairs_two s0 s1)
  with e show ?thesis
    by (simp add: pairStep_keeps)
qed

text \<open>
  Claim C7, as the specification states it, fails where the outer bounding box has no
  area, because the ratio test is guarded by \<open>outerArea > 0\<close>.  A horizontal line of
  length 10 (box 10 by 0) and a band of 10 by 0.5 around it: with the bounding-box
  fallback of \<open>isPointInShape\<close> the edge (line, band) is recorded although the inner
  box has area 5 and the outer box area 0, so no ratio of at most 0.95 relates them.
\<close>

theorem containment_counterexample:
  "edgeRecorded
     (buildContainmentGraph (\<lambda>outer inner. Some (isShapeContainedIn None outer inner))
        [lineOuter, bandInner]) (path_id lineOuter) (path_id bandInner) \<and>
   bboxArea (path_bbox lineOuter) = 0 \<and> bboxArea (path_bbox bandInner) = 5 \<and>
   \<not> bboxArea (path_bbox bandInner) \<le> 0.95 * bboxArea (path_bbox lineOuter)"
proof -
  have "edgeRecorded
     (buildContainmentGraph (\<lambda>outer inner. Some (isShapeContainedIn None outer inner))
        [lineOuter, bandInner]) (path_id lineOuter) (path_id bandInner)"
    by (rule two_entry_edge)
       (simp_all add: line_contains_band, simp_all add: lineOuter_def bandInner_def bboxContains_def bboxArea_def)
  then show ?thesis
    by (simp add: lineOuter_def bandInner_def bboxArea_def)
qed

text \<open>
  Claim C7, amended.  For registered paths (their ids are distinct) and every shape
  test: whenever an edge (outer, inner) is recorded and the outer bounding box has
  positive area, the inner/outer bounding-box area ratio is at most 0.95; in particular
  the two bounding boxes are not equal (equal boxes of positive area have ratio 1.0 and
  are never recorded as contained), and the outer box contains the inner one within the
  0.5 margin.
\<close>

theorem containment_edge_ratio:
  assumes "distinct (map path_id entries)"
    and "outer \<in> set entries" and "inner \<in> set entries"
    and "edgeRecorded (buildContainmentGraph shapeTest entries) (path_id outer) (path_id inner)"
    and "bboxArea (path_bbox outer) > 0"
  shows "bboxArea (path_bbox inner) / bboxArea (path_bbox outer) \<le> 0.95 \<and>
         path_bbox inner \<noteq> path_bbox outer \<and>
         bboxContains (path_bbox outer) (path_bbox inner)"
proof -
  from assms(4) have "edgeOk entries (path_id outer) (path_id inner)"
    by (rule buildContainmentGraph_edges)
  then obtain outer' inner' where m: "outer' \<in> set entries" "inner' \<in> set entries"
    and i: "path_id outer' = path_id outer" "path_id inner' = path_id inner"
    and c: "bboxContains (path_bbox outer') (path_bbox inner')"
    and r: "\<not> (bboxArea (path_bbox outer') > 0 \<and>
              bboxArea (path_bbox inner') / bboxArea (path_bbox outer') > 0.95)"
    unfolding edgeOk_def by blast
  from assms(1) have "inj_on path_id (set entries)"
    by (simp add: distinct_map)
  with m i assms(2,3) have eq: "outer' = outer" "inner' = inner"
    by (auto dest: inj_onD)
  from r assms(5) have le: "bboxArea (path_bbox inner) / bboxArea (path_bbox outer) \<le> 0.95"
    unfolding eq by auto
  have "path_bbox inner \<noteq> path_bbox outer"
  proof
    assume "path_bbox inner = path_bbox outer"
    with le assms(5) show False by simp
  qed
  with le c show ?thesis unfolding eq by simp
qed

definition squareAt :: "string \<Rightarrow> real \<Rightarrow> real \<Rightarrow> pathEntry" where
  "squareAt i x0 w =
     \<lparr>path_id = i, originalId = i,
      path_bbox = \<lparr>box_x = x0, box_y = x0, box_width = w, box_height = w\<rparr>,
      path_area = w * w, centroid = \<lparr>pt_x = x0 + w / 2, pt_y = x0 + w / 2\<rparr>,
      perimeter = 4 * w,
      fillPaint = blackSolid, strokePaint = blackSolid, zIndex = 0, compoundParent = None\<rparr>"

theorem containment_edge_ratio_witness:
  "bboxArea (path_bbox (squareAt ''p_1'' 10 20)) / bboxArea (path_bbox (squareAt ''p_0'' 0 100)) \<le> 0.95 \<and>
   path_bbox (squareAt ''p_1'' 10 20) \<noteq> path_bbox (squareAt ''p_0'' 0 100) \<and>
   bboxContains (path_bbox (squareAt ''p_0'' 0 100)) (path_bbox (squareAt ''p_1'' 10 20))"
proof (rule containment_edge_ratio [where entries = "[squareAt ''p_0'' 0 100, squareAt ''p_1'' 10 20]"
      and shapeTest = "\<lambda>outer inner. Some (isShapeContainedIn None outer inner)"])
  show "distinct (map path_id [squareAt ''p_0'' 0 100, squareAt ''p_1'' 10 20])"
    by (simp add: squareAt_def)
  show "squareAt ''p_0'' 0 100 \<in> set [squareAt ''p_0'' 0 100, squareAt ''p_1'' 10 20]" by simp
  show "squareAt ''p_1'' 10 20 \<in> set [squareAt ''p_0'' 0 100, squareAt ''p_1'' 10 20]" by simp
  show "0 < bboxArea (path_bbox (squareAt ''p_0'' 0 100))"
    by (simp add: squareAt_def bboxArea_def)
  have "isShapeContainedIn None (squareAt ''p_0'' 0 100) (squareAt ''p_1'' 10 20)"
    by (simp add: isShapeContainedIn_def isPointInShape_def squareAt_def bboxContains_def
        Let_def upt_eight)
  then show "edgeRecorded
     (buildContainmentGraph (\<lambda>outer inner. Some (isShapeContainedIn None outer inner))
        [squareAt ''p_0'' 0 100, squareAt ''p_1'' 10 20])
     (path_id (squareAt ''p_0'' 0 100)) (path_id (squareAt ''p_1'' 10 20))"
    by (intro two_entry_edge)
       (simp_all, simp_all add: squareAt_def bboxContains_def bboxArea_def)
qed

section \<open>Path and paint registry (svg-registry.js)\<close>

text \<open>
  The source builds ids by appending an array index to a prefix (\<open>"paint_" + map.size\<close>,
  \<open>"pg_" + i\<close>, \<open>`p_${zIndex}`\<close>); \<open>showNat\<close> is the decimal rendering of a
  non-negative integer.  An access to a field of \<open>undefined\<close> raises a \<open>TypeError\<close>.
\<close>

datatype error = TypeError

subsection \<open>Decimal rendering of array indices\<close>

definition decDigit :: "nat \<Rightarrow> char" where
  "decDigit n = ''0123456789'' ! (n mod 10)"

fun showNat :: "nat \<Rightarrow> string" where
  "showNat n = (if n < 10 then [decDigit n] else showNat (n div 10) @ [decDigit (n mod 10)])"

declare showNat.simps [simp del]

lemma decDigit_inj: "m < 10 \<Longrightarrow> n < 10 \<Longrightarrow> decDigit m = decDigit n \<Longrightarrow> m = n"
proof -
  have d: "distinct ''0123456789''" by simp
  assume "m < 10" "n < 10" "decDigit m = decDigit n"
  then show ?thesis
    using d unfolding decDigit_def
    by (simp add: nth_eq_iff_index_eq)
qed

lemma showNat_nonempty: "showNat n \<noteq> []"
  by (subst showNat.simps) simp

lemma showNat_inj: "showNat m = showNat n \<Longrightarrow> m = n"
proof (induction m arbitrary: n rule: showNat.induct)
  case (1 m)
  show ?case
  proof (cases "m < 10")
    case True
    show ?thesis
    proof (cases "n < 10")
      case n: True
      from 1(2) True n have "decDigit m = decDigit n"
        by (simp add: showNat.simps)
      with True n show ?thesis by (intro decDigit_inj) auto
    next
      case n: False
      from 1(2) True n have "[decDigit m] = showNat (n div 10) @ [decDigit (n mod 10)]"
        by (simp add: showNat.simps)
      then show ?thesis using showNat_nonempty [of "n div 10"] by auto
    qed
  next
    case False
    show ?thesis
    proof (cases "n < 10")
      case n: True
      from 1(2) False n have "showNat (m div 10) @ [decDigit (m mod 10)] = [decDigit n]"
        by (simp add: showNat.simps)
      then show ?thesis using showNat_nonempty [of "m div 10"] by auto
    next
      case n: False
      from 1(2) False n have "showNat (m div 10) @ [decDigit (m mod 10)] = showNat (n div 10) @ [decDigit (n mod 10)]"
        by (simp add: showNat.simps)
      then have a: "showNat (m div 10) = showNat (n div 10)" and b: "decDigit (m mod 10) = decDigit (n mod 10)"
        by simp_all
      from 1(1)[OF False a] have "m div 10 = n div 10" .
      moreover from b have "m mod 10 = n mod 10" by (intro decDigit_inj) auto
      ultimately show ?thesis by (metis div_mult_mod_eq)
    qed
  qed
qed

lemma showNat_digits: "c \<in> set (showNat n) \<Longrightarrow> c \<in> set ''0123456789''"
proof (induction n rule: showNat.induct)
  case (1 n)
  have d: "\<And>k. k < 10 \<Longrightarrow> decDigit k \<in> set ''0123456789''"
  proof -
    fix k :: nat assume "k < 10"
    then have "k \<in> {0,1,2,3,4,5,6,7,8,9}" by auto
    then show "decDigit k \<in> set ''0123456789''"
      unfolding decDigit_def by auto
  qed
  show ?case
  proof (cases "n < 10")
    case True
    with 1(2) d show ?thesis by (simp add: showNat.simps)
  next
    case False
    with 1 d[of "n mod 10"] show ?thesis
      by (subst (asm) (2) showNat.simps) auto
  qed
qed

subsection \<open>List helpers\<close>

definition removeAt :: "nat \<Rightarrow> 'a list \<Rightarrow> 'a list" where
  "removeAt k xs = take k xs @ drop (Suc k) xs"

lemma length_removeAt: "k < length xs \<Longrightarrow> length (removeAt k xs) = length xs - 1"
  by (simp add: removeAt_def)

lemma set_removeAt: "set (removeAt k xs) \<subseteq> set xs"
  unfolding removeAt_def by (auto dest: in_set_takeD in_set_dropD)

lemma sum_removeAt:
  fixes f :: "'a \<Rightarrow> 'm::comm_monoid_add"
  assumes "k < length xs"
  shows "sum_list (map f (removeAt k xs)) + f (xs ! k) = sum_list (map f xs)"
proof -
  have "xs = take k xs @ xs ! k # drop (Suc k) xs"
    using assms by (rule id_take_nth_drop)
  then have "sum_list (map f xs) = sum_list (map f (take k xs @ xs ! k # drop (Suc k) xs))"
    by simp
  then show ?thesis
    by (simp add: removeAt_def ac_simps)
qed

lemma sum_update:
  fixes f :: "'a \<Rightarrow> 'm::comm_monoid_add"
  assumes "k < length xs"
  shows "sum_list (map f (xs[k := v])) + f (xs ! k) = sum_list (map f xs) + f v"
proof -
  have "xs = take k xs @ xs ! k # drop (Suc k) xs"
    using assms by (rule id_take_nth_drop)
  then have "sum_list (map f xs) = sum_list (map f (take k xs @ xs ! k # drop (Suc k) xs))"
    by simp
  moreover have "xs[k := v] = take k xs @ v # drop (Suc k) xs"
    using assms by (rule upd_conv_take_nth_drop)
  ultimately show ?thesis
    by (simp add: ac_simps)
qed

lemma sum_merge:
  fixes f :: "'a \<Rightarrow> 'm::cancel_comm_monoid_add"
  assumes "i < length xs" "j < length xs" "i \<noteq> j" "f v = f (xs ! i) + f (xs ! j)"
  shows "sum_list (map f (removeAt j (xs[i := v]))) = sum_list (map f xs)"
proof -
  let ?ys = "xs[i := v]"
  have "sum_list (map f (removeAt j ?ys)) + f (?ys ! j) = sum_list (map f ?ys)"
    using assms(2) by (intro sum_removeAt) simp
  then have "sum_list (map f (removeAt j ?ys)) + f (xs ! j) = sum_list (map f ?ys)"
    using assms(3) by simp
  then have "sum_list (map f (removeAt j ?ys)) + f (xs ! j) + f (xs ! i) = sum_list (map f xs) + f v"
    using sum_update [OF assms(1), of f v] by simp
  then have "sum_list (map f (removeAt j ?ys)) + (f (xs ! i) + f (xs ! j)) = sum_list (map f xs) + (f (xs ! i) + f (xs ! j))"
    using assms(4) by (simp add: ac_simps)
  then show ?thesis by simp
qed

subsection \<open>clusterByPerceptualDistance (color-utils.js)\<close>

text \<open>
  The source keeps an array \<open>clusters\<close> and the insertion-ordered set \<open>active\<close> of the
  ids still alive; every round scans \<open>ids = [...active]\<close> by positions \<open>i < j\<close>, merges
  the members of \<open>clusters[ids[j]]\<close> into \<open>clusters[ids[i]]\<close> and deletes \<open>ids[j]\<close>
  from \<open>active\<close>, which keeps the order of the other ids.  The model's state is the list
  of the member lists of the active clusters in that order, and the best pair is a pair
  of positions in it.  The search keeps the first pair of least distance (the update is
  guarded by a strict \<open><\<close>); its initial \<open>bestDist = Infinity\<close> is \<open>None\<close>.
\<close>

record 'a labelled =
  l_item :: 'a
  l_lab :: lab

type_synonym best = "(real \<times> nat \<times> nat) option"

definition betterPair :: "best \<Rightarrow> real \<times> nat \<times> nat \<Rightarrow> best" where
  "betterPair b c =
     (case b of
        None \<Rightarrow> Some c
      | Some (bestDist, bestA, bestB) \<Rightarrow> if fst c < bestDist then Some c else b)"

definition pairCandidates :: "'a labelled list list \<Rightarrow> (real \<times> nat \<times> nat) list" where
  "pairCandidates cs =
     concat (map (\<lambda>i.
       concat (map (\<lambda>j.
         concat (map (\<lambda>ma. map (\<lambda>mb. (deltaE (l_lab ma) (l_lab mb), i, j)) (cs ! j)) (cs ! i)))
         [Suc i..<length cs]))
       [0..<length cs])"

definition closestClusters :: "'a labelled list list \<Rightarrow> best" where
  "closestClusters cs = foldl betterPair None (pairCandidates cs)"

definition mergeClusters :: "nat \<Rightarrow> nat \<Rightarrow> 'a list list \<Rightarrow> 'a list list" where
  "mergeClusters a b cs = removeAt b (cs[a := cs ! a @ cs ! b])"

lemma betterPair_mem:
  "foldl betterPair b0 cands = Some c \<Longrightarrow> b0 = Some c \<or> c \<in> set cands"
  by (induction cands arbitrary: b0)
     (auto simp: betterPair_def split: option.splits if_splits prod.splits)

lemma pairCandidates_bound:
  "(d, i, j) \<in> set (pairCandidates cs) \<Longrightarrow> i < j \<and> j < length cs"
  by (auto simp: pairCandidates_def)

lemma closestClusters_bound:
  "closestClusters cs = Some (d, i, j) \<Longrightarrow> i < j \<and> j < length cs"
  using betterPair_mem [of None "pairCandidates cs" "(d, i, j)"] pairCandidates_bound
  by (fastforce simp: closestClusters_def)

function clusterLoop :: "real \<Rightarrow> 'a labelled list list \<Rightarrow> 'a labelled list list" where
  "clusterLoop threshold cs =
     (if length cs > 1 then
        (case closestClusters cs of
           None \<Rightarrow> cs
         | Some (bestDist, bestA, bestB) \<Rightarrow>
             if bestDist > threshold then cs
             else clusterLoop threshold (mergeClusters bestA bestB cs))
      else cs)"
  by pat_completeness auto
termination
proof (relation "measure (\<lambda>(t, cs). length cs)")
  show "wf (measure (\<lambda>(t, cs). length cs))" by simp
next
  fix threshold :: real and cs :: "'a labelled list list" and x2 bestDist y bestA bestB
  assume "1 < length cs" and "closestClusters cs = Some x2" and "(bestDist, y) = x2"
    and "(bestA, bestB) = y"
  then have "closestClusters cs = Some (bestDist, bestA, bestB)" by simp
  then have "bestB < length cs" using closestClusters_bound by blast
  then show "((threshold, mergeClusters bestA bestB cs), (threshold, cs)) \<in> measure (\<lambda>(t, cs). length cs)"
    by (simp add: mergeClusters_def length_removeAt)
qed

declare clusterLoop.simps [simp del]

definition clusterByPerceptualDistance :: "('a \<Rightarrow> rgba) \<Rightarrow> 'a list \<Rightarrow> real \<Rightarrow> 'a list list" where
  "clusterByPerceptualDistance rgbOf items threshold =
     (if length items = 0 then []
      else
        let labs = map (\<lambda>it. \<lparr>l_item = it, l_lab = rgbToLab (rgbOf it)\<rparr>) items;
            clusters = map (\<lambda>l. [l]) labs
        in map (map l_item) (clusterLoop threshold clusters))"

lemma mergeClusters_mset:
  assumes "a < b" "b < length cs"
  shows "mset (concat (mergeClusters a b cs)) = mset (concat cs)"
proof -
  have "sum_list (map mset (removeAt b (cs[a := cs ! a @ cs ! b]))) = sum_list (map mset cs)"
    using assms by (intro sum_merge) auto
  then show ?thesis by (simp add: mergeClusters_def mset_concat)
qed

lemma mergeClusters_nonempty:
  assumes "\<forall>c \<in> set cs. c \<noteq> []" "a < length cs"
  shows "\<forall>c \<in> set (mergeClusters a b cs). c \<noteq> []"
proof
  fix c assume "c \<in> set (mergeClusters a b cs)"
  then have "c \<in> set (cs[a := cs ! a @ cs ! b])"
    unfolding mergeClusters_def using set_removeAt [of b "cs[a := cs ! a @ cs ! b]"] by auto
  then have "c = cs ! a @ cs ! b \<or> c \<in> set cs"
    using set_update_subset_insert [of cs a "cs ! a @ cs ! b"] by auto
  moreover have "cs ! a \<noteq> []" using assms by simp
  ultimately show "c \<noteq> []" using assms(1) by auto
qed

lemma clusterLoop_unfold_stop:
  "\<not> 1 < length cs \<or> closestClusters cs = None \<Longrightarrow> clusterLoop threshold cs = cs"
  by (subst clusterLoop.simps) auto

lemma clusterLoop_unfold_far:
  "closestClusters cs = Some (d, a, b) \<Longrightarrow> d > threshold \<Longrightarrow> clusterLoop threshold cs = cs"
  by (subst clusterLoop.simps) simp

lemma clusterLoop_unfold_merge:
  "1 < length cs \<Longrightarrow> closestClusters cs = Some (d, a, b) \<Longrightarrow> \<not> d > threshold
   \<Longrightarrow> clusterLoop threshold cs = clusterLoop threshold (mergeClusters a b cs)"
  by (subst clusterLoop.simps) simp

lemma clusterLoop_invariant:
  assumes "P cs"
    and step: "\<And>cs d a b. P cs \<Longrightarrow> closestClusters cs = Some (d, a, b) \<Longrightarrow> \<not> d > threshold \<Longrightarrow>
                 a < b \<Longrightarrow> b < length cs \<Longrightarrow> P (mergeClusters a b cs)"
  shows "P (clusterLoop threshold cs)"
  using assms(1)
proof (induction "length cs" arbitrary: cs rule: less_induct)
  case less
  show ?case
  proof (cases "closestClusters cs")
    case None
    with less.prems show ?thesis by (simp add: clusterLoop_unfold_stop)
  next
    case (Some t)
    obtain d a b where t: "closestClusters cs = Some (d, a, b)"
      using Some by (cases t) auto
    then have ab: "a < b" "b < length cs" using closestClusters_bound by blast+
    show ?thesis
    proof (cases "1 < length cs \<and> \<not> d > threshold")
      case True
      then have far: "\<not> d > threshold" by simp
      have "length (mergeClusters a b cs) < length cs"
        using ab by (simp add: mergeClusters_def length_removeAt)
      moreover have "P (mergeClusters a b cs)"
        using less.prems t far ab by (rule step)
      ultimately have "P (clusterLoop threshold (mergeClusters a b cs))"
        by (rule less.hyps)
      with True t show ?thesis by (simp add: clusterLoop_unfold_merge)
    next
      case False
      then have "clusterLoop threshold cs = cs"
        using t clusterLoop_unfold_stop clusterLoop_unfold_far by (metis not_less)
      with less.prems show ?thesis by simp
    qed
  qed
qed

lemma clusterLoop_mset: "mset (concat (clusterLoop threshold cs)) = mset (concat cs)"
proof (rule clusterLoop_invariant [where P = "\<lambda>cs'. mset (concat cs') = mset (concat cs)"])
  show "mset (concat cs) = mset (concat cs)" ..
next
  fix cs' :: "'a labelled list list" and d :: real and a b :: nat
  assume "mset (concat cs') = mset (concat cs)" "a < b" "b < length cs'"
  then show "mset (concat (mergeClusters a b cs')) = mset (concat cs)"
    using mergeClusters_mset [of a b cs'] by (simp only:)
qed

lemma clusterLoop_nonempty:
  assumes "\<forall>c \<in> set cs. c \<noteq> []"
  shows "\<forall>c \<in> set (clusterLoop threshold cs). c \<noteq> []"
proof (rule clusterLoop_invariant [where P = "\<lambda>cs'. \<forall>c \<in> set cs'. c \<noteq> []"])
  show "\<forall>c \<in> set cs. c \<noteq> []" by (rule assms)
next
  fix cs' :: "'a labelled list list" and d a b
  assume "\<forall>c \<in> set cs'. c \<noteq> []" "a < b" "b < length cs'"
  then show "\<forall>c \<in> set (mergeClusters a b cs'). c \<noteq> []"
    by (intro mergeClusters_nonempty) auto
qed

lemma concat_singletons: "concat (map (\<lambda>l. [l]) xs) = xs"
  by (induction xs) simp_all

lemma cluster_partition:
  "mset (concat (clusterByPerceptualDistance rgbOf items threshold)) = mset items"
proof (cases "items = []")
  case True
  then show ?thesis by (simp add: clusterByPerceptualDistance_def)
next
  case False
  define labs where "labs = map (\<lambda>it. \<lparr>l_item = it, l_lab = rgbToLab (rgbOf it)\<rparr>) items"
  define out where "out = clusterLoop threshold (map (\<lambda>l. [l]) labs)"
  have r: "clusterByPerceptualDistance rgbOf items threshold = map (map l_item) out"
    using False by (simp add: clusterByPerceptualDistance_def labs_def out_def)
  have "mset (concat out) = mset labs"
    unfolding out_def by (simp only: clusterLoop_mset concat_singletons)
  then have "image_mset l_item (mset (concat out)) = image_mset l_item (mset labs)"
    by (rule arg_cong)
  then have "mset (map l_item (concat out)) = mset (map l_item labs)"
    by (simp only: mset_map)
  moreover have "map l_item labs = items"
    unfolding labs_def by (induction items) simp_all
  moreover have "map l_item (concat out) = concat (map (map l_item) out)"
    by (rule map_concat)
  ultimately show ?thesis
    unfolding r by (simp only:)
qed

lemma cluster_nonempty:
  "c \<in> set (clusterByPerceptualDistance rgbOf items threshold) \<Longrightarrow> c \<noteq> []"
proof -
  assume a: "c \<in> set (clusterByPerceptualDistance rgbOf items threshold)"
  have "\<forall>c \<in> set (clusterLoop threshold (map (\<lambda>l. [l]) (map (\<lambda>it. \<lparr>l_item = it, l_lab = rgbToLab (rgbOf it)\<rparr>) items))). c \<noteq> []"
    by (rule clusterLoop_nonempty) auto
  with a show ?thesis
    by (auto simp: clusterByPerceptualDistance_def Let_def split: if_splits)
qed

lemma deltaE_sym: "deltaE l1 l2 = deltaE l2 l1"
  by (simp add: deltaE_def power2_commute)

lemma betterPair_Some: "betterPair b c \<noteq> None"
proof (cases b)
  case None
  then show ?thesis by (simp add: betterPair_def)
next
  case (Some t)
  then show ?thesis by (cases t; cases c) (simp add: betterPair_def)
qed

lemma foldl_betterPair_None: "foldl betterPair b0 cands = None \<Longrightarrow> b0 = None \<and> cands = []"
proof (induction cands arbitrary: b0)
  case Nil
  then show ?case by simp
next
  case (Cons c cands)
  from Cons.prems have "foldl betterPair (betterPair b0 c) cands = None" by simp
  from Cons.IH [OF this] have "betterPair b0 c = None" by simp
  then show ?case by (simp add: betterPair_Some)
qed

lemma foldl_betterPair_least:
  "foldl betterPair b0 cands = Some r \<Longrightarrow>
     (\<forall>c \<in> set cands. fst r \<le> fst c) \<and> (\<forall>r0. b0 = Some r0 \<longrightarrow> fst r \<le> fst r0)"
proof (induction cands arbitrary: r rule: rev_induct)
  case Nil
  then show ?case by simp
next
  case (snoc x xs)
  show ?case
  proof (cases "foldl betterPair b0 xs")
    case None
    then have "b0 = None" "xs = []" using foldl_betterPair_None by blast+
    moreover have "betterPair None x = Some x" by (simp add: betterPair_def)
    ultimately show ?thesis using snoc.prems by simp
  next
    case (Some r')
    from snoc.IH [OF Some]
    have ih: "\<forall>c \<in> set xs. fst r' \<le> fst c" "\<forall>r0. b0 = Some r0 \<longrightarrow> fst r' \<le> fst r0"
      by simp_all
    have "betterPair (Some r') x = Some (if fst x < fst r' then x else r')"
      by (cases r') (simp add: betterPair_def)
    moreover have "betterPair (foldl betterPair b0 xs) x = Some r"
      using snoc.prems by simp
    ultimately have "r = (if fst x < fst r' then x else r')"
      unfolding Some by simp
    then have "fst r \<le> fst r'" "fst r \<le> fst x" by (simp_all split: if_splits)
    with ih show ?thesis by fastforce
  qed
qed

lemma pairCandidates_mem:
  assumes "i < j" "j < length cs" "x \<in> set (cs ! i)" "y \<in> set (cs ! j)"
  shows "(deltaE (l_lab x) (l_lab y), i, j) \<in> set (pairCandidates cs)"
proof -
  let ?c = "(deltaE (l_lab x) (l_lab y), i, j)"
  have "?c \<in> (\<lambda>mb. (deltaE (l_lab x) (l_lab mb), i, j)) ` set (cs ! j)"
    using assms(4) by blast
  then have "\<exists>ma \<in> set (cs ! i). ?c \<in> (\<lambda>mb. (deltaE (l_lab ma) (l_lab mb), i, j)) ` set (cs ! j)"
    using assms(3) by blast
  moreover have "j \<in> {Suc i..<length cs}" using assms(1,2) by simp
  ultimately have "\<exists>j' \<in> {Suc i..<length cs}. \<exists>ma \<in> set (cs ! i).
               ?c \<in> (\<lambda>mb. (deltaE (l_lab ma) (l_lab mb), i, j')) ` set (cs ! j')"
    by (rule bexI [where x = j])
  moreover have "i \<in> {0..<length cs}" using assms(1,2) by simp
  ultimately have "\<exists>i' \<in> {0..<length cs}. \<exists>j' \<in> {Suc i'..<length cs}. \<exists>ma \<in> set (cs ! i').
               ?c \<in> (\<lambda>mb. (deltaE (l_lab ma) (l_lab mb), i', j')) ` set (cs ! j')"
    by (rule bexI [where x = i])
  then show ?thesis by (simp add: pairCandidates_def)
qed

lemma pairCandidates_elim:
  assumes "(d, i, j) \<in> set (pairCandidates cs)"
  shows "\<exists>x \<in> set (cs ! i). \<exists>y \<in> set (cs ! j). d = deltaE (l_lab x) (l_lab y)"
  using assms unfolding pairCandidates_def by auto

lemma closestClusters_least:
  assumes "closestClusters cs = Some (d, a, b)" "i < j" "j < length cs"
    "x \<in> set (cs ! i)" "y \<in> set (cs ! j)"
  shows "d \<le> deltaE (l_lab x) (l_lab y)"
  using foldl_betterPair_least [OF assms(1) [unfolded closestClusters_def]]
    pairCandidates_mem [OF assms(2-5)] by fastforce

lemma closestClusters_None:
  assumes "closestClusters cs = None" "i < j" "j < length cs"
  shows "cs ! i = [] \<or> cs ! j = []"
proof (rule ccontr)
  assume "\<not> ?thesis"
  then obtain x y where "x \<in> set (cs ! i)" "y \<in> set (cs ! j)"
    by (cases "cs ! i"; cases "cs ! j") auto
  from pairCandidates_mem [OF assms(2,3) this]
  have "pairCandidates cs \<noteq> []" by auto
  with foldl_betterPair_None [OF assms(1) [unfolded closestClusters_def]]
  show False by simp
qed

lemma closestClusters_attained:
  assumes "closestClusters cs = Some (d, a, b)"
  shows "\<exists>x \<in> set (cs ! a). \<exists>y \<in> set (cs ! b). d = deltaE (l_lab x) (l_lab y)"
  using betterPair_mem [OF assms [unfolded closestClusters_def]] pairCandidates_elim
  by blast

subsection \<open>What the clusters are\<close>

text \<open>
  The search returns a pair of least distance among all pairs of items of different
  clusters, so the loop stops only when every such pair is further apart than the
  threshold, and it merges two clusters only when two of their items are within it.
\<close>

definition separated :: "real \<Rightarrow> 'a labelled list list \<Rightarrow> bool" where
  "separated t cs =
     (\<forall>i j. i < j \<and> j < length cs \<longrightarrow>
        (\<forall>x \<in> set (cs ! i). \<forall>y \<in> set (cs ! j). deltaE (l_lab x) (l_lab y) > t))"

lemma clusterLoop_final:
  "\<not> 1 < length (clusterLoop threshold cs) \<or>
   closestClusters (clusterLoop threshold cs) = None \<or>
   (\<exists>d a b. closestClusters (clusterLoop threshold cs) = Some (d, a, b) \<and> d > threshold)"
proof (induction "length cs" arbitrary: cs rule: less_induct)
  case less
  show ?case
  proof (cases "closestClusters cs")
    case None
    then show ?thesis by (simp add: clusterLoop_unfold_stop)
  next
    case (Some t)
    obtain d a b where t: "closestClusters cs = Some (d, a, b)"
      using Some by (cases t) auto
    then have ab: "a < b" "b < length cs" using closestClusters_bound by blast+
    show ?thesis
    proof (cases "1 < length cs \<and> \<not> d > threshold")
      case True
      have "length (mergeClusters a b cs) < length cs"
        using ab by (simp add: mergeClusters_def length_removeAt)
      from less.hyps [OF this] True t show ?thesis
        by (simp add: clusterLoop_unfold_merge)
    next
      case False
      then have "clusterLoop threshold cs = cs"
        using t clusterLoop_unfold_stop clusterLoop_unfold_far by (metis not_less)
      with False t show ?thesis by auto
    qed
  qed
qed

lemma clusterLoop_separated:
  assumes "\<forall>c \<in> set cs. c \<noteq> []"
  shows "separated threshold (clusterLoop threshold cs)"
proof -
  let ?out = "clusterLoop threshold cs"
  have ne: "\<forall>c \<in> set ?out. c \<noteq> []"
    using assms by (rule clusterLoop_nonempty)
  have "deltaE (l_lab x) (l_lab y) > threshold"
    if "i < j" "j < length ?out" "x \<in> set (?out ! i)" "y \<in> set (?out ! j)" for i j x y
  proof -
    have "1 < length ?out" using that by simp
    moreover have "closestClusters ?out \<noteq> None"
    proof
      assume "closestClusters ?out = None"
      from closestClusters_None [OF this that(1,2)] that(3,4) show False by auto
    qed
    ultimately obtain d a b where c: "closestClusters ?out = Some (d, a, b)" and "d > threshold"
      using clusterLoop_final [of threshold cs] by auto
    with closestClusters_least [OF c that] show ?thesis by simp
  qed
  then show ?thesis unfolding separated_def by blast
qed

text \<open>
  What clustering at a threshold means for the result: two items are \<open>near\<close> when their
  \<Delta>E is at most the threshold, and two items are to share a cluster exactly when a chain
  of near items leads from one to the other.  \<open>separated\<close> says that items of different
  clusters are further apart than the threshold, \<open>linked\<close> that the items of one
  cluster are joined by such chains.
\<close>

definition nearLabs :: "real \<Rightarrow> 'a labelled set \<Rightarrow> ('a labelled \<times> 'a labelled) set" where
  "nearLabs t S = {(x, y). x \<in> S \<and> y \<in> S \<and> deltaE (l_lab x) (l_lab y) \<le> t}"

definition linked :: "real \<Rightarrow> 'a labelled set \<Rightarrow> 'a labelled list list \<Rightarrow> bool" where
  "linked t S cs = (\<forall>c \<in> set cs. \<forall>x \<in> set c. \<forall>y \<in> set c. (x, y) \<in> (nearLabs t S)\<^sup>*)"

lemma nearLabs_sym: "(x, y) \<in> nearLabs t S \<Longrightarrow> (y, x) \<in> nearLabs t S"
  by (simp add: nearLabs_def deltaE_sym)

lemma nearLabs_rtrancl_sym: "(x, y) \<in> (nearLabs t S)\<^sup>* \<Longrightarrow> (y, x) \<in> (nearLabs t S)\<^sup>*"
proof (induction rule: rtrancl_induct)
  case base
  then show ?case by simp
next
  case (step y z)
  from step.hyps(2) have "(z, y) \<in> nearLabs t S" by (rule nearLabs_sym)
  then show ?case using step.IH by (rule converse_rtrancl_into_rtrancl)
qed

lemma set_mergeClusters:
  assumes "a < b" "b < length cs" "c \<in> set (mergeClusters a b cs)"
  shows "c = cs ! a @ cs ! b \<or> c \<in> set cs"
proof -
  from assms(3) have "c \<in> set (cs[a := cs ! a @ cs ! b])"
    unfolding mergeClusters_def using set_removeAt [of b "cs[a := cs ! a @ cs ! b]"] by auto
  then show ?thesis
    using set_update_subset_insert [of cs a "cs ! a @ cs ! b"] by auto
qed

lemma mergeClusters_linked:
  assumes l: "linked t S cs" and sub: "set (concat cs) \<subseteq> S"
    and c: "closestClusters cs = Some (d, a, b)" and d: "\<not> d > t"
    and ab: "a < b" "b < length cs"
  shows "linked t S (mergeClusters a b cs)"
proof -
  let ?R = "(nearLabs t S)\<^sup>*"
  from closestClusters_attained [OF c]
  obtain x y where xy: "x \<in> set (cs ! a)" "y \<in> set (cs ! b)" "d = deltaE (l_lab x) (l_lab y)"
    by blast
  have ina: "cs ! a \<in> set cs" and inb: "cs ! b \<in> set cs" using ab by simp_all
  have "x \<in> S" "y \<in> S" using xy ina inb sub by auto
  with xy d have near: "(x, y) \<in> nearLabs t S" by (simp add: nearLabs_def)
  have la: "\<And>u v. u \<in> set (cs ! a) \<Longrightarrow> v \<in> set (cs ! a) \<Longrightarrow> (u, v) \<in> ?R"
    using l ina unfolding linked_def by blast
  have lb: "\<And>u v. u \<in> set (cs ! b) \<Longrightarrow> v \<in> set (cs ! b) \<Longrightarrow> (u, v) \<in> ?R"
    using l inb unfolding linked_def by blast
  have cross: "(u, v) \<in> ?R" if "u \<in> set (cs ! a)" "v \<in> set (cs ! b)" for u v
  proof -
    have "(u, x) \<in> ?R" using that xy la by simp
    also have "(x, y) \<in> ?R" using near by (rule r_into_rtrancl)
    also have "(y, v) \<in> ?R" using that xy lb by simp
    finally show ?thesis .
  qed
  have merged: "(u, v) \<in> ?R" if "u \<in> set (cs ! a @ cs ! b)" "v \<in> set (cs ! a @ cs ! b)" for u v
  proof -
    from that have "(u \<in> set (cs ! a) \<or> u \<in> set (cs ! b))" "(v \<in> set (cs ! a) \<or> v \<in> set (cs ! b))"
      by simp_all
    then show ?thesis
      using la [of u v] lb [of u v] cross [of u v] nearLabs_rtrancl_sym [OF cross [of v u]]
      by blast
  qed
  show ?thesis
    unfolding linked_def
  proof (intro ballI)
    fix c u v assume "c \<in> set (mergeClusters a b cs)" "u \<in> set c" "v \<in> set c"
    with set_mergeClusters [OF ab, of c] have
      "(c = cs ! a @ cs ! b) \<or> c \<in> set cs" by simp
    then show "(u, v) \<in> ?R"
    proof
      assume "c = cs ! a @ cs ! b"
      with \<open>u \<in> set c\<close> \<open>v \<in> set c\<close> show ?thesis using merged [of u v] by simp
    next
      assume "c \<in> set cs"
      with l \<open>u \<in> set c\<close> \<open>v \<in> set c\<close> show ?thesis unfolding linked_def by blast
    qed
  qed
qed


lemma clusterLoop_linked:
  assumes "linked t S cs" "set (concat cs) \<subseteq> S"
  shows "linked t S (clusterLoop t cs)"
proof -
  have "linked t S (clusterLoop t cs) \<and> set (concat (clusterLoop t cs)) \<subseteq> S"
  proof (rule clusterLoop_invariant [where P = "\<lambda>cs'. linked t S cs' \<and> set (concat cs') \<subseteq> S"])
    show "linked t S cs \<and> set (concat cs) \<subseteq> S" using assms by simp
  next
    fix cs' :: "'a labelled list list" and d :: real and a b :: nat
    assume p: "linked t S cs' \<and> set (concat cs') \<subseteq> S"
      and c: "closestClusters cs' = Some (d, a, b)" and d: "\<not> d > t"
      and ab: "a < b" "b < length cs'"
    have "linked t S (mergeClusters a b cs')"
      using p c d ab by (intro mergeClusters_linked) simp_all
    moreover have "set (concat (mergeClusters a b cs')) = set (concat cs')"
      using mergeClusters_mset [OF ab] by (rule mset_eq_setD)
    ultimately show "linked t S (mergeClusters a b cs') \<and> set (concat (mergeClusters a b cs')) \<subseteq> S"
      using p by simp
  qed
  then show ?thesis ..
qed

lemma singletons_linked: "linked t S (map (\<lambda>l. [l]) labs)"
  by (auto simp: linked_def)

lemma separated_closed:
  assumes sep: "separated t out" and S: "set (concat out) = S"
    and r: "(x, y) \<in> (nearLabs t S)\<^sup>*" and x: "i < length out" "x \<in> set (out ! i)"
  shows "y \<in> set (out ! i)"
  using r
proof (induction rule: rtrancl_induct)
  case base
  show ?case by (rule x(2))
next
  case (step y z)
  from step.hyps(2) have near: "y \<in> S" "z \<in> S" "deltaE (l_lab y) (l_lab z) \<le> t"
    by (simp_all add: nearLabs_def)
  from near(2) S obtain c where "c \<in> set out" "z \<in> set c" by auto
  then obtain j where j: "j < length out" "z \<in> set (out ! j)"
    by (auto simp: in_set_conv_nth)
  show ?case
  proof (rule ccontr)
    assume nz: "z \<notin> set (out ! i)"
    with j have ne: "i \<noteq> j" by auto
    have "deltaE (l_lab y) (l_lab z) > t"
    proof (cases "i < j")
      case True
      with sep j step.IH show ?thesis unfolding separated_def by blast
    next
      case False
      with ne have "j < i" by simp
      with sep x(1) j(2) step.IH have "deltaE (l_lab z) (l_lab y) > t"
        unfolding separated_def by blast
      then show ?thesis by (simp add: deltaE_sym)
    qed
    with near(3) show False by simp
  qed
qed

lemma clusterLoop_same_cluster:
  assumes x: "x \<in> set labs" and y: "y \<in> set labs"
  shows "(\<exists>c \<in> set (clusterLoop t (map (\<lambda>l. [l]) labs)). x \<in> set c \<and> y \<in> set c)
           \<longleftrightarrow> (x, y) \<in> (nearLabs t (set labs))\<^sup>*"
proof -
  let ?cs = "map (\<lambda>l. [l]) labs"
  let ?out = "clusterLoop t ?cs"
  have S: "set (concat ?out) = set labs"
    using clusterLoop_mset [of t ?cs] mset_eq_setD [of "concat ?out" "concat ?cs"]
    by (simp only: concat_singletons)
  have l: "linked t (set labs) ?out"
    by (rule clusterLoop_linked) (simp_all add: singletons_linked concat_singletons)
  have sep: "separated t ?out"
    by (rule clusterLoop_separated) simp
  show ?thesis
  proof
    assume "\<exists>c \<in> set ?out. x \<in> set c \<and> y \<in> set c"
    with l show "(x, y) \<in> (nearLabs t (set labs))\<^sup>*" unfolding linked_def by blast
  next
    assume r: "(x, y) \<in> (nearLabs t (set labs))\<^sup>*"
    from x S obtain c where "c \<in> set ?out" "x \<in> set c" by auto
    then obtain i where i: "i < length ?out" "x \<in> set (?out ! i)"
      by (auto simp: in_set_conv_nth)
    from separated_closed [OF sep S r i] have "y \<in> set (?out ! i)" .
    with i show "\<exists>c \<in> set ?out. x \<in> set c \<and> y \<in> set c"
      using nth_mem [OF i(1)] by blast
  qed
qed

lemma cluster_items:
  "clusterByPerceptualDistance rgbOf items threshold =
     map (map l_item)
       (clusterLoop threshold
          (map (\<lambda>l. [l]) (map (\<lambda>it. \<lparr>l_item = it, l_lab = rgbToLab (rgbOf it)\<rparr>) items)))"
  by (cases items) (simp_all add: clusterByPerceptualDistance_def clusterLoop_unfold_stop Let_def)

subsection \<open>extractPaint, paintKey (svg-registry.js)\<close>

text \<open>
  What \<open>extractPaint\<close> reads from the document is a parameter of the model:
  \<open>parseColor\<close>, the colour parser of color-utils.js (regular expressions over the
  attribute text), and \<open>resolveGradientElement\<close>, the lookup of a \<open>url(#id)\<close> reference
  in the document, which yields the lower-cased tag name of the element found and its
  stops as \<open>resolveGradientStops\<close> reads them.  Every statement below holds for all
  such functions.
\<close>

record gradientEl =
  grad_tag :: string
  grad_stops :: "stop list"

record env =
  parseColor :: "string \<Rightarrow> rgba"
  resolveGradientElement :: "string \<Rightarrow> gradientEl option"

definition opaqueBlack :: rgba where
  "opaqueBlack = \<lparr>red = 0, green = 0, blue = 0, alpha = 1\<rparr>"

definition meshPaint :: "string \<Rightarrow> paint" where
  "meshPaint r = \<lparr>ptype = ''complex_mesh'', raw = r, paint_rgba = opaqueBlack,
                  paint_lab = None, hex = None, stops = [], pid = None\<rparr>"

definition gradientPaint :: "string \<Rightarrow> string \<Rightarrow> stop list \<Rightarrow> paint" where
  "gradientPaint ty r ss =
     \<lparr>ptype = ty, raw = r,
      paint_rgba = (case ss of [] \<Rightarrow> opaqueBlack | s # _ \<Rightarrow> stop_rgb s),
      paint_lab = None, hex = None, stops = ss, pid = None\<rparr>"

definition extractPaint :: "env \<Rightarrow> string option \<Rightarrow> paint" where
  "extractPaint e attr =
     (case attr of
        None \<Rightarrow> \<lparr>ptype = ''none'', raw = ''none'',
                  paint_rgba = \<lparr>red = 0, green = 0, blue = 0, alpha = 0\<rparr>,
                  paint_lab = None, hex = None, stops = [], pid = None\<rparr>
      | Some r \<Rightarrow>
          if r = [] \<or> r = ''none'' then
            \<lparr>ptype = ''none'', raw = ''none'',
             paint_rgba = \<lparr>red = 0, green = 0, blue = 0, alpha = 0\<rparr>,
             paint_lab = None, hex = None, stops = [], pid = None\<rparr>
          else if startsWith r ''url('' then
            (case resolveGradientElement e r of
               None \<Rightarrow> meshPaint r
             | Some gradEl \<Rightarrow>
                 if grad_tag gradEl = ''lineargradient'' then
                   gradientPaint ''linear'' r (grad_stops gradEl)
                 else if grad_tag gradEl = ''radialgradient'' then
                   gradientPaint ''radial'' r (grad_stops gradEl)
                 else meshPaint r)
          else
            let c = parseColor e r in
            \<lparr>ptype = ''solid'', raw = r, paint_rgba = c, paint_lab = Some (rgbToLab c),
             hex = Some (rgbToHex c), stops = [], pid = None\<rparr>)"

fun joinWith :: "string \<Rightarrow> string list \<Rightarrow> string" where
  "joinWith sep [] = []"
| "joinWith sep [s] = s"
| "joinWith sep (s # t # ss) = s @ sep @ joinWith sep (t # ss)"

definition paintKey :: "paint \<Rightarrow> string" where
  "paintKey p =
     (if ptype p = ''none'' then ''none''
      else if ptype p = ''solid'' then
        ''solid:'' @ (case hex p of None \<Rightarrow> ''undefined'' | Some h \<Rightarrow> h)
      else if ptype p = ''linear'' \<or> ptype p = ''radial'' then
        ptype p @ '':'' @ joinWith '','' (map (\<lambda>s. color s @ ''@'' @ offset s) (stops p))
      else ''complex:'' @ raw p)"

subsection \<open>deduplicatePaints\<close>

text \<open>The \<open>Map\<close> from key to paint, as the list of its entries in insertion order.\<close>

type_synonym paintTable = "(string \<times> paint) list"

definition dedupStep :: "paintTable \<Rightarrow> paint \<Rightarrow> paintTable" where
  "dedupStep m p =
     (let k = paintKey p in
      if k \<in> fst ` set m then m
      else m @ [(k, p\<lparr>pid := Some (''paint_'' @ showNat (length m))\<rparr>)])"

definition deduplicatePaints :: "paint list \<Rightarrow> paintTable" where
  "deduplicatePaints paintsList = foldl dedupStep [] paintsList"

subsection \<open>groupPaints\<close>

text \<open>
  \<open>cluster[0].paint\<close> raises a \<open>TypeError\<close> on an empty cluster, so \<open>groupPaints\<close>
  returns a sum; \<open>groupPaints_total\<close> below shows that it never fails.
\<close>

record solidItem =
  item_id :: "string option"
  item_rgb :: rgba
  item_paint :: paint

record paintGroup =
  group_id :: string
  group_type :: string
  members :: "string option list"
  representative :: "paint option"

fun solidGroups :: "nat \<Rightarrow> solidItem list list \<Rightarrow> error + paintGroup list" where
  "solidGroups i [] = Inr []"
| "solidGroups i (cluster # rest) =
     (case cluster of
        [] \<Rightarrow> Inl TypeError
      | c # _ \<Rightarrow>
          (case solidGroups (Suc i) rest of
             Inl e \<Rightarrow> Inl e
           | Inr gs \<Rightarrow>
               Inr (\<lparr>group_id = ''pg_'' @ showNat i, group_type = ''solid_cluster'',
                      members = map item_id cluster,
                      representative = Some (item_paint c)\<rparr> # gs)))"

fun nonSolidGroups :: "nat \<Rightarrow> paint list \<Rightarrow> paintGroup list" where
  "nonSolidGroups i [] = []"
| "nonSolidGroups i (p # ps) =
     \<lparr>group_id = ''pg_ns_'' @ showNat i, group_type = ptype p,
      members = [pid p], representative = Some p\<rparr> # nonSolidGroups (Suc i) ps"

definition isClusteredSolid :: "paint \<Rightarrow> bool" where
  "isClusteredSolid p = (ptype p = ''solid'' \<and> alpha (paint_rgba p) > 0)"

definition groupPaints :: "paintTable \<Rightarrow> real \<Rightarrow> error + paintGroup list" where
  "groupPaints paintsMap threshold =
     (let solids = map (\<lambda>p. \<lparr>item_id = pid p, item_rgb = paint_rgba p, item_paint = p\<rparr>)
                     (filter isClusteredSolid (map snd paintsMap));
          nonSolids = filter (\<lambda>p. \<not> isClusteredSolid p) (map snd paintsMap);
          clusters = clusterByPerceptualDistance item_rgb solids threshold
      in case solidGroups 0 clusters of
           Inl e \<Rightarrow> Inl e
         | Inr groups \<Rightarrow> Inr (groups @ nonSolidGroups 0 nonSolids))"

subsection \<open>Facts about the table and the groups\<close>

lemma dedup_pids:
  "map (pid \<circ> snd) (foldl dedupStep [] ps)
     = map (\<lambda>k. Some (''paint_'' @ showNat k)) [0..<length (foldl dedupStep [] ps)]"
  by (induction ps rule: rev_induct) (auto simp: dedupStep_def Let_def)

lemma paint_ids_distinct: "distinct (map (\<lambda>k. Some (''paint_'' @ showNat k)) [0..<n])"
  by (auto simp: distinct_map inj_on_def dest: showNat_inj)

lemma deduplicatePaints_pids_distinct: "distinct (map (pid \<circ> snd) (deduplicatePaints ps))"
  unfolding deduplicatePaints_def dedup_pids by (rule paint_ids_distinct)

lemma deduplicatePaints_pids_defined: "p \<in> snd ` set (deduplicatePaints ps) \<Longrightarrow> pid p \<noteq> None"
proof -
  assume "p \<in> snd ` set (deduplicatePaints ps)"
  then have "pid p \<in> set (map (pid \<circ> snd) (deduplicatePaints ps))" by auto
  then show ?thesis
    unfolding deduplicatePaints_def dedup_pids by auto
qed

lemma solidGroups_ok:
  "\<forall>c \<in> set clusters. c \<noteq> [] \<Longrightarrow>
   solidGroups i clusters =
     Inr (map (\<lambda>(k, cluster).
            \<lparr>group_id = ''pg_'' @ showNat k, group_type = ''solid_cluster'',
             members = map item_id cluster,
             representative = Some (item_paint (hd cluster))\<rparr>)
          (zip [i..<i + length clusters] clusters))"
proof (induction clusters arbitrary: i)
  case Nil
  then show ?case by simp
next
  case (Cons c cs)
  then have "c \<noteq> []" by simp
  then obtain x xs where c: "c = x # xs" by (cases c) auto
  have "[i..<i + length (c # cs)] = i # [Suc i..<Suc i + length cs]"
    by (simp add: upt_rec)
  with Cons c show ?case by simp
qed

lemma nonSolidGroups_eq:
  "nonSolidGroups i ps =
     map (\<lambda>(k, p). \<lparr>group_id = ''pg_ns_'' @ showNat k, group_type = ptype p,
                     members = [pid p], representative = Some p\<rparr>)
         (zip [i..<i + length ps] ps)"
proof (induction ps arbitrary: i)
  case Nil
  then show ?case by simp
next
  case (Cons p ps)
  have "[i..<i + length (p # ps)] = i # [Suc i..<Suc i + length ps]"
    by (simp add: upt_rec)
  with Cons show ?case by simp
qed

definition solidItems :: "paintTable \<Rightarrow> solidItem list" where
  "solidItems paintsMap =
     map (\<lambda>p. \<lparr>item_id = pid p, item_rgb = paint_rgba p, item_paint = p\<rparr>)
       (filter isClusteredSolid (map snd paintsMap))"

definition nonSolids :: "paintTable \<Rightarrow> paint list" where
  "nonSolids paintsMap = filter (\<lambda>p. \<not> isClusteredSolid p) (map snd paintsMap)"

lemma groupPaints_eq:
  "groupPaints paintsMap threshold =
     Inr (map (\<lambda>(k, cluster).
            \<lparr>group_id = ''pg_'' @ showNat k, group_type = ''solid_cluster'',
             members = map item_id cluster,
             representative = Some (item_paint (hd cluster))\<rparr>)
          (zip [0..<length (clusterByPerceptualDistance item_rgb (solidItems paintsMap) threshold)]
               (clusterByPerceptualDistance item_rgb (solidItems paintsMap) threshold))
        @ map (\<lambda>(k, p). \<lparr>group_id = ''pg_ns_'' @ showNat k, group_type = ptype p,
                     members = [pid p], representative = Some p\<rparr>)
            (zip [0..<length (nonSolids paintsMap)] (nonSolids paintsMap)))"
proof -
  have "\<forall>c \<in> set (clusterByPerceptualDistance item_rgb (solidItems paintsMap) threshold). c \<noteq> []"
    using cluster_nonempty by blast
  from solidGroups_ok [OF this, of 0] show ?thesis
    by (simp add: groupPaints_def solidItems_def nonSolids_def nonSolidGroups_eq Let_def)
qed

lemma map_zip_upt_snd:
  "map (\<lambda>(k, x). f x) (zip [i..<i + length xs] xs) = map f xs"
  by (simp add: map_snd_zip [symmetric] split_def flip: map_map [of f snd, unfolded comp_def])

lemma groupPaints_members:
  assumes "groupPaints paintsMap threshold = Inr gs"
  shows "map members gs =
           map (map item_id) (clusterByPerceptualDistance item_rgb (solidItems paintsMap) threshold)
           @ map (\<lambda>p. [pid p]) (nonSolids paintsMap)"
proof -
  have "map members (map (\<lambda>(k, cluster).
            \<lparr>group_id = ''pg_'' @ showNat k, group_type = ''solid_cluster'',
             members = map item_id cluster,
             representative = Some (item_paint (hd cluster))\<rparr>) (zip [0..<0 + length cs] cs))
        = map (map item_id) cs" for cs :: "solidItem list list"
    using map_zip_upt_snd [of "map item_id" 0 cs] by (simp add: split_def comp_def)
  moreover have "map members (map (\<lambda>(k, p). \<lparr>group_id = ''pg_ns_'' @ showNat k, group_type = ptype p,
                     members = [pid p], representative = Some p\<rparr>) (zip [0..<0 + length ps] ps))
        = map (\<lambda>p. [pid p]) ps" for ps :: "paint list"
    using map_zip_upt_snd [of "\<lambda>p. [pid p]" 0 ps] by (simp add: split_def comp_def)
  ultimately show ?thesis
    using assms unfolding groupPaints_eq by auto
qed

lemma groupPaints_member_mset:
  assumes "groupPaints paintsMap threshold = Inr gs"
  shows "mset (concat (map members gs)) = mset (map (pid \<circ> snd) paintsMap)"
proof -
  let ?cl = "clusterByPerceptualDistance item_rgb (solidItems paintsMap) threshold"
  have "concat (map (map item_id) ?cl) = map item_id (concat ?cl)"
    by (simp add: map_concat)
  then have "mset (concat (map (map item_id) ?cl)) = image_mset item_id (mset (concat ?cl))"
    by simp
  also have "\<dots> = image_mset item_id (mset (solidItems paintsMap))"
    by (simp only: cluster_partition)
  also have "\<dots> = mset (map item_id (solidItems paintsMap))"
    by simp
  also have "map item_id (solidItems paintsMap) = map pid (filter isClusteredSolid (map snd paintsMap))"
    by (simp add: solidItems_def comp_def)
  finally have a: "mset (concat (map (map item_id) ?cl))
                     = mset (map pid (filter isClusteredSolid (map snd paintsMap)))" .
  have b: "concat (map (\<lambda>p. [pid p]) (nonSolids paintsMap))
             = map pid (filter (\<lambda>p. \<not> isClusteredSolid p) (map snd paintsMap))"
    unfolding nonSolids_def by (induction "filter (\<lambda>p. \<not> isClusteredSolid p) (map snd paintsMap)") simp_all
  have "mset (map pid (filter isClusteredSolid xs)) + mset (map pid (filter (\<lambda>p. \<not> isClusteredSolid p) xs))
          = mset (map pid xs)" for xs
    by (induction xs) simp_all
  with a b show ?thesis
    unfolding groupPaints_members [OF assms] by (simp del: mset_map mset_filter add: mset_map [symmetric] comp_def)
qed

lemma distinct_concat_unique_index:
  "distinct (concat xss) \<Longrightarrow> i < length xss \<Longrightarrow> j < length xss \<Longrightarrow>
   x \<in> set (xss ! i) \<Longrightarrow> x \<in> set (xss ! j) \<Longrightarrow> i = j"
proof (induction xss arbitrary: i j)
  case Nil
  then show ?case by simp
next
  case (Cons ys xss)
  have disj: "set ys \<inter> set (concat xss) = {}" and d: "distinct (concat xss)"
    using Cons.prems(1) by auto
  have later: "k < length xss \<Longrightarrow> x \<in> set (xss ! k) \<Longrightarrow> x \<in> set (concat xss)" for k
    by (auto intro: nth_mem)
  show ?case
  proof (cases i)
    case 0
    show ?thesis
    proof (cases j)
      case j0: 0
      with 0 show ?thesis by simp
    next
      case (Suc j')
      with 0 Cons.prems disj later [of j'] show ?thesis by auto
    qed
  next
    case (Suc i')
    show ?thesis
    proof (cases j)
      case 0
      with Suc Cons.prems disj later [of i'] show ?thesis by auto
    next
      case j: (Suc j')
      with Suc Cons.prems d Cons.IH [of i' j'] show ?thesis by simp
    qed
  qed
qed

lemma groupPaints_total: "\<exists>gs. groupPaints paintsMap threshold = Inr gs"
  unfolding groupPaints_eq by blast


lemma rtrancl_inj_image:
  assumes inj: "inj_on g S"
    and R: "R \<subseteq> S \<times> S" and R': "R' \<subseteq> g ` S \<times> g ` S"
    and rel: "\<And>u v. u \<in> S \<Longrightarrow> v \<in> S \<Longrightarrow> ((g u, g v) \<in> R' \<longleftrightarrow> (u, v) \<in> R)"
    and x: "x \<in> S" and y: "y \<in> S"
  shows "(g x, g y) \<in> R'\<^sup>* \<longleftrightarrow> (x, y) \<in> R\<^sup>*"
proof
  assume r: "(g x, g y) \<in> R'\<^sup>*"
  have "b \<in> g ` S \<and> (\<forall>z \<in> S. b = g z \<longrightarrow> (x, z) \<in> R\<^sup>*)" if "(g x, b) \<in> R'\<^sup>*" for b
    using that
  proof (induction rule: rtrancl_induct)
    case base
    have "z = x" if "z \<in> S" "g x = g z" for z
      using inj x that by (auto dest: inj_onD)
    then have "\<forall>z \<in> S. g x = g z \<longrightarrow> (x, z) \<in> R\<^sup>*" by auto
    moreover have "g x \<in> g ` S" using x by (rule imageI)
    ultimately show ?case by simp
  next
    case (step v w)
    from step.hyps(2) R' have "v \<in> g ` S" "w \<in> g ` S" by auto
    then obtain v0 where v: "v = g v0" "v0 \<in> S" by auto
    from step.IH v have xv: "(x, v0) \<in> R\<^sup>*" by blast
    have "(x, z) \<in> R\<^sup>*" if "z \<in> S" "w = g z" for z
    proof -
      from step.hyps(2) v that have "(g v0, g z) \<in> R'" by simp
      with rel [OF v(2) that(1)] have "(v0, z) \<in> R" by simp
      with xv show ?thesis by (rule rtrancl_into_rtrancl)
    qed
    with \<open>w \<in> g ` S\<close> show ?case by blast
  qed
  from this [OF r] y show "(x, y) \<in> R\<^sup>*" by blast
next
  assume "(x, y) \<in> R\<^sup>*"
  then have "y \<in> S \<and> (g x, g y) \<in> R'\<^sup>*"
  proof (induction rule: rtrancl_induct)
    case base
    with x show ?case by simp
  next
    case (step v w)
    from step.hyps(2) R have "v \<in> S" "w \<in> S" by auto
    with rel [of v w] step.hyps(2) have "(g v, g w) \<in> R'" by simp
    with step.IH \<open>w \<in> S\<close> show ?case by (auto intro: rtrancl_into_rtrancl)
  qed
  then show "(g x, g y) \<in> R'\<^sup>*" ..
qed


text \<open>
  Two clustered paints of the table are near when their \<Delta>E is at most the threshold;
  perceptual clustering at that threshold is to put two paints into one group exactly when a
  chain of near paints joins them.
\<close>

definition nearPaints :: "paintTable \<Rightarrow> real \<Rightarrow> (paint \<times> paint) set" where
  "nearPaints paintsMap threshold =
     {(p, q). p \<in> snd ` set paintsMap \<and> q \<in> snd ` set paintsMap \<and>
              isClusteredSolid p \<and> isClusteredSolid q \<and>
              deltaE (rgbToLab (paint_rgba p)) (rgbToLab (paint_rgba q)) \<le> threshold}"

definition labelPaint :: "paint \<Rightarrow> solidItem labelled" where
  "labelPaint p =
     \<lparr>l_item = \<lparr>item_id = pid p, item_rgb = paint_rgba p, item_paint = p\<rparr>,
      l_lab = rgbToLab (paint_rgba p)\<rparr>"

lemma labelPaint_inj: "inj_on labelPaint S"
  by (rule inj_onI) (simp add: labelPaint_def)

lemma cluster_solidItems:
  "clusterByPerceptualDistance item_rgb (solidItems paintsMap) threshold =
     map (map l_item)
       (clusterLoop threshold
          (map (\<lambda>l. [l]) (map labelPaint (filter isClusteredSolid (map snd paintsMap)))))"
  unfolding cluster_items solidItems_def labelPaint_def
  by (simp del: filter_map add: comp_def)

lemma near_labelled_paints:
  assumes x: "x \<in> S" and y: "y \<in> S"
    and S: "S = {p \<in> snd ` set paintsMap. isClusteredSolid p}"
  shows "(labelPaint x, labelPaint y) \<in> (nearLabs t (labelPaint ` S))\<^sup>*
           \<longleftrightarrow> (x, y) \<in> (nearPaints paintsMap t)\<^sup>*"
proof (rule rtrancl_inj_image [OF labelPaint_inj _ _ _ x y])
  show "nearPaints paintsMap t \<subseteq> S \<times> S"
    unfolding S nearPaints_def by auto
  show "nearLabs t (labelPaint ` S) \<subseteq> labelPaint ` S \<times> labelPaint ` S"
    unfolding nearLabs_def by auto
  fix u v assume uv: "u \<in> S" "v \<in> S"
  have "labelPaint u \<in> labelPaint ` S" "labelPaint v \<in> labelPaint ` S"
    using uv by simp_all
  then have "(labelPaint u, labelPaint v) \<in> nearLabs t (labelPaint ` S)
               \<longleftrightarrow> deltaE (rgbToLab (paint_rgba u)) (rgbToLab (paint_rgba v)) \<le> t"
    by (simp add: nearLabs_def labelPaint_def)
  also have "\<dots> \<longleftrightarrow> (u, v) \<in> nearPaints paintsMap t"
    using uv unfolding S nearPaints_def by simp
  finally show "(labelPaint u, labelPaint v) \<in> nearLabs t (labelPaint ` S)
                  \<longleftrightarrow> (u, v) \<in> nearPaints paintsMap t" .
qed

lemma groupPaints_same_group:
  assumes gs: "groupPaints paintsMap t = Inr gs"
    and d: "distinct (map (pid \<circ> snd) paintsMap)"
    and p: "p \<in> snd ` set paintsMap" "isClusteredSolid p"
    and q: "q \<in> snd ` set paintsMap" "isClusteredSolid q"
  shows "(\<exists>g \<in> set gs. pid p \<in> set (members g) \<and> pid q \<in> set (members g))
           \<longleftrightarrow> (p, q) \<in> (nearPaints paintsMap t)\<^sup>*"
proof -
  define S where "S = {p \<in> snd ` set paintsMap. isClusteredSolid p}"
  define labs where "labs = map labelPaint (filter isClusteredSolid (map snd paintsMap))"
  define out where "out = clusterLoop t (map (\<lambda>l. [l]) labs)"
  have labs: "set labs = labelPaint ` S"
    unfolding labs_def S_def by auto
  have pS: "p \<in> S" and qS: "q \<in> S" using p q by (simp_all add: S_def)
  have inj: "inj_on pid (snd ` set paintsMap)"
    using d by (simp add: distinct_map flip: map_map)
  have out: "set (concat out) = labelPaint ` S"
    using clusterLoop_mset [of t "map (\<lambda>l. [l]) labs"]
      mset_eq_setD [of "concat out" "concat (map (\<lambda>l. [l]) labs)"]
    unfolding out_def labs [symmetric] by (simp only: concat_singletons)
  have mem: "map members gs =
               map (map (item_id \<circ> l_item)) out @ map (\<lambda>p. [pid p]) (nonSolids paintsMap)"
    unfolding groupPaints_members [OF gs] cluster_solidItems out_def labs_def by simp
  have inc: "labelPaint r \<in> set c"
    if "c \<in> set out" "pid r \<in> set (map (item_id \<circ> l_item) c)" "r \<in> S" for c r
  proof -
    from that(2) obtain u where u: "u \<in> set c" "pid r = item_id (l_item u)" by auto
    with that(1) out have "u \<in> labelPaint ` S" by auto
    then obtain r' where r': "r' \<in> S" "u = labelPaint r'" by auto
    with u have "pid r = pid r'" by (simp add: labelPaint_def)
    with inj that(3) r'(1) have "r = r'" unfolding S_def by (auto dest: inj_onD)
    with u r' show ?thesis by simp
  qed
  have a: "(\<exists>g \<in> set gs. pid p \<in> set (members g) \<and> pid q \<in> set (members g))
             \<longleftrightarrow> (\<exists>c \<in> set out. labelPaint p \<in> set c \<and> labelPaint q \<in> set c)"
  proof
    assume "\<exists>g \<in> set gs. pid p \<in> set (members g) \<and> pid q \<in> set (members g)"
    then obtain g where g: "g \<in> set gs" "pid p \<in> set (members g)" "pid q \<in> set (members g)"
      by blast
    from g(1) have "members g \<in> set (map members gs)" by simp
    then have "members g \<in> set (map (map (item_id \<circ> l_item)) out)
                 \<or> members g \<in> set (map (\<lambda>p. [pid p]) (nonSolids paintsMap))"
      unfolding mem by simp
    then show "\<exists>c \<in> set out. labelPaint p \<in> set c \<and> labelPaint q \<in> set c"
    proof
      assume "members g \<in> set (map (map (item_id \<circ> l_item)) out)"
      then obtain c where c: "c \<in> set out" "members g = map (item_id \<circ> l_item) c" by auto
      from inc [OF c(1) _ pS] inc [OF c(1) _ qS] g c(2)
      have "labelPaint p \<in> set c" "labelPaint q \<in> set c" by simp_all
      with c(1) show ?thesis by blast
    next
      assume "members g \<in> set (map (\<lambda>p. [pid p]) (nonSolids paintsMap))"
      then obtain r where r: "r \<in> set (nonSolids paintsMap)" "members g = [pid r]" by auto
      then have r': "r \<in> snd ` set paintsMap" "\<not> isClusteredSolid r"
        by (auto simp: nonSolids_def)
      from g(2) r(2) have "pid p = pid r" by simp
      with inj p(1) r'(1) have "p = r" by (auto dest: inj_onD)
      with p(2) r'(2) show ?thesis by simp
    qed
  next
    assume "\<exists>c \<in> set out. labelPaint p \<in> set c \<and> labelPaint q \<in> set c"
    then obtain c where c: "c \<in> set out" "labelPaint p \<in> set c" "labelPaint q \<in> set c"
      by blast
    from c(1) have "map (item_id \<circ> l_item) c \<in> set (map members gs)"
      unfolding mem by simp
    then obtain g where g: "g \<in> set gs" "members g = map (item_id \<circ> l_item) c" by auto
    have "pid p = (item_id \<circ> l_item) (labelPaint p)" "pid q = (item_id \<circ> l_item) (labelPaint q)"
      by (simp_all add: labelPaint_def)
    with c(2,3) have "pid p \<in> set (map (item_id \<circ> l_item) c)" "pid q \<in> set (map (item_id \<circ> l_item) c)"
      by (simp_all only: set_map image_eqI)
    then have "pid p \<in> set (members g)" "pid q \<in> set (members g)"
      unfolding g(2) .
    with g(1) show "\<exists>g \<in> set gs. pid p \<in> set (members g) \<and> pid q \<in> set (members g)"
      by blast
  qed
  have "labelPaint p \<in> set labs" "labelPaint q \<in> set labs"
    using pS qS labs by simp_all
  from clusterLoop_same_cluster [OF this, of t]
  have b: "(\<exists>c \<in> set out. labelPaint p \<in> set c \<and> labelPaint q \<in> set c)
             \<longleftrightarrow> (labelPaint p, labelPaint q) \<in> (nearLabs t (labelPaint ` S))\<^sup>*"
    unfolding out_def labs .
  show ?thesis
    unfolding a b using near_labelled_paints [OF pS qS S_def] .
qed

subsection \<open>Black, near-black and white\<close>

definition opaqueWhite :: rgba where
  "opaqueWhite = \<lparr>red = 255, green = 255, blue = 255, alpha = 1\<rparr>"

lemma rgbToLab_black: "rgbToLab opaqueBlack = \<lparr>lab_L = 0, lab_a = 0, lab_b = 0\<rparr>"
  by (simp add: rgbToLab_def opaqueBlack_def linearize_def lab_f_def)

lemma white_y_bounds: "1 \<le> root 3 (1.0000001::real) \<and> root 3 (1.0000001::real) < 1.001"
proof
  show "1 \<le> root 3 (1.0000001::real)"
    by (simp add: real_root_ge_1_iff)
  have "root 3 (1.0000001::real) < root 3 (1.001 ^ 3)"
    by (subst real_root_less_iff) (simp_all add: power3_eq_cube)
  also have "root 3 ((1.001::real) ^ 3) = 1.001"
    by (rule real_root_power_cancel) simp_all
  finally show "root 3 (1.0000001::real) < 1.001" .
qed

lemma rgbToLab_white:
  "rgbToLab opaqueWhite =
     \<lparr>lab_L = 116 * root 3 1.0000001 - 16, lab_a = 500 * (1 - root 3 1.0000001),
      lab_b = 200 * (root 3 1.0000001 - 1)\<rparr>"
  by (simp add: rgbToLab_def opaqueWhite_def linearize_def lab_f_def Let_def)

lemma black_white_far: "deltaE (rgbToLab opaqueBlack) (rgbToLab opaqueWhite) > 12"
proof -
  define y :: real where "y = root 3 1.0000001"
  have y: "1 \<le> y" using white_y_bounds by (simp add: y_def)
  then have "100 \<le> 116 * y - 16" by simp
  then have "100 * 100 \<le> (116 * y - 16) * (116 * y - 16)"
    by (intro mult_mono) auto
  moreover have "(0 - (116 * y - 16))\<^sup>2 = (116 * y - 16) * (116 * y - 16)"
    by (simp add: power2_eq_square algebra_simps)
  moreover have "0 \<le> (0 - 500 * (1 - y))\<^sup>2" "0 \<le> (0 - 200 * (y - 1))\<^sup>2"
    by (rule zero_le_power2)+
  moreover have "(12::real)\<^sup>2 = 144" by simp
  ultimately have "12\<^sup>2 < (0 - (116 * y - 16))\<^sup>2 + (0 - 500 * (1 - y))\<^sup>2 + (0 - 200 * (y - 1))\<^sup>2"
    by linarith
  then have "12 < sqrt ((0 - (116 * y - 16))\<^sup>2 + (0 - 500 * (1 - y))\<^sup>2 + (0 - 200 * (y - 1))\<^sup>2)"
    by (rule real_less_rsqrt)
  then show ?thesis
    by (simp add: deltaE_def rgbToLab_black rgbToLab_white y_def)
qed

definition whiteSolid :: paint where
  "whiteSolid =
     \<lparr>ptype = ''solid'', raw = ''#ffffff'', paint_rgba = opaqueWhite,
      paint_lab = Some (rgbToLab opaqueWhite), hex = Some ''#ffffff'', stops = [], pid = None\<rparr>"

lemma paintKey_whiteSolid: "paintKey whiteSolid = ''solid:#ffffff''"
  by (simp add: paintKey_def whiteSolid_def)

lemma showNat_2: "showNat (Suc (Suc 0)) = ''2''"
  by (simp add: showNat.simps decDigit_def)

definition nonePaint :: paint where
  "nonePaint = \<lparr>ptype = ''none'', raw = ''none'',
                 paint_rgba = \<lparr>red = 0, green = 0, blue = 0, alpha = 0\<rparr>,
                 paint_lab = None, hex = None, stops = [], pid = None\<rparr>"

lemma singleton_cluster: "clusterByPerceptualDistance rgbOf [x] threshold = [[x]]"
  by (simp add: clusterByPerceptualDistance_def clusterLoop_unfold_stop)

lemma paintKey_blackSolid: "paintKey blackSolid = ''solid:#000000''"
  by (simp add: paintKey_def blackSolid_def)

lemma paintKey_nonePaint: "paintKey nonePaint = ''none''"
  by (simp add: paintKey_def nonePaint_def)

lemma showNat_0: "showNat 0 = ''0''"
  by (simp add: showNat.simps decDigit_def)

lemma showNat_1: "showNat (Suc 0) = ''1''"
  by (simp add: showNat.simps decDigit_def)

definition nearBlack :: rgba where
  "nearBlack = \<lparr>red = 1, green = 1, blue = 1, alpha = 1\<rparr>"

definition nearBlackSolid :: paint where
  "nearBlackSolid =
     \<lparr>ptype = ''solid'', raw = ''#010101'', paint_rgba = nearBlack,
      paint_lab = Some (rgbToLab nearBlack), hex = Some ''#010101'', stops = [], pid = None\<rparr>"

lemma nearBlack_lab:
  "0 \<le> lab_L (rgbToLab nearBlack) \<and> lab_L (rgbToLab nearBlack) \<le> 1 \<and>
   \<bar>lab_a (rgbToLab nearBlack)\<bar> \<le> 1 \<and> \<bar>lab_b (rgbToLab nearBlack)\<bar> \<le> 1"
  by (simp add: rgbToLab_def nearBlack_def linearize_def lab_f_def Let_def)

lemma black_nearBlack_close: "deltaE (rgbToLab opaqueBlack) (rgbToLab nearBlack) \<le> 12"
proof -
  define l where "l = rgbToLab nearBlack"
  have b: "0 \<le> lab_L l" "lab_L l \<le> 1" "\<bar>lab_a l\<bar> \<le> 1" "\<bar>lab_b l\<bar> \<le> 1"
    using nearBlack_lab by (simp_all add: l_def)
  have "(lab_L l)\<^sup>2 \<le> 1" "(lab_a l)\<^sup>2 \<le> 1" "(lab_b l)\<^sup>2 \<le> 1"
    using b by (simp_all add: abs_square_le_1)
  then have "(0 - lab_L l)\<^sup>2 + (0 - lab_a l)\<^sup>2 + (0 - lab_b l)\<^sup>2 \<le> 12\<^sup>2"
    by simp
  then have "sqrt ((0 - lab_L l)\<^sup>2 + (0 - lab_a l)\<^sup>2 + (0 - lab_b l)\<^sup>2) \<le> 12"
    by (intro real_le_lsqrt) simp_all
  then show ?thesis
    by (simp add: deltaE_def rgbToLab_black l_def)
qed

lemma nearBlack_white_far: "deltaE (rgbToLab nearBlack) (rgbToLab opaqueWhite) > 12"
proof -
  define l where "l = rgbToLab nearBlack"
  define y :: real where "y = root 3 1.0000001"
  have b: "lab_L l \<le> 1" using nearBlack_lab by (simp add: l_def)
  have y: "1 \<le> y" using white_y_bounds by (simp add: y_def)
  then have "99 \<le> (116 * y - 16) - lab_L l" using b by simp
  then have "99 * 99 \<le> ((116 * y - 16) - lab_L l) * ((116 * y - 16) - lab_L l)"
    by (intro mult_mono) auto
  moreover have "(lab_L l - (116 * y - 16))\<^sup>2 = ((116 * y - 16) - lab_L l) * ((116 * y - 16) - lab_L l)"
    by (simp add: power2_eq_square algebra_simps)
  moreover have "0 \<le> (lab_a l - 500 * (1 - y))\<^sup>2" "0 \<le> (lab_b l - 200 * (y - 1))\<^sup>2"
    by (rule zero_le_power2)+
  moreover have "(12::real)\<^sup>2 = 144" by simp
  ultimately have "12\<^sup>2 < (lab_L l - (116 * y - 16))\<^sup>2 + (lab_a l - 500 * (1 - y))\<^sup>2
                        + (lab_b l - 200 * (y - 1))\<^sup>2"
    by linarith
  then have "12 < sqrt ((lab_L l - (116 * y - 16))\<^sup>2 + (lab_a l - 500 * (1 - y))\<^sup>2
                        + (lab_b l - 200 * (y - 1))\<^sup>2)"
    by (rule real_less_rsqrt)
  then show ?thesis
    by (simp add: deltaE_def rgbToLab_white y_def l_def)
qed

lemma near_far_clusters:
  assumes xy: "deltaE (rgbToLab (rgbOf x)) (rgbToLab (rgbOf y)) \<le> threshold"
    and xz: "deltaE (rgbToLab (rgbOf x)) (rgbToLab (rgbOf z)) > threshold"
    and yz: "deltaE (rgbToLab (rgbOf y)) (rgbToLab (rgbOf z)) > threshold"
  shows "clusterByPerceptualDistance rgbOf [x, y, z] threshold = [[x, y], [z]]"
proof -
  define lx where "lx = \<lparr>l_item = x, l_lab = rgbToLab (rgbOf x)\<rparr>"
  define ly where "ly = \<lparr>l_item = y, l_lab = rgbToLab (rgbOf y)\<rparr>"
  define lz where "lz = \<lparr>l_item = z, l_lab = rgbToLab (rgbOf z)\<rparr>"
  define dxy where "dxy = deltaE (l_lab lx) (l_lab ly)"
  define dxz where "dxz = deltaE (l_lab lx) (l_lab lz)"
  define dyz where "dyz = deltaE (l_lab ly) (l_lab lz)"
  have d: "dxy \<le> threshold" "dxz > threshold" "dyz > threshold"
    using assms by (simp_all add: dxy_def dxz_def dyz_def lx_def ly_def lz_def)
  have u: "[0..<3] = [0, Suc 0, Suc (Suc 0)]" "[Suc 0..<3] = [Suc 0, Suc (Suc 0)]"
    "[Suc (Suc 0)..<3] = [Suc (Suc 0)]" "[0..<2] = [0, Suc 0]" "[Suc 0..<2] = [Suc 0]"
    by (simp_all add: upt_rec)
  have "pairCandidates [[lx], [ly], [lz]] = [(dxy, 0, Suc 0), (dxz, 0, Suc (Suc 0)), (dyz, Suc 0, Suc (Suc 0))]"
    by (simp add: pairCandidates_def u dxy_def dxz_def dyz_def)
  moreover have "\<not> dxz < dxy" "\<not> dyz < dxy" using d by simp_all
  ultimately have c1: "closestClusters [[lx], [ly], [lz]] = Some (dxy, 0, Suc 0)"
    by (simp add: closestClusters_def betterPair_def)
  have m: "mergeClusters 0 (Suc 0) [[lx], [ly], [lz]] = [[lx, ly], [lz]]"
    by (simp add: mergeClusters_def removeAt_def)
  have r1: "clusterLoop threshold [[lx], [ly], [lz]] = clusterLoop threshold [[lx, ly], [lz]]"
    using clusterLoop_unfold_merge [OF _ c1, of threshold] d(1) by (simp add: m)
  have "pairCandidates [[lx, ly], [lz]] = [(dxz, 0, Suc 0), (dyz, 0, Suc 0)]"
    by (simp add: pairCandidates_def u dxz_def dyz_def)
  then have "closestClusters [[lx, ly], [lz]] = Some (if dyz < dxz then dyz else dxz, 0, Suc 0)"
    by (simp add: closestClusters_def betterPair_def)
  moreover have "(if dyz < dxz then dyz else dxz) > threshold" using d by simp
  ultimately have r2: "clusterLoop threshold [[lx, ly], [lz]] = [[lx, ly], [lz]]"
    by (rule clusterLoop_unfold_far)
  show ?thesis
    unfolding cluster_items by (simp add: r1 [unfolded lx_def ly_def lz_def] r2 [unfolded lx_def ly_def lz_def])
qed


definition fourPaints :: "paint list" where
  "fourPaints = [blackSolid, nearBlackSolid, whiteSolid, nonePaint, blackSolid]"

definition mergedGroups :: "paintGroup list" where
  "mergedGroups =
     [\<lparr>group_id = ''pg_0'', group_type = ''solid_cluster'',
       members = [Some ''paint_0'', Some ''paint_1''],
       representative = Some (blackSolid\<lparr>pid := Some ''paint_0''\<rparr>)\<rparr>,
      \<lparr>group_id = ''pg_1'', group_type = ''solid_cluster'', members = [Some ''paint_2''],
       representative = Some (whiteSolid\<lparr>pid := Some ''paint_2''\<rparr>)\<rparr>,
      \<lparr>group_id = ''pg_ns_0'', group_type = ''none'', members = [Some ''paint_3''],
       representative = Some (nonePaint\<lparr>pid := Some ''paint_3''\<rparr>)\<rparr>]"

lemma paintKey_nearBlackSolid: "paintKey nearBlackSolid = ''solid:#010101''"
  by (simp add: paintKey_def nearBlackSolid_def)

lemma showNat_3: "showNat (Suc (Suc (Suc 0))) = ''3''"
  by (simp add: showNat.simps decDigit_def)

lemma fourPaints_table:
  "deduplicatePaints fourPaints =
     [(''solid:#000000'', blackSolid\<lparr>pid := Some ''paint_0''\<rparr>),
      (''solid:#010101'', nearBlackSolid\<lparr>pid := Some ''paint_1''\<rparr>),
      (''solid:#ffffff'', whiteSolid\<lparr>pid := Some ''paint_2''\<rparr>),
      (''none'', nonePaint\<lparr>pid := Some ''paint_3''\<rparr>)]"
  by (simp add: fourPaints_def deduplicatePaints_def dedupStep_def Let_def paintKey_blackSolid
      paintKey_nearBlackSolid paintKey_nonePaint paintKey_whiteSolid
      showNat_0 showNat_1 showNat_2 showNat_3)

lemma fourPaints_groups: "groupPaints (deduplicatePaints fourPaints) 12 = Inr mergedGroups"
proof -
  have a: "isClusteredSolid (blackSolid\<lparr>pid := Some ''paint_0''\<rparr>)"
      "isClusteredSolid (nearBlackSolid\<lparr>pid := Some ''paint_1''\<rparr>)"
      "isClusteredSolid (whiteSolid\<lparr>pid := Some ''paint_2''\<rparr>)"
      "\<not> isClusteredSolid (nonePaint\<lparr>pid := Some ''paint_3''\<rparr>)"
    by (simp_all add: isClusteredSolid_def blackSolid_def nearBlackSolid_def whiteSolid_def
        nonePaint_def opaqueWhite_def nearBlack_def)
  have rgb: "paint_rgba (blackSolid\<lparr>pid := Some ''paint_0''\<rparr>) = opaqueBlack"
      "paint_rgba (nearBlackSolid\<lparr>pid := Some ''paint_1''\<rparr>) = nearBlack"
      "paint_rgba (whiteSolid\<lparr>pid := Some ''paint_2''\<rparr>) = opaqueWhite"
    by (simp_all add: blackSolid_def nearBlackSolid_def whiteSolid_def opaqueBlack_def)
  have cl: "clusterByPerceptualDistance item_rgb
      [\<lparr>item_id = Some ''paint_0'', item_rgb = opaqueBlack,
        item_paint = blackSolid\<lparr>pid := Some ''paint_0''\<rparr>\<rparr>,
       \<lparr>item_id = Some ''paint_1'', item_rgb = nearBlack,
        item_paint = nearBlackSolid\<lparr>pid := Some ''paint_1''\<rparr>\<rparr>,
       \<lparr>item_id = Some ''paint_2'', item_rgb = opaqueWhite,
        item_paint = whiteSolid\<lparr>pid := Some ''paint_2''\<rparr>\<rparr>] 12
     = [[\<lparr>item_id = Some ''paint_0'', item_rgb = opaqueBlack,
         item_paint = blackSolid\<lparr>pid := Some ''paint_0''\<rparr>\<rparr>,
         \<lparr>item_id = Some ''paint_1'', item_rgb = nearBlack,
         item_paint = nearBlackSolid\<lparr>pid := Some ''paint_1''\<rparr>\<rparr>],
        [\<lparr>item_id = Some ''paint_2'', item_rgb = opaqueWhite,
         item_paint = whiteSolid\<lparr>pid := Some ''paint_2''\<rparr>\<rparr>]]"
    by (rule near_far_clusters)
       (simp_all add: black_nearBlack_close black_white_far nearBlack_white_far)
  have t: "ptype (nonePaint\<lparr>pid := Some ''paint_3''\<rparr>) = ''none''"
    by (simp add: nonePaint_def)
  show ?thesis
    unfolding fourPaints_table
    by (simp add: groupPaints_def Let_def a rgb cl t showNat_0 showNat_1 mergedGroups_def)
qed

lemma groupPaints_singletons:
  assumes gs: "groupPaints paintsMap t = Inr gs"
    and p: "p \<in> snd ` set paintsMap" "\<not> isClusteredSolid p"
  shows "\<exists>g \<in> set gs. members g = [pid p]"
proof -
  from p have "p \<in> set (nonSolids paintsMap)" by (auto simp: nonSolids_def)
  then have "[pid p] \<in> set (map members gs)"
    unfolding groupPaints_members [OF gs] by auto
  then show ?thesis by auto
qed

text \<open>
  Claim C6.  After paint grouping every paint of the deduplicated table belongs to exactly
  one group: \<open>groupPaints\<close> at the default threshold 12 succeeds; the member lists of its
  groups are the clusters that \<open>clusterByPerceptualDistance\<close> forms of the solid paints
  with non-zero alpha, followed by one singleton list for every other paint; every paint
  of the table has its id in the member list of exactly one group; the groups hold no
  id but those of the table's paints; two solid paints with non-zero alpha share a group
  exactly when a chain of such paints of the table, each within \<Delta>E 12 of the next, leads
  from one to the other; and every other paint has a group whose only member it is.
\<close>

theorem paint_groups_partition:
  "\<exists>gs. groupPaints (deduplicatePaints ps) 12 = Inr gs \<and>
     map members gs =
       map (map item_id)
         (clusterByPerceptualDistance item_rgb (solidItems (deduplicatePaints ps)) 12)
       @ map (\<lambda>p. [pid p]) (nonSolids (deduplicatePaints ps)) \<and>
     (\<forall>p \<in> snd ` set (deduplicatePaints ps).
        \<exists>!i. i < length gs \<and> pid p \<in> set (members (gs ! i))) \<and>
     set (concat (map members gs)) = (pid \<circ> snd) ` set (deduplicatePaints ps) \<and>
     (\<forall>p \<in> snd ` set (deduplicatePaints ps). \<forall>q \<in> snd ` set (deduplicatePaints ps).
        isClusteredSolid p \<and> isClusteredSolid q \<longrightarrow>
          ((\<exists>g \<in> set gs. pid p \<in> set (members g) \<and> pid q \<in> set (members g))
             \<longleftrightarrow> (p, q) \<in> (nearPaints (deduplicatePaints ps) 12)\<^sup>*)) \<and>
     (\<forall>p \<in> snd ` set (deduplicatePaints ps).
        \<not> isClusteredSolid p \<longrightarrow> (\<exists>g \<in> set gs. members g = [pid p]))"
proof -
  let ?table = "deduplicatePaints ps"
  obtain gs where gs: "groupPaints ?table 12 = Inr gs"
    using groupPaints_total by blast
  have m: "mset (concat (map members gs)) = mset (map (pid \<circ> snd) ?table)"
    using gs by (rule groupPaints_member_mset)
  have dt: "distinct (map (pid \<circ> snd) ?table)"
    by (rule deduplicatePaints_pids_distinct)
  then have d: "distinct (concat (map members gs))"
    by (simp only: mset_eq_imp_distinct_iff [OF m])
  have "set (concat (map members gs)) = set (map (pid \<circ> snd) ?table)"
    by (rule mset_eq_setD [OF m])
  then have s: "set (concat (map members gs)) = (pid \<circ> snd) ` set ?table"
    by (simp only: set_map)
  have u: "\<exists>!i. i < length gs \<and> pid p \<in> set (members (gs ! i))"
    if "p \<in> snd ` set ?table" for p
  proof -
    from that s have "pid p \<in> set (concat (map members gs))" by auto
    then obtain g where "g \<in> set gs" "pid p \<in> set (members g)" by auto
    then obtain i where i: "i < length gs" "pid p \<in> set (members (gs ! i))"
      by (auto simp: in_set_conv_nth)
    have "j = i" if "j < length gs" "pid p \<in> set (members (gs ! j))" for j
      using distinct_concat_unique_index [OF d, of j i "pid p"] that i by simp
    with i show ?thesis by blast
  qed
  have c: "(\<exists>g \<in> set gs. pid p \<in> set (members g) \<and> pid q \<in> set (members g))
             \<longleftrightarrow> (p, q) \<in> (nearPaints ?table 12)\<^sup>*"
    if "p \<in> snd ` set ?table" "q \<in> snd ` set ?table" "isClusteredSolid p \<and> isClusteredSolid q"
    for p q
    using that by (intro groupPaints_same_group [OF gs dt]) simp_all
  have n: "\<exists>g \<in> set gs. members g = [pid p]"
    if "p \<in> snd ` set ?table" "\<not> isClusteredSolid p" for p
    using gs that by (rule groupPaints_singletons)
  show ?thesis
  proof (intro exI [of _ gs] conjI ballI impI)
    show "groupPaints ?table 12 = Inr gs" by (rule gs)
    show "map members gs =
       map (map item_id) (clusterByPerceptualDistance item_rgb (solidItems ?table) 12)
       @ map (\<lambda>p. [pid p]) (nonSolids ?table)"
      by (rule groupPaints_members [OF gs])
    show "set (concat (map members gs)) = (pid \<circ> snd) ` set ?table" by (rule s)
  next
    fix p assume "p \<in> snd ` set ?table"
    then show "\<exists>!i. i < length gs \<and> pid p \<in> set (members (gs ! i))" by (rule u)
  next
    fix p q
    assume "p \<in> snd ` set ?table" "q \<in> snd ` set ?table" "isClusteredSolid p \<and> isClusteredSolid q"
    then show "(\<exists>g \<in> set gs. pid p \<in> set (members g) \<and> pid q \<in> set (members g))
             \<longleftrightarrow> (p, q) \<in> (nearPaints ?table 12)\<^sup>*" by (rule c)
  next
    fix p assume "p \<in> snd ` set ?table" "\<not> isClusteredSolid p"
    then show "\<exists>g \<in> set gs. members g = [pid p]" by (rule n)
  qed
qed

theorem paint_groups_partition_witness:
  "groupPaints (deduplicatePaints fourPaints) 12 = Inr mergedGroups \<and>
   (\<exists>!i. i < length mergedGroups \<and> Some ''paint_0'' \<in> set (members (mergedGroups ! i))) \<and>
   (\<exists>!i. i < length mergedGroups \<and> Some ''paint_1'' \<in> set (members (mergedGroups ! i))) \<and>
   (\<exists>!i. i < length mergedGroups \<and> Some ''paint_2'' \<in> set (members (mergedGroups ! i))) \<and>
   (\<exists>!i. i < length mergedGroups \<and> Some ''paint_3'' \<in> set (members (mergedGroups ! i))) \<and>
   set (concat (map members mergedGroups))
     = {Some ''paint_0'', Some ''paint_1'', Some ''paint_2'', Some ''paint_3''} \<and>
   (blackSolid\<lparr>pid := Some ''paint_0''\<rparr>, nearBlackSolid\<lparr>pid := Some ''paint_1''\<rparr>)
     \<in> (nearPaints (deduplicatePaints fourPaints) 12)\<^sup>* \<and>
   (blackSolid\<lparr>pid := Some ''paint_0''\<rparr>, whiteSolid\<lparr>pid := Some ''paint_2''\<rparr>)
     \<notin> (nearPaints (deduplicatePaints fourPaints) 12)\<^sup>* \<and>
   (\<exists>g \<in> set mergedGroups. members g = [Some ''paint_3''])"
proof -
  let ?t = "deduplicatePaints fourPaints"
  let ?b = "blackSolid\<lparr>pid := Some ''paint_0''\<rparr>"
  let ?n = "nearBlackSolid\<lparr>pid := Some ''paint_1''\<rparr>"
  let ?w = "whiteSolid\<lparr>pid := Some ''paint_2''\<rparr>"
  let ?e = "nonePaint\<lparr>pid := Some ''paint_3''\<rparr>"
  have g: "groupPaints ?t 12 = Inr mergedGroups" by (rule fourPaints_groups)
  have t: "snd ` set ?t = {?b, ?n, ?w, ?e}"
    unfolding fourPaints_table by auto
  have ids: "(pid \<circ> snd) ` set ?t = {Some ''paint_0'', Some ''paint_1'', Some ''paint_2'', Some ''paint_3''}"
    unfolding fourPaints_table by auto
  have mem: "?b \<in> snd ` set ?t" "?n \<in> snd ` set ?t" "?w \<in> snd ` set ?t" "?e \<in> snd ` set ?t"
    unfolding t by simp_all
  have solid: "isClusteredSolid ?b \<and> isClusteredSolid ?n" "isClusteredSolid ?b \<and> isClusteredSolid ?w"
      "\<not> isClusteredSolid ?e"
    by (simp_all add: isClusteredSolid_def blackSolid_def nearBlackSolid_def whiteSolid_def
        nonePaint_def opaqueWhite_def nearBlack_def)
  obtain gs where all:
    "groupPaints ?t 12 = Inr gs \<and>
     map members gs =
       map (map item_id) (clusterByPerceptualDistance item_rgb (solidItems ?t) 12)
       @ map (\<lambda>p. [pid p]) (nonSolids ?t) \<and>
     (\<forall>p \<in> snd ` set ?t. \<exists>!i. i < length gs \<and> pid p \<in> set (members (gs ! i))) \<and>
     set (concat (map members gs)) = (pid \<circ> snd) ` set ?t \<and>
     (\<forall>p \<in> snd ` set ?t. \<forall>q \<in> snd ` set ?t.
        isClusteredSolid p \<and> isClusteredSolid q \<longrightarrow>
          ((\<exists>g \<in> set gs. pid p \<in> set (members g) \<and> pid q \<in> set (members g))
             \<longleftrightarrow> (p, q) \<in> (nearPaints ?t 12)\<^sup>*)) \<and>
     (\<forall>p \<in> snd ` set ?t. \<not> isClusteredSolid p \<longrightarrow> (\<exists>g \<in> set gs. members g = [pid p]))"
    using paint_groups_partition [of fourPaints] by (rule exE)
  note gs = all [THEN conjunct1]
  note a' = all [THEN conjunct2, THEN conjunct2, THEN conjunct1]
  note b' = all [THEN conjunct2, THEN conjunct2, THEN conjunct2, THEN conjunct1]
  note c' = all [THEN conjunct2, THEN conjunct2, THEN conjunct2, THEN conjunct2, THEN conjunct1]
  note d' = all [THEN conjunct2, THEN conjunct2, THEN conjunct2, THEN conjunct2, THEN conjunct2]
  from gs g have e: "gs = mergedGroups" by simp
  have a: "\<exists>!i. i < length mergedGroups \<and> pid p \<in> set (members (mergedGroups ! i))"
    if "p \<in> snd ` set ?t" for p
    using a' that unfolding e by (rule bspec)
  have c: "(\<exists>g \<in> set mergedGroups. pid p \<in> set (members g) \<and> pid q \<in> set (members g))
             \<longleftrightarrow> (p, q) \<in> (nearPaints ?t 12)\<^sup>*"
    if "p \<in> snd ` set ?t" "q \<in> snd ` set ?t" "isClusteredSolid p \<and> isClusteredSolid q" for p q
    using c' that unfolding e by blast
  have p0: "pid ?b = Some ''paint_0''" and p1: "pid ?n = Some ''paint_1''"
    and p2: "pid ?w = Some ''paint_2''" and p3: "pid ?e = Some ''paint_3''"
    by simp_all
  have u: "\<exists>!i. i < length mergedGroups \<and> Some ''paint_0'' \<in> set (members (mergedGroups ! i))"
    "\<exists>!i. i < length mergedGroups \<and> Some ''paint_1'' \<in> set (members (mergedGroups ! i))"
    "\<exists>!i. i < length mergedGroups \<and> Some ''paint_2'' \<in> set (members (mergedGroups ! i))"
    "\<exists>!i. i < length mergedGroups \<and> Some ''paint_3'' \<in> set (members (mergedGroups ! i))"
    using a [OF mem(1)] a [OF mem(2)] a [OF mem(3)] a [OF mem(4)]
    unfolding p0 p1 p2 p3 by this+
  have "\<exists>g \<in> set mergedGroups. Some ''paint_0'' \<in> set (members g) \<and> Some ''paint_1'' \<in> set (members g)"
    by (simp add: mergedGroups_def)
  with c [OF mem(1) mem(2) solid(1)] have near: "(?b, ?n) \<in> (nearPaints ?t 12)\<^sup>*"
    unfolding p0 p1 by simp
  have "\<not> (\<exists>g \<in> set mergedGroups. Some ''paint_0'' \<in> set (members g) \<and> Some ''paint_2'' \<in> set (members g))"
    by (simp add: mergedGroups_def)
  with c [OF mem(1) mem(3) solid(2)] have far: "(?b, ?w) \<notin> (nearPaints ?t 12)\<^sup>*"
    unfolding p0 p2 by simp
  have sing: "\<exists>g \<in> set mergedGroups. members g = [Some ''paint_3'']"
    using d' [unfolded e, THEN bspec, OF mem(4), THEN mp, OF solid(3)] unfolding p3 .
  have s: "set (concat (map members mergedGroups))
     = {Some ''paint_0'', Some ''paint_1'', Some ''paint_2'', Some ''paint_3''}"
    using b' unfolding e ids .
  from g u s near far sing show ?thesis by (intro conjI)
qed

subsection \<open>buildRegistries\<close>

text \<open>
  The document is the list of its \<open>path\<close> elements in document order, each with the
  attributes the builder reads and the fingerprint \<open>geometryFingerprint\<close> obtains for
  it from the rendering engine; the view box is what \<open>getViewBox\<close> reads.  Path ids
  \<open>p_<zIndex>\<close> are fresh, so \<open>paths.set\<close> appends.
\<close>

record fingerprint =
  geo_bbox :: bbox
  geo_area :: real
  geo_centroid :: point
  geo_perimeter :: real

record pathEl =
  attr_id :: "string option"
  attr_compoundParent :: "string option"
  attr_fill :: "string option"
  attr_stroke :: "string option"
  el_geo :: fingerprint

record binding =
  bind_pathId :: string
  fillPaintKey :: string
  strokePaintKey :: string

record registries =
  paths :: "(string \<times> pathEntry) list"
  paints :: paintTable
  bindings :: "binding list"
  paintGroups :: "paintGroup list"
  viewBox :: bbox

definition truthy :: "string option \<Rightarrow> bool" where
  "truthy a = (case a of None \<Rightarrow> False | Some s \<Rightarrow> s \<noteq> [])"

record regState =
  rs_zIndex :: nat
  rs_paths :: "(string \<times> pathEntry) list"
  rs_allPaints :: "paint list"
  rs_bindings :: "binding list"

definition registerPath :: "env \<Rightarrow> regState \<Rightarrow> pathEl \<Rightarrow> regState" where
  "registerPath e st el =
     (let z = rs_zIndex st;
          i = (if truthy (attr_id el) then the (attr_id el)
               else if truthy (attr_compoundParent el) then the (attr_compoundParent el)
               else ''anon_'' @ showNat z);
          pathId = ''p_'' @ showNat z;
          geo = el_geo el
      in if geo_area geo = 0 \<and> geo_perimeter geo = 0 then st\<lparr>rs_zIndex := z + 1\<rparr>
         else
           let fill = extractPaint e (attr_fill el);
               stroke = extractPaint e (attr_stroke el);
               pathEntry =
                 \<lparr>path_id = pathId, originalId = i, path_bbox = geo_bbox geo,
                  path_area = geo_area geo, centroid = geo_centroid geo,
                  perimeter = geo_perimeter geo, fillPaint = fill, strokePaint = stroke,
                  zIndex = z,
                  compoundParent = (if truthy (attr_compoundParent el)
                                    then attr_compoundParent el else None)\<rparr>
           in \<lparr>rs_zIndex = z + 1,
               rs_paths = rs_paths st @ [(pathId, pathEntry)],
               rs_allPaints = rs_allPaints st
                   @ (if ptype stroke \<noteq> ''none'' then [fill, stroke] else [fill]),
               rs_bindings = rs_bindings st
                   @ [\<lparr>bind_pathId = pathId, fillPaintKey = paintKey fill,
                       strokePaintKey = paintKey stroke\<rparr>]\<rparr>)"

definition buildRegistries :: "env \<Rightarrow> bbox \<Rightarrow> pathEl list \<Rightarrow> error + registries" where
  "buildRegistries e vb els =
     (let st = foldl (registerPath e)
                 \<lparr>rs_zIndex = 0, rs_paths = [], rs_allPaints = [], rs_bindings = []\<rparr> els;
          paintsMap = deduplicatePaints (rs_allPaints st)
      in case groupPaints paintsMap 12 of
           Inl err \<Rightarrow> Inl err
         | Inr groups \<Rightarrow>
             Inr \<lparr>paths = rs_paths st, paints = paintsMap, bindings = rs_bindings st,
                  paintGroups = groups, viewBox = vb\<rparr>)"


subsection \<open>The same colour registered twice\<close>

definition isSolidAttr :: "string \<Rightarrow> bool" where
  "isSolidAttr c = (c \<noteq> [] \<and> c \<noteq> ''none'' \<and> \<not> startsWith c ''url('')"

lemma extractPaint_solid:
  "isSolidAttr c \<Longrightarrow> extractPaint e (Some c) =
     \<lparr>ptype = ''solid'', raw = c, paint_rgba = parseColor e c,
      paint_lab = Some (rgbToLab (parseColor e c)),
      hex = Some (rgbToHex (parseColor e c)), stops = [], pid = None\<rparr>"
  by (simp add: extractPaint_def isSolidAttr_def Let_def)

lemma paintKey_solid:
  "isSolidAttr c \<Longrightarrow> paintKey (extractPaint e (Some c)) = ''solid:'' @ rgbToHex (parseColor e c)"
  by (simp add: extractPaint_solid paintKey_def)

lemma dedup_same_key:
  "paintKey p = paintKey q \<Longrightarrow>
   deduplicatePaints [p, q] = [(paintKey p, p\<lparr>pid := Some ''paint_0''\<rparr>)]"
  by (simp add: deduplicatePaints_def dedupStep_def Let_def showNat_0)

lemma empty_cluster: "clusterByPerceptualDistance rgbOf [] threshold = []"
  by (simp add: clusterByPerceptualDistance_def)

lemma groupPaints_single:
  "\<exists>g. groupPaints [(k, p)] threshold = Inr [g] \<and> members g = [pid p] \<and>
        representative g = Some p"
  by (cases "isClusteredSolid p")
     (simp_all add: groupPaints_def Let_def singleton_cluster empty_cluster)

lemma extractPaint_none: "\<not> truthy a \<Longrightarrow> ptype (extractPaint e a) = ''none''"
  by (auto simp: extractPaint_def truthy_def split: option.splits)


definition exampleEnv :: env where
  "exampleEnv =
     \<lparr>parseColor = (\<lambda>s. if s = ''#ffffff'' \<or> s = ''white'' then opaqueWhite else opaqueBlack),
      resolveGradientElement = (\<lambda>r. None)\<rparr>"

lemma rgbToHex_black: "rgbToHex opaqueBlack = ''#000000''"
  by (simp add: rgbToHex_def byteHex_def jsRound_def hexDigit_def opaqueBlack_def)

lemma isWhiteLike_black: "\<not> isWhiteLike opaqueBlack"
  by (simp add: isWhiteLike_def rgbToLab_black)

lemma extractPaint_black: "extractPaint exampleEnv (Some ''#000000'') = blackSolid"
  by (simp add: extractPaint_def exampleEnv_def startsWith_def Let_def blackSolid_def
      opaqueBlack_def rgbToLab_black [unfolded opaqueBlack_def]
      rgbToHex_black [unfolded opaqueBlack_def])

definition squareEl :: "string \<Rightarrow> string \<Rightarrow> pathEl" where
  "squareEl i fill =
     \<lparr>attr_id = Some i, attr_compoundParent = None, attr_fill = Some fill, attr_stroke = None,
      el_geo = \<lparr>geo_bbox = \<lparr>box_x = 0, box_y = 0, box_width = 10, box_height = 10\<rparr>,
                geo_area = 100, geo_centroid = \<lparr>pt_x = 5, pt_y = 5\<rparr>, geo_perimeter = 40\<rparr>\<rparr>"

definition blackSquareEntry :: pathEntry where
  "blackSquareEntry =
     \<lparr>path_id = ''p_0'', originalId = ''logo'',
      path_bbox = \<lparr>box_x = 0, box_y = 0, box_width = 10, box_height = 10\<rparr>,
      path_area = 100, centroid = \<lparr>pt_x = 5, pt_y = 5\<rparr>, perimeter = 40,
      fillPaint = blackSolid, strokePaint = nonePaint, zIndex = 0, compoundParent = None\<rparr>"

definition blackSquareRegistry :: registries where
  "blackSquareRegistry =
     \<lparr>paths = [(''p_0'', blackSquareEntry)],
      paints = [(''solid:#000000'', blackSolid\<lparr>pid := Some ''paint_0''\<rparr>)],
      bindings = [\<lparr>bind_pathId = ''p_0'', fillPaintKey = ''solid:#000000'',
                   strokePaintKey = ''none''\<rparr>],
      paintGroups = [\<lparr>group_id = ''pg_0'', group_type = ''solid_cluster'',
                      members = [Some ''paint_0''],
                      representative = Some (blackSolid\<lparr>pid := Some ''paint_0''\<rparr>)\<rparr>],
      viewBox = unitViewBox\<rparr>"

lemma extractPaint_absent: "extractPaint e None = nonePaint"
  by (simp add: extractPaint_def nonePaint_def)

lemma registerPath_blackSquare:
  "registerPath exampleEnv \<lparr>rs_zIndex = 0, rs_paths = [], rs_allPaints = [], rs_bindings = []\<rparr>
     (squareEl ''logo'' ''#000000'') =
   \<lparr>rs_zIndex = 1, rs_paths = [(''p_0'', blackSquareEntry)], rs_allPaints = [blackSolid],
    rs_bindings = [\<lparr>bind_pathId = ''p_0'', fillPaintKey = ''solid:#000000'',
                    strokePaintKey = ''none''\<rparr>]\<rparr>"
  by (simp add: registerPath_def squareEl_def Let_def truthy_def extractPaint_black
      extractPaint_absent paintKey_blackSolid paintKey_nonePaint showNat_0 blackSquareEntry_def)
     (simp add: nonePaint_def)

lemma dedup_black: "deduplicatePaints [blackSolid] = [(''solid:#000000'', blackSolid\<lparr>pid := Some ''paint_0''\<rparr>)]"
  by (simp add: deduplicatePaints_def dedupStep_def Let_def paintKey_blackSolid showNat_0)

lemma groups_black:
  "groupPaints [(''solid:#000000'', blackSolid\<lparr>pid := Some ''paint_0''\<rparr>)] 12 =
     Inr [\<lparr>group_id = ''pg_0'', group_type = ''solid_cluster'', members = [Some ''paint_0''],
           representative = Some (blackSolid\<lparr>pid := Some ''paint_0''\<rparr>)\<rparr>]"
proof -
  have "isClusteredSolid (blackSolid\<lparr>pid := Some ''paint_0''\<rparr>)"
    by (simp add: isClusteredSolid_def blackSolid_def)
  then show ?thesis
    by (simp add: groupPaints_def Let_def singleton_cluster showNat_0)
qed

text \<open>
  Claim C5.  Two path elements with different ids, both registered, without strokes, whose
  fills are solid colours with the same hex: the registry has exactly one paint group, its
  member list is \<open>[paint_0]\<close>, and the fill paint key of either element's binding is
  registered under the paint id \<open>paint_0\<close>, so the group's members include the paint id
  of both registrations.
\<close>

theorem same_colour_one_group:
  assumes "isSolidAttr c1" and "isSolidAttr c2"
    and "rgbToHex (parseColor e c1) = rgbToHex (parseColor e c2)"
    and "attr_fill el1 = Some c1" and "attr_fill el2 = Some c2"
    and "\<not> truthy (attr_stroke el1)" and "\<not> truthy (attr_stroke el2)"
    and "\<not> (geo_area (el_geo el1) = 0 \<and> geo_perimeter (el_geo el1) = 0)"
    and "\<not> (geo_area (el_geo el2) = 0 \<and> geo_perimeter (el_geo el2) = 0)"
    and "attr_id el1 \<noteq> attr_id el2"
  shows "\<exists>reg g. buildRegistries e vb [el1, el2] = Inr reg \<and>
           paintGroups reg = [g] \<and> members g = [Some ''paint_0''] \<and>
           map bind_pathId (bindings reg) = [''p_0'', ''p_1''] \<and>
           map (\<lambda>b. map_option pid (map_of (paints reg) (fillPaintKey b))) (bindings reg)
             = [Some (Some ''paint_0''), Some (Some ''paint_0'')]"
proof -
  let ?f1 = "extractPaint e (Some c1)" and ?f2 = "extractPaint e (Some c2)"
  define st where "st = foldl (registerPath e)
      \<lparr>rs_zIndex = 0, rs_paths = [], rs_allPaints = [], rs_bindings = []\<rparr> [el1, el2]"
  define table where "table = deduplicatePaints (rs_allPaints st)"
  have k: "paintKey ?f1 = paintKey ?f2"
    using assms(1-3) by (simp add: paintKey_solid)
  have s: "ptype (extractPaint e (attr_stroke el1)) = ''none''"
      "ptype (extractPaint e (attr_stroke el2)) = ''none''"
    using assms(6,7) by (simp_all add: extractPaint_none)
  have ap: "rs_allPaints st = [?f1, ?f2]"
    unfolding st_def using assms(4,5,8,9) s by (auto simp: registerPath_def Let_def)
  have bs: "map bind_pathId (rs_bindings st) = [''p_0'', ''p_1'']"
      "map fillPaintKey (rs_bindings st) = [paintKey ?f1, paintKey ?f2]"
    unfolding st_def using assms(4,5,8,9)
    by (auto simp: registerPath_def Let_def showNat_0 showNat_1)
  have t: "table = [(paintKey ?f1, ?f1\<lparr>pid := Some ''paint_0''\<rparr>)]"
    unfolding table_def ap using k by (rule dedup_same_key)
  obtain g where g: "groupPaints table 12 = Inr [g]" "members g = [Some ''paint_0'']"
    unfolding t using groupPaints_single [of "paintKey ?f1" "?f1\<lparr>pid := Some ''paint_0''\<rparr>" 12]
    by auto
  define reg where "reg = \<lparr>paths = rs_paths st, paints = table,
               bindings = rs_bindings st, paintGroups = [g], viewBox = vb\<rparr>"
  have r: "buildRegistries e vb [el1, el2] = Inr reg"
    using g(1) unfolding reg_def table_def st_def by (simp add: buildRegistries_def Let_def)
  have "map (\<lambda>b. map_option pid (map_of table (fillPaintKey b))) (rs_bindings st)
          = map (\<lambda>k. map_option pid (map_of table k)) (map fillPaintKey (rs_bindings st))"
    by (simp add: comp_def)
  also have "\<dots> = [Some (Some ''paint_0''), Some (Some ''paint_0'')]"
    unfolding bs t using k by simp
  finally have m: "map (\<lambda>b. map_option pid (map_of (paints reg) (fillPaintKey b))) (bindings reg)
             = [Some (Some ''paint_0''), Some (Some ''paint_0'')]"
    by (simp add: reg_def)
  have pg: "paintGroups reg = [g]" and bp: "map bind_pathId (bindings reg) = [''p_0'', ''p_1'']"
    using bs(1) by (simp_all add: reg_def)
  show ?thesis
  proof (intro exI conjI)
    show "buildRegistries e vb [el1, el2] = Inr reg" by (rule r)
    show "paintGroups reg = [g]" by (rule pg)
    show "members g = [Some ''paint_0'']" by (rule g(2))
    show "map bind_pathId (bindings reg) = [''p_0'', ''p_1'']" by (rule bp)
    show "map (\<lambda>b. map_option pid (map_of (paints reg) (fillPaintKey b))) (bindings reg)
             = [Some (Some ''paint_0''), Some (Some ''paint_0'')]" by (rule m)
  qed
qed

theorem same_colour_one_group_witness:
  "\<exists>reg g. buildRegistries exampleEnv unitViewBox [squareEl ''a'' ''#000000'', squareEl ''b'' ''black'']
               = Inr reg \<and>
           paintGroups reg = [g] \<and> members g = [Some ''paint_0''] \<and>
           map bind_pathId (bindings reg) = [''p_0'', ''p_1''] \<and>
           map (\<lambda>b. map_option pid (map_of (paints reg) (fillPaintKey b))) (bindings reg)
             = [Some (Some ''paint_0''), Some (Some ''paint_0'')]"
  by (rule same_colour_one_group [where ?c1.0 = "''#000000''" and ?c2.0 = "''black''"])
     (simp_all add: isSolidAttr_def startsWith_def exampleEnv_def squareEl_def truthy_def)


section \<open>Version engine (version-engine)\<close>

subsection \<open>computeInkProfile\<close>

text \<open>
  Of the report only \<open>decisions\<close> is read, and of a decision only \<open>pathId\<close> and
  \<open>action\<close>.  The \<open>stops\<close> field of an ink colour is left out.  \<open>usesPaint\<close> is the
  test \<open>path.fillPaint?.id === memberId && !excludedPathIds.has(path.id)\<close> shared by
  \<open>isGroupExcluded\<close> and \<open>groupArea\<close>.  \<open>Array.prototype.sort\<close> is stable, as is
  \<open>sort_key\<close>.
\<close>

record decision =
  dec_pathId :: string
  dec_originalId :: string
  dec_action :: string

record report =
  decisions :: "decision list"

record inkColor =
  ink_groupId :: string
  ink_paint :: paint
  ink_hex :: string
  ink_lab :: lab
  ink_area :: real
  ink_isGradient :: bool

record inkProfile =
  inkColors :: "inkColor list"
  gradientPresent :: bool
  inkCount :: nat

definition excludedPathIds :: "report \<Rightarrow> string set" where
  "excludedPathIds rep =
     set (map dec_pathId
       (filter (\<lambda>d. dec_action d = ''background_delete'' \<or> dec_action d = ''counter_hole'')
          (decisions rep)))"

definition usesPaint :: "string set \<Rightarrow> string option \<Rightarrow> pathEntry \<Rightarrow> bool" where
  "usesPaint excluded memberId path =
     (pid (fillPaint path) = memberId \<and> path_id path \<notin> excluded)"

definition isGroupExcluded :: "(string \<times> pathEntry) list \<Rightarrow> string set \<Rightarrow> paintGroup \<Rightarrow> bool" where
  "isGroupExcluded ps excluded grp =
     (\<not> (\<exists>memberId \<in> set (members grp). \<exists>kp \<in> set ps. usesPaint excluded memberId (snd kp)))"

definition groupArea :: "(string \<times> pathEntry) list \<Rightarrow> string set \<Rightarrow> paintGroup \<Rightarrow> real" where
  "groupArea ps excluded grp =
     sum_list (map (\<lambda>memberId.
        sum_list (map (\<lambda>kp. if usesPaint excluded memberId (snd kp) then path_area (snd kp) else 0) ps))
       (members grp))"

definition isWhiteSolid :: "paint \<Rightarrow> bool" where
  "isWhiteSolid rep = (ptype rep = ''solid'' \<and> isWhiteLike (paint_rgba rep))"

definition isGradientPaint :: "paint \<Rightarrow> bool" where
  "isGradientPaint rep = (ptype rep = ''linear'' \<or> ptype rep = ''radial'')"

definition paintHex :: "paint \<Rightarrow> string" where
  "paintHex rep =
     (case hex rep of
        Some h \<Rightarrow> (if h = [] then rgbToHex (paint_rgba rep) else h)
      | None \<Rightarrow> rgbToHex (paint_rgba rep))"

definition paintLab :: "paint \<Rightarrow> lab" where
  "paintLab rep = (case paint_lab rep of Some l \<Rightarrow> l | None \<Rightarrow> rgbToLab (paint_rgba rep))"

text \<open>
  One iteration of the loop over the paint groups: \<open>None\<close> where the body leaves by
  \<open>continue\<close>, otherwise the entry it pushes.
\<close>

definition inkStep ::
  "(string \<times> pathEntry) list \<Rightarrow> string set \<Rightarrow> paintGroup \<Rightarrow> inkColor option" where
  "inkStep ps excluded grp =
     (case representative grp of
        None \<Rightarrow> None
      | Some rep \<Rightarrow>
          if ptype rep = ''none'' then None
          else if isWhiteSolid rep then None
          else if isGroupExcluded ps excluded grp then None
          else Some \<lparr>ink_groupId = group_id grp, ink_paint = rep, ink_hex = paintHex rep,
                      ink_lab = paintLab rep, ink_area = groupArea ps excluded grp,
                      ink_isGradient = isGradientPaint rep\<rparr>)"

definition computeInkProfile :: "registries \<Rightarrow> report \<Rightarrow> inkProfile" where
  "computeInkProfile reg rep =
     (let excluded = excludedPathIds rep;
          pushed = List.map_filter (inkStep (paths reg) excluded) (paintGroups reg);
          sorted = sort_key (\<lambda>c. - ink_area c) pushed
      in \<lparr>inkColors = sorted,
          gradientPresent = (\<exists>c \<in> set pushed. ink_isGradient c),
          inkCount = length sorted\<rparr>)"

subsection \<open>Registered paths carry fill paints without an id\<close>

lemma extractPaint_no_id: "pid (extractPaint e attr) = None"
  by (simp add: extractPaint_def meshPaint_def gradientPaint_def Let_def split: option.splits)

lemma registerPath_fill_ids:
  assumes "\<forall>kp \<in> set (rs_paths st). pid (fillPaint (snd kp)) = None"
  shows "\<forall>kp \<in> set (rs_paths (registerPath e st el)). pid (fillPaint (snd kp)) = None"
  using assms by (auto simp: registerPath_def Let_def extractPaint_no_id)

lemma foldl_registerPath_fill_ids:
  assumes "\<forall>kp \<in> set (rs_paths st). pid (fillPaint (snd kp)) = None"
  shows "\<forall>kp \<in> set (rs_paths (foldl (registerPath e) st els)). pid (fillPaint (snd kp)) = None"
  using assms
proof (induction els arbitrary: st)
  case Nil
  then show ?case by simp
next
  case (Cons el els)
  from Cons.prems have "\<forall>kp \<in> set (rs_paths (registerPath e st el)). pid (fillPaint (snd kp)) = None"
    by (rule registerPath_fill_ids)
  then show ?case using Cons.IH by simp
qed

lemma groupPaints_members_defined:
  assumes "groupPaints (deduplicatePaints ps) threshold = Inr gs"
    and "g \<in> set gs" and "m \<in> set (members g)"
  shows "m \<noteq> None"
proof -
  from assms(2,3) have "m \<in> set (concat (map members gs))" by auto
  then have "m \<in># mset (concat (map members gs))" by simp
  then have "m \<in># mset (map (pid \<circ> snd) (deduplicatePaints ps))"
    by (simp only: groupPaints_member_mset [OF assms(1)])
  then obtain p where "p \<in> snd ` set (deduplicatePaints ps)" "m = pid p" by auto
  then show ?thesis using deduplicatePaints_pids_defined by blast
qed

lemma buildRegistries_total: "\<exists>reg. buildRegistries e vb els = Inr reg"
proof -
  obtain gs where "groupPaints (deduplicatePaints (rs_allPaints (foldl (registerPath e)
      \<lparr>rs_zIndex = 0, rs_paths = [], rs_allPaints = [], rs_bindings = []\<rparr> els))) 12 = Inr gs"
    using groupPaints_total by blast
  then show ?thesis by (simp add: buildRegistries_def Let_def)
qed


lemma ink_profile_always_empty:
  "\<exists>reg. buildRegistries e vb els = Inr reg \<and> inkColors (computeInkProfile reg rep) = []"
proof -
  obtain reg where reg: "buildRegistries e vb els = Inr reg"
    using buildRegistries_total by blast
  let ?st = "foldl (registerPath e)
      \<lparr>rs_zIndex = 0, rs_paths = [], rs_allPaints = [], rs_bindings = []\<rparr> els"
  from reg have g: "groupPaints (deduplicatePaints (rs_allPaints ?st)) 12 = Inr (paintGroups reg)"
    and p: "paths reg = rs_paths ?st"
    by (auto simp: buildRegistries_def Let_def split: sum.splits)
  have fill: "\<forall>kp \<in> set (paths reg). pid (fillPaint (snd kp)) = None"
    unfolding p by (rule foldl_registerPath_fill_ids) simp
  have "isGroupExcluded (paths reg) (excludedPathIds rep) grp" if "grp \<in> set (paintGroups reg)" for grp
    unfolding isGroupExcluded_def usesPaint_def
    using fill groupPaints_members_defined [OF g that] by fastforce
  then have "List.map_filter (inkStep (paths reg) (excludedPathIds rep)) (paintGroups reg) = []"
    by (auto simp: map_filter_def filter_empty_conv inkStep_def split: option.splits)
  then have "inkColors (computeInkProfile reg rep) = []"
    by (simp add: computeInkProfile_def Let_def)
  with reg show ?thesis by blast
qed



lemma blackSquare_registry:
  "buildRegistries exampleEnv unitViewBox [squareEl ''logo'' ''#000000''] = Inr blackSquareRegistry"
  by (simp add: buildRegistries_def registerPath_blackSquare dedup_black groups_black
      blackSquareRegistry_def)

lemma blackSquare_profile:
  "computeInkProfile blackSquareRegistry \<lparr>decisions = []\<rparr> =
     \<lparr>inkColors = [], gradientPresent = False, inkCount = 0\<rparr>"
proof -
  have "isGroupExcluded [(''p_0'', blackSquareEntry)] {} g" if "members g = [Some ''paint_0'']" for g
    using that by (simp add: isGroupExcluded_def usesPaint_def blackSquareEntry_def blackSolid_def)
  then have "List.map_filter (inkStep (paths blackSquareRegistry) {}) (paintGroups blackSquareRegistry) = []"
    by (simp add: blackSquareRegistry_def map_filter_def inkStep_def)
  then show ?thesis
    by (simp add: computeInkProfile_def excludedPathIds_def Let_def)
qed

text \<open>
  Claim C1 fails on the code.  A document with one black square of area 100 and a report
  without decisions: the registry has the path \<open>p_0\<close> with a black fill and the group
  \<open>pg_0\<close> whose representative is that black and whose member is \<open>paint_0\<close>.  The group's
  representative is neither \<open>none\<close> nor white-like, and the only path filled with its
  colour is not excluded, yet the ink profile is empty: \<open>path.fillPaint\<close> is the object
  \<open>extractPaint\<close> returned, which has no \<open>id\<close>; the id is given to the copy
  \<open>deduplicatePaints\<close> stores, so \<open>path.fillPaint?.id === memberId\<close> never holds.  By
  \<open>ink_profile_always_empty\<close> this is so for every document.
\<close>

theorem ink_profile_failing_input:
  "buildRegistries exampleEnv unitViewBox [squareEl ''logo'' ''#000000''] = Inr blackSquareRegistry \<and>
   computeInkProfile blackSquareRegistry \<lparr>decisions = []\<rparr> =
     \<lparr>inkColors = [], gradientPresent = False, inkCount = 0\<rparr>"
  using blackSquare_registry blackSquare_profile by simp

subsection \<open>IEEE doubles\<close>

text \<open>
  Areas and merge weights are JavaScript numbers, and \<open>extractPalette\<close> adds, subtracts,
  multiplies and divides them.  A finite double is a real number; an operation returns the
  exact result rounded to the nearest double, ties to the even significand.  \<open>toDouble\<close>
  is that rounding: the significand has 53 bits, so a number of binary exponent \<open>e\<close> is
  rounded to a multiple of \<open>2^(e - 52)\<close>, and to a multiple of \<open>2^(-1074)\<close> in the
  subnormal range.  Overflow to \<open>Infinity\<close> (a result of magnitude \<open>2^1024\<close> or more) and
  \<open>NaN\<close> are outside the model.  Colour distances stay exact, as in the rest of the
  development.
\<close>

definition roundHalfEven :: "real \<Rightarrow> int" where
  "roundHalfEven x =
     (let n = \<lfloor>x\<rfloor>; r = x - of_int n
      in if r < 1 / 2 then n else if r > 1 / 2 then n + 1 else if even n then n else n + 1)"

definition doubleExponent :: "real \<Rightarrow> int" where
  "doubleExponent x = max (\<lfloor>log 2 \<bar>x\<bar>\<rfloor> - 52) (- 1074)"

definition toDouble :: "real \<Rightarrow> real" where
  "toDouble x =
     (if x = 0 then 0
      else of_int (roundHalfEven (x / 2 powr of_int (doubleExponent x)))
             * 2 powr of_int (doubleExponent x))"

definition dadd :: "real \<Rightarrow> real \<Rightarrow> real" where
  "dadd x y = toDouble (x + y)"

definition dsub :: "real \<Rightarrow> real \<Rightarrow> real" where
  "dsub x y = toDouble (x - y)"

definition dmul :: "real \<Rightarrow> real \<Rightarrow> real" where
  "dmul x y = toDouble (x * y)"

definition ddiv :: "real \<Rightarrow> real \<Rightarrow> real" where
  "ddiv x y = toDouble (x / y)"

text \<open>The unit roundoff of doubles and the least positive normal double.\<close>

definition unitRoundoff :: real where
  "unitRoundoff = 1 / 2 ^ 53"

definition minNormal :: real where
  "minNormal = 1 / 2 ^ 1022"

lemma roundHalfEven_near: "\<bar>of_int (roundHalfEven x) - x\<bar> \<le> 1 / 2"
  unfolding roundHalfEven_def Let_def by (auto simp: abs_if) linarith+

lemma roundHalfEven_nonneg: "0 \<le> x \<Longrightarrow> 0 \<le> roundHalfEven x"
  unfolding roundHalfEven_def Let_def by auto

lemma toDouble_0: "toDouble 0 = 0"
  by (simp add: toDouble_def)

lemma toDouble_nonneg: "0 \<le> x \<Longrightarrow> 0 \<le> toDouble x"
  unfolding toDouble_def using roundHalfEven_nonneg [of "x / 2 powr of_int (doubleExponent x)"]
  by simp

lemma doubleExponent_eq:
  fixes k :: nat
  assumes lo: "2 ^ 52 \<le> \<bar>x\<bar> * 2 ^ k" and hi: "\<bar>x\<bar> * 2 ^ k < 2 ^ 53" and k: "k \<le> 1074"
  shows "doubleExponent x = - int k"
proof -
  have pos: "0 < \<bar>x\<bar>"
  proof (rule ccontr)
    assume "\<not> 0 < \<bar>x\<bar>"
    then have "\<bar>x\<bar> = 0" by simp
    with lo show False by simp
  qed
  have p: "(2::real) powr (of_int (52 - int k)) = 2 ^ 52 / 2 ^ k"
    "(2::real) powr (of_int (52 - int k) + 1) = 2 ^ 53 / 2 ^ k"
    by (simp_all add: powr_diff powr_add powr_realpow)
  have "2 powr (of_int (52 - int k)) \<le> \<bar>x\<bar>"
    unfolding p(1) using lo by (simp add: field_simps)
  then have a: "of_int (52 - int k) \<le> log 2 \<bar>x\<bar>"
    using pos by (simp add: le_log_iff)
  have "\<bar>x\<bar> < 2 powr (of_int (52 - int k) + 1)"
    unfolding p(2) using hi by (simp add: field_simps)
  then have b: "log 2 \<bar>x\<bar> < of_int (52 - int k) + 1"
    using pos by (simp add: log_less_iff)
  from a b have "\<lfloor>log 2 \<bar>x\<bar>\<rfloor> = 52 - int k" by (rule floor_unique)
  with k show ?thesis by (simp add: doubleExponent_def)
qed

text \<open>How a number is rounded once its binary exponent is known.\<close>

lemma toDouble_eval:
  fixes k :: nat
  assumes lo: "2 ^ 52 \<le> \<bar>x\<bar> * 2 ^ k" and hi: "\<bar>x\<bar> * 2 ^ k < 2 ^ 53" and k: "k \<le> 1074"
  shows "toDouble x = of_int (roundHalfEven (x * 2 ^ k)) / 2 ^ k"
proof -
  have "x \<noteq> 0" using lo by auto
  moreover have "(2::real) powr of_int (- int k) = 1 / 2 ^ k"
    by (simp add: powr_minus powr_realpow field_simps)
  ultimately show ?thesis
    unfolding toDouble_def doubleExponent_eq [OF assms] by simp
qed

lemma toDouble_error: "\<bar>toDouble x - x\<bar> \<le> \<bar>x\<bar> / 2 ^ 53 + 1 / 2 ^ 1075"
proof (cases "x = 0")
  case True
  then show ?thesis by (simp add: toDouble_def)
next
  case False
  define e where "e = doubleExponent x"
  define s :: real where "s = 2 powr of_int e"
  have s: "0 < s" by (simp add: s_def)
  have "toDouble x - x = (of_int (roundHalfEven (x / s)) - x / s) * s"
    using False s by (simp add: toDouble_def e_def s_def field_simps)
  then have "\<bar>toDouble x - x\<bar> = \<bar>of_int (roundHalfEven (x / s)) - x / s\<bar> * s"
    using s by (simp add: abs_mult)
  also have "\<dots> \<le> 1 / 2 * s"
    using roundHalfEven_near [of "x / s"] s by (intro mult_right_mono) simp_all
  finally have err: "\<bar>toDouble x - x\<bar> \<le> s / 2" by simp
  have "e = \<lfloor>log 2 \<bar>x\<bar>\<rfloor> - 52 \<or> e = - 1074"
    unfolding e_def doubleExponent_def by linarith
  then have "s / 2 \<le> \<bar>x\<bar> / 2 ^ 53 + 1 / 2 ^ 1075"
  proof
    assume e: "e = \<lfloor>log 2 \<bar>x\<bar>\<rfloor> - 52"
    have "of_int e \<le> log 2 \<bar>x\<bar> - 52" unfolding e by simp
    then have "s \<le> 2 powr (log 2 \<bar>x\<bar> - 52)"
      unfolding s_def by (simp add: powr_mono)
    also have "\<dots> = \<bar>x\<bar> / 2 ^ 52"
      using False by (simp add: powr_diff powr_realpow [where n = 52, simplified])
    finally have "s / 2 \<le> \<bar>x\<bar> / 2 ^ 53" by simp
    then show ?thesis by simp
  next
    assume "e = - 1074"
    then have "s = 1 / 2 ^ 1074"
      unfolding s_def by (simp add: powr_minus powr_realpow [where n = 1074, simplified] field_simps)
    then show ?thesis by simp
  qed
  with err show ?thesis by linarith
qed

lemma toDouble_roundoff: "\<bar>toDouble x - x\<bar> \<le> unitRoundoff * (\<bar>x\<bar> + minNormal)"
proof -
  have "(1::real) / 2 ^ 1075 = 1 / 2 ^ 53 * (1 / 2 ^ 1022)"
    by (simp add: power_add [symmetric])
  then have "\<bar>x\<bar> / 2 ^ 53 + 1 / 2 ^ 1075 = unitRoundoff * (\<bar>x\<bar> + minNormal)"
    unfolding unitRoundoff_def minNormal_def by (simp only: distrib_left) simp
  with toDouble_error [of x] show ?thesis by simp
qed

subsection \<open>extractPalette\<close>

text \<open>
  \<open>maxColors\<close> is a count.  The working palette carries the \<open>rgb\<close> of each entry
  besides \<open>hex\<close>, \<open>lab\<close> and \<open>area\<close>.  The search for the closest pair starts from
  \<open>minDist = Infinity\<close> (\<open>None\<close>), \<open>mergeA = 0\<close>, \<open>mergeB = 1\<close> and keeps the first
  pair of least distance.  Reading \<open>palette[mergeB]\<close> beyond the end gives \<open>undefined\<close>,
  and \<open>b.area\<close> then raises a \<open>TypeError\<close>, so the loop returns a sum.  The merged
  area, the weights and the weighted channels are computed in doubles.
\<close>

record paletteEntry =
  pal_hex :: string
  pal_lab :: lab
  pal_area :: real

record workEntry =
  w_hex :: string
  w_lab :: lab
  w_area :: real
  w_rgb :: rgba

definition toEntry :: "inkColor \<Rightarrow> paletteEntry" where
  "toEntry c = \<lparr>pal_hex = ink_hex c, pal_lab = ink_lab c, pal_area = ink_area c\<rparr>"

definition cloneInk :: "inkColor \<Rightarrow> workEntry" where
  "cloneInk c = \<lparr>w_hex = ink_hex c, w_lab = ink_lab c, w_area = ink_area c,
                 w_rgb = paint_rgba (ink_paint c)\<rparr>"

definition stripWork :: "workEntry \<Rightarrow> paletteEntry" where
  "stripWork p = \<lparr>pal_hex = w_hex p, pal_lab = w_lab p, pal_area = w_area p\<rparr>"

definition palettePairs :: "nat \<Rightarrow> (nat \<times> nat) list" where
  "palettePairs n = concat (map (\<lambda>i. map (\<lambda>j. (i, j)) [Suc i..<n]) [0..<n])"

definition closerPair ::
  "workEntry list \<Rightarrow> real option \<times> nat \<times> nat \<Rightarrow> nat \<times> nat \<Rightarrow> real option \<times> nat \<times> nat" where
  "closerPair palette st ij =
     (let d = deltaE (w_lab (palette ! fst ij)) (w_lab (palette ! snd ij)) in
      case fst st of
        None \<Rightarrow> (Some d, fst ij, snd ij)
      | Some minDist \<Rightarrow> if d < minDist then (Some d, fst ij, snd ij) else st)"

definition closestPair :: "workEntry list \<Rightarrow> real option \<times> nat \<times> nat" where
  "closestPair palette = foldl (closerPair palette) (None, 0, 1) (palettePairs (length palette))"

definition mergeEntries :: "workEntry \<Rightarrow> workEntry \<Rightarrow> workEntry" where
  "mergeEntries a b =
     (let totalArea = dadd (w_area a) (w_area b);
          wA = (if totalArea > 0 then ddiv (w_area a) totalArea else 0.5);
          wB = dsub 1 wA;
          mergedRgb =
            \<lparr>red = of_int (jsRound (dadd (dmul (red (w_rgb a)) wA) (dmul (red (w_rgb b)) wB))),
             green = of_int (jsRound (dadd (dmul (green (w_rgb a)) wA) (dmul (green (w_rgb b)) wB))),
             blue = of_int (jsRound (dadd (dmul (blue (w_rgb a)) wA) (dmul (blue (w_rgb b)) wB))),
             alpha = 1\<rparr>
      in \<lparr>w_hex = rgbToHex mergedRgb, w_lab = rgbToLab mergedRgb, w_area = totalArea,
          w_rgb = mergedRgb\<rparr>)"

lemma palettePairs_bound: "ij \<in> set (palettePairs n) \<Longrightarrow> fst ij < snd ij \<and> snd ij < n"
  by (auto simp: palettePairs_def)

lemma closerPair_choice:
  "snd (closerPair palette st ij) = snd st \<or> snd (closerPair palette st ij) = ij"
  by (auto simp: closerPair_def Let_def split: option.splits)

lemma foldl_closerPair_choice:
  "snd (foldl (closerPair palette) st ps) = snd st \<or> snd (foldl (closerPair palette) st ps) \<in> set ps"
proof (induction ps arbitrary: st)
  case Nil
  then show ?case by simp
next
  case (Cons ij ps)
  from Cons.IH [of "closerPair palette st ij"] closerPair_choice [of palette st ij]
  show ?case by auto
qed

lemma closestPair_bound:
  assumes "2 \<le> length palette" and "closestPair palette = (m, a, b)"
  shows "a < b \<and> b < length palette"
proof -
  from foldl_closerPair_choice [of palette "(None, 0, 1)" "palettePairs (length palette)"] assms(2)
  have "(a, b) = (0, 1) \<or> (a, b) \<in> set (palettePairs (length palette))"
    by (simp add: closestPair_def)
  then show ?thesis
  proof
    assume "(a, b) = (0, 1)"
    with assms(1) show ?thesis by simp
  next
    assume "(a, b) \<in> set (palettePairs (length palette))"
    from palettePairs_bound [OF this] show ?thesis by simp
  qed
qed

lemma closestPair_single: "length palette \<le> 1 \<Longrightarrow> closestPair palette = (None, 0, 1)"
proof -
  assume "length palette \<le> 1"
  then have "length palette = 0 \<or> length palette = Suc 0" by arith
  moreover have "palettePairs 0 = []" "palettePairs (Suc 0) = []"
    by (simp_all add: palettePairs_def)
  ultimately have "palettePairs (length palette) = []"
    by metis
  then show ?thesis by (simp add: closestPair_def)
qed

function mergeLoop :: "nat \<Rightarrow> workEntry list \<Rightarrow> error + workEntry list" where
  "mergeLoop maxColors palette =
     (if length palette > maxColors then
        (case closestPair palette of
           (minDist, mergeA, mergeB) \<Rightarrow>
             if mergeA < length palette \<and> mergeB < length palette then
               mergeLoop maxColors
                 (removeAt mergeB
                    (palette[mergeA := mergeEntries (palette ! mergeA) (palette ! mergeB)]))
             else Inl TypeError)
      else Inr palette)"
  by pat_completeness auto
termination
  by (relation "measure (\<lambda>(m, palette). length palette)") (auto simp: length_removeAt)

declare mergeLoop.simps [simp del]

definition extractPalette :: "inkProfile \<Rightarrow> nat \<Rightarrow> error + paletteEntry list" where
  "extractPalette ip maxColors =
     (if length (inkColors ip) = 0 then Inr []
      else if length (inkColors ip) \<le> maxColors then Inr (map toEntry (inkColors ip))
      else case mergeLoop maxColors (map cloneInk (inkColors ip)) of
             Inl err \<Rightarrow> Inl err
           | Inr palette \<Rightarrow> Inr (map stripWork palette))"

lemma mergeEntries_area: "w_area (mergeEntries a b) = dadd (w_area a) (w_area b)"
  by (simp add: mergeEntries_def Let_def)

lemma mergeLoop_done: "\<not> length palette > maxColors \<Longrightarrow> mergeLoop maxColors palette = Inr palette"
  by (subst mergeLoop.simps) simp

lemma mergeLoop_step:
  "length palette > maxColors \<Longrightarrow> closestPair palette = (m, a, b) \<Longrightarrow>
   a < length palette \<Longrightarrow> b < length palette \<Longrightarrow>
   mergeLoop maxColors palette =
     mergeLoop maxColors (removeAt b (palette[a := mergeEntries (palette ! a) (palette ! b)]))"
  by (subst mergeLoop.simps) simp

lemma mergeLoop_fail:
  "length palette > maxColors \<Longrightarrow> closestPair palette = (m, a, b) \<Longrightarrow>
   \<not> (a < length palette \<and> b < length palette) \<Longrightarrow> mergeLoop maxColors palette = Inl TypeError"
  by (subst mergeLoop.simps) auto

subsection \<open>The number of entries and the total area\<close>

lemma sum_merge_replace:
  fixes f :: "'a \<Rightarrow> real"
  assumes "i < length xs" "j < length xs" "i \<noteq> j"
  shows "sum_list (map f (removeAt j (xs[i := v])))
           = sum_list (map f xs) - f (xs ! i) - f (xs ! j) + f v"
proof -
  let ?ys = "xs[i := v]"
  have "sum_list (map f (removeAt j ?ys)) + f (?ys ! j) = sum_list (map f ?ys)"
    using assms(2) by (intro sum_removeAt) simp
  then have "sum_list (map f (removeAt j ?ys)) + f (xs ! j) = sum_list (map f ?ys)"
    using assms(3) by simp
  moreover have "sum_list (map f ?ys) + f (xs ! i) = sum_list (map f xs) + f v"
    using assms(1) by (rule sum_update)
  ultimately show ?thesis by linarith
qed

lemma member_le_sum:
  fixes f :: "'a \<Rightarrow> real"
  assumes "\<forall>x \<in> set xs. 0 \<le> f x" "y \<in> set xs"
  shows "f y \<le> sum_list (map f xs)"
  using assms
proof (induction xs)
  case Nil
  then show ?case by simp
next
  case (Cons x xs)
  have nn: "0 \<le> sum_list (map f xs)"
    using Cons.prems(1) by (intro sum_list_nonneg) auto
  show ?case
  proof (cases "y = x")
    case True
    with nn show ?thesis by simp
  next
    case False
    with Cons have "f y \<le> sum_list (map f xs)" by simp
    moreover have "0 \<le> f x" using Cons.prems(1) by simp
    ultimately show ?thesis by simp
  qed
qed

lemma pair_le_sum:
  fixes f :: "'a \<Rightarrow> real"
  assumes nn: "\<forall>x \<in> set xs. 0 \<le> f x" and ij: "i < j" "j < length xs"
  shows "f (xs ! i) + f (xs ! j) \<le> sum_list (map f xs)"
proof -
  have "xs ! i = take j xs ! i" using ij by simp
  moreover have "i < length (take j xs)" using ij by simp
  ultimately have "xs ! i \<in> set (take j xs)" by (metis nth_mem)
  then have mem: "xs ! i \<in> set (removeAt j xs)" by (simp add: removeAt_def)
  have "\<forall>x \<in> set (removeAt j xs). 0 \<le> f x"
    using nn set_removeAt [of j xs] by auto
  from member_le_sum [OF this mem] sum_removeAt [OF ij(2), of f] show ?thesis by simp
qed

text \<open>
  One merge changes the total area by the rounding error of one addition, so after
  \<open>k\<close> merges the total, increased by \<open>minNormal\<close>, lies within the factors
  \<open>(1 - unitRoundoff)^k\<close> and \<open>(1 + unitRoundoff)^k\<close> of its first value.
\<close>

lemma mergeLoop_bound:
  assumes "0 < maxColors" and "maxColors \<le> length palette"
  shows "\<exists>out. mergeLoop maxColors palette = Inr out \<and> length out = maxColors \<and>
           ((\<forall>e \<in> set palette. 0 \<le> w_area e) \<longrightarrow>
              (\<forall>e \<in> set out. 0 \<le> w_area e) \<and>
              (1 - unitRoundoff) ^ (length palette - maxColors)
                  * (sum_list (map w_area palette) + minNormal)
                \<le> sum_list (map w_area out) + minNormal \<and>
              sum_list (map w_area out) + minNormal
                \<le> (1 + unitRoundoff) ^ (length palette - maxColors)
                    * (sum_list (map w_area palette) + minNormal))"
  using assms(2)
proof (induction "length palette" arbitrary: palette rule: less_induct)
  case less
  show ?case
  proof (cases "length palette > maxColors")
    case False
    with less.prems have "length palette = maxColors" by simp
    with False show ?thesis by (simp add: mergeLoop_done)
  next
    case True
    with assms(1) have two: "2 \<le> length palette" by simp
    obtain m a b where c: "closestPair palette = (m, a, b)"
      by (cases "closestPair palette") auto
    from closestPair_bound [OF two c] have ab: "a < b" "b < length palette" by simp_all
    define v where "v = mergeEntries (palette ! a) (palette ! b)"
    define nxt where "nxt = removeAt b (palette[a := v])"
    define k where "k = length nxt - maxColors"
    have len: "length nxt = length palette - 1"
      using ab by (simp add: nxt_def length_removeAt)
    have k: "length palette - maxColors = Suc k"
      using len True by (simp add: k_def)
    have "length nxt < length palette" "maxColors \<le> length nxt"
      using len True two by simp_all
    from less.hyps [OF this]
    obtain out where out: "mergeLoop maxColors nxt = Inr out" "length out = maxColors"
      and ih: "(\<forall>e \<in> set nxt. 0 \<le> w_area e) \<longrightarrow>
              (\<forall>e \<in> set out. 0 \<le> w_area e) \<and>
              (1 - unitRoundoff) ^ k * (sum_list (map w_area nxt) + minNormal)
                \<le> sum_list (map w_area out) + minNormal \<and>
              sum_list (map w_area out) + minNormal
                \<le> (1 + unitRoundoff) ^ k * (sum_list (map w_area nxt) + minNormal)"
      unfolding k_def by blast
    have step: "mergeLoop maxColors palette = mergeLoop maxColors nxt"
      unfolding nxt_def v_def using True c ab by (intro mergeLoop_step) auto
    have "(\<forall>e \<in> set out. 0 \<le> w_area e) \<and>
          (1 - unitRoundoff) ^ Suc k * (sum_list (map w_area palette) + minNormal)
            \<le> sum_list (map w_area out) + minNormal \<and>
          sum_list (map w_area out) + minNormal
            \<le> (1 + unitRoundoff) ^ Suc k * (sum_list (map w_area palette) + minNormal)"
      if nn: "\<forall>e \<in> set palette. 0 \<le> w_area e"
    proof -
      define x where "x = w_area (palette ! a)"
      define y where "y = w_area (palette ! b)"
      define T where "T = sum_list (map w_area palette) + minNormal"
      define T' where "T' = sum_list (map w_area nxt) + minNormal"
      define T'' where "T'' = sum_list (map w_area out) + minNormal"
      have u: "0 \<le> unitRoundoff" "unitRoundoff \<le> 1" by (simp_all add: unitRoundoff_def)
      have mn: "0 \<le> minNormal" by (simp add: minNormal_def)
      have xy: "0 \<le> x" "0 \<le> y"
        using nn ab by (simp_all add: x_def y_def)
      have va: "w_area v = toDouble (x + y)"
        by (simp add: v_def mergeEntries_area dadd_def x_def y_def)
      then have vnn: "0 \<le> w_area v" using xy by (simp add: toDouble_nonneg)
      have "set nxt \<subseteq> insert v (set palette)"
        unfolding nxt_def using set_removeAt [of b "palette[a := v]"]
          set_update_subset_insert [of palette a v] by (rule subset_trans)
      with nn vnn have nn': "\<forall>e \<in> set nxt. 0 \<le> w_area e" by auto
      from ih nn' have o: "\<forall>e \<in> set out. 0 \<le> w_area e"
        and lo: "(1 - unitRoundoff) ^ k * T' \<le> T''" and hi: "T'' \<le> (1 + unitRoundoff) ^ k * T'"
        by (simp_all add: T'_def T''_def)
      have "sum_list (map w_area nxt) = sum_list (map w_area palette) - x - y + w_area v"
        unfolding nxt_def x_def y_def using ab by (intro sum_merge_replace) simp_all
      then have T': "T' = T + (toDouble (x + y) - (x + y))"
        by (simp add: T_def T'_def va)
      have "x + y \<le> sum_list (map w_area palette)"
        unfolding x_def y_def using nn ab by (rule pair_le_sum)
      then have "\<bar>x + y\<bar> + minNormal \<le> T" using xy by (simp add: T_def)
      then have "unitRoundoff * (\<bar>x + y\<bar> + minNormal) \<le> unitRoundoff * T"
        using u(1) by (rule mult_left_mono)
      with toDouble_roundoff [of "x + y"]
      have "\<bar>toDouble (x + y) - (x + y)\<bar> \<le> unitRoundoff * T" by linarith
      then have one: "(1 - unitRoundoff) * T \<le> T'" "T' \<le> (1 + unitRoundoff) * T"
        unfolding T' by (simp_all add: algebra_simps abs_le_iff)
      have "(1 - unitRoundoff) ^ k * ((1 - unitRoundoff) * T) \<le> (1 - unitRoundoff) ^ k * T'"
        using one(1) u by (intro mult_left_mono) simp_all
      with lo have l: "(1 - unitRoundoff) ^ Suc k * T \<le> T''"
        by (simp add: ac_simps)
      have "(1 + unitRoundoff) ^ k * T' \<le> (1 + unitRoundoff) ^ k * ((1 + unitRoundoff) * T)"
        using one(2) u by (intro mult_left_mono) simp_all
      with hi have h: "T'' \<le> (1 + unitRoundoff) ^ Suc k * T"
        by (simp add: ac_simps)
      from o l h show ?thesis unfolding T_def T''_def by simp
    qed
    with out step k show ?thesis by simp
  qed
qed

lemma powers_around_one:
  fixes u :: real
  assumes "0 \<le> u" "u \<le> 1"
  shows "1 - (1 - u) ^ k \<le> (1 + u) ^ k - 1"
proof -
  have "1 + of_nat k * u \<le> (1 + u) ^ k"
    using assms by (intro Bernoulli_inequality) simp
  moreover have "1 + of_nat k * (- u) \<le> (1 + (- u)) ^ k"
    using assms by (intro Bernoulli_inequality) simp
  ultimately show ?thesis by simp
qed

lemma mergeLoop_area:
  assumes "0 < maxColors" and "maxColors \<le> length palette"
    and nn: "\<forall>e \<in> set palette. 0 \<le> w_area e"
    and out: "mergeLoop maxColors palette = Inr out"
  shows "\<bar>sum_list (map w_area out) - sum_list (map w_area palette)\<bar>
           \<le> ((1 + unitRoundoff) ^ (length palette - maxColors) - 1)
               * (sum_list (map w_area palette) + minNormal)"
proof -
  define k where "k = length palette - maxColors"
  define T where "T = sum_list (map w_area palette) + minNormal"
  define T' where "T' = sum_list (map w_area out) + minNormal"
  from mergeLoop_bound [OF assms(1,2)] nn out
  have lo: "(1 - unitRoundoff) ^ k * T \<le> T'" and hi: "T' \<le> (1 + unitRoundoff) ^ k * T"
    by (simp_all add: k_def T_def T'_def)
  have "0 \<le> sum_list (map w_area palette)"
    using nn by (intro sum_list_nonneg) auto
  then have T: "0 \<le> T" by (simp add: T_def minNormal_def)
  have "(1 - (1 - unitRoundoff) ^ k) * T \<le> ((1 + unitRoundoff) ^ k - 1) * T"
    using T by (intro mult_right_mono powers_around_one) (simp_all add: unitRoundoff_def)
  with lo hi have "\<bar>T' - T\<bar> \<le> ((1 + unitRoundoff) ^ k - 1) * T"
    by (simp add: algebra_simps abs_le_iff)
  then show ?thesis by (simp add: T_def T'_def k_def)
qed

lemma area_toEntry: "map pal_area (map toEntry ics) = map ink_area ics"
  by (simp add: toEntry_def comp_def)

lemma area_strip_clone:
  "map pal_area (map stripWork ws) = map w_area ws" "map w_area (map cloneInk ics) = map ink_area ics"
  by (simp_all add: stripWork_def cloneInk_def comp_def)

definition inkOf :: "nat \<Rightarrow> inkColor" where
  "inkOf k =
     \<lparr>ink_groupId = ''pg_'' @ showNat k, ink_paint = blackSolid, ink_hex = ''#000000'',
      ink_lab = \<lparr>lab_L = real k, lab_a = 0, lab_b = 0\<rparr>, ink_area = real k + 1,
      ink_isGradient = False\<rparr>"

definition profileOf :: "nat \<Rightarrow> inkProfile" where
  "profileOf n = \<lparr>inkColors = map inkOf [0..<n], gradientPresent = False, inkCount = n\<rparr>"



subsection \<open>A profile whose total area is not preserved\<close>

text \<open>
  One solid ink of area 0.7 and seven mesh inks of area 0.1 each.  A mesh paint has the
  colour black (\<open>extractPaint\<close> gives it \<open>rgba\<close> 0, 0, 0, 1), so the seven have the same
  \<open>Lab\<close> and the search always merges the second and third entry.
\<close>

definition blackWork :: "real \<Rightarrow> workEntry" where
  "blackWork x =
     \<lparr>w_hex = ''#000000'', w_lab = \<lparr>lab_L = 0, lab_a = 0, lab_b = 0\<rparr>, w_area = x,
      w_rgb = opaqueBlack\<rparr>"

definition nearBlackInk :: inkColor where
  "nearBlackInk =
     \<lparr>ink_groupId = ''pg_0'', ink_paint = nearBlackSolid\<lparr>pid := Some ''paint_0''\<rparr>,
      ink_hex = ''#010101'', ink_lab = rgbToLab nearBlack, ink_area = toDouble (7 / 10),
      ink_isGradient = False\<rparr>"

definition meshInk :: "nat \<Rightarrow> inkColor" where
  "meshInk k =
     \<lparr>ink_groupId = ''pg_ns_'' @ showNat k,
      ink_paint = (meshPaint (''url(#m'' @ showNat k @ '')''))\<lparr>pid := Some (''paint_'' @ showNat (Suc k))\<rparr>,
      ink_hex = ''#000000'', ink_lab = \<lparr>lab_L = 0, lab_a = 0, lab_b = 0\<rparr>,
      ink_area = toDouble (1 / 10), ink_isGradient = False\<rparr>"

definition roundingProfile :: inkProfile where
  "roundingProfile =
     \<lparr>inkColors = nearBlackInk # map meshInk [0..<7], gradientPresent = False, inkCount = 8\<rparr>"

definition roundedPalette :: "paletteEntry list" where
  "roundedPalette =
     [\<lparr>pal_hex = ''#010101'', pal_lab = rgbToLab nearBlack, pal_area = toDouble (7 / 10)\<rparr>,
      \<lparr>pal_hex = ''#000000'', pal_lab = \<lparr>lab_L = 0, lab_a = 0, lab_b = 0\<rparr>,
       pal_area = 5404319552844595 / 2 ^ 53\<rparr>,
      \<lparr>pal_hex = ''#000000'', pal_lab = \<lparr>lab_L = 0, lab_a = 0, lab_b = 0\<rparr>,
       pal_area = toDouble (1 / 10)\<rparr>]"

lemma deltaE_nonneg: "0 \<le> deltaE l1 l2"
  by (simp add: deltaE_def)

lemma mergeEntries_black: "mergeEntries (blackWork x) (blackWork y) = blackWork (dadd x y)"
proof -
  have "jsRound (dadd (dmul 0 w) (dmul 0 w')) = 0" for w w'
    by (simp add: dadd_def dmul_def toDouble_0 jsRound_def)
  then show ?thesis
    by (simp add: mergeEntries_def Let_def blackWork_def opaqueBlack_def
        rgbToLab_black [unfolded opaqueBlack_def] rgbToHex_black [unfolded opaqueBlack_def])
qed

lemma closerPair_keeps_zero: "closerPair palette (Some 0, i, j) ij = (Some 0, i, j)"
  by (simp add: closerPair_def Let_def not_less deltaE_nonneg)

lemma foldl_closerPair_zero: "foldl (closerPair palette) (Some 0, i, j) ps = (Some 0, i, j)"
  by (induction ps) (simp_all add: closerPair_keeps_zero)

definition positiveOrNone :: "real option \<Rightarrow> bool" where
  "positiveOrNone m = (case m of None \<Rightarrow> True | Some d \<Rightarrow> 0 < d)"

lemma foldl_closerPair_far:
  assumes "\<forall>ij \<in> set ps. 0 < deltaE (w_lab (palette ! fst ij)) (w_lab (palette ! snd ij))"
    and "positiveOrNone (fst st)"
  shows "positiveOrNone (fst (foldl (closerPair palette) st ps))"
  using assms
proof (induction ps arbitrary: st)
  case Nil
  then show ?case by simp
next
  case (Cons ij ps)
  have "positiveOrNone (fst (closerPair palette st ij))"
    using Cons.prems by (cases "fst st") (simp_all add: closerPair_def Let_def positiveOrNone_def)
  with Cons show ?case by simp
qed

lemma closerPair_to_zero:
  assumes "deltaE (w_lab (palette ! i)) (w_lab (palette ! j)) = 0" "positiveOrNone (fst st)"
  shows "closerPair palette st (i, j) = (Some 0, i, j)"
  using assms by (cases "fst st") (simp_all add: closerPair_def Let_def positiveOrNone_def)

lemma palettePairs_split:
  assumes "3 \<le> n"
  shows "palettePairs n =
           map (\<lambda>j. (0, j)) [Suc 0..<n] @ (Suc 0, Suc (Suc 0)) #
           (map (\<lambda>j. (Suc 0, j)) [3..<n]
            @ concat (map (\<lambda>i. map (\<lambda>j. (i, j)) [Suc i..<n]) [2..<n]))"
proof -
  have "[0..<n] = 0 # Suc 0 # [2..<n]"
    using assms by (simp add: upt_rec numeral_2_eq_2)
  moreover have "[Suc (Suc 0)..<n] = Suc (Suc 0) # [3..<n]"
    using assms by (simp add: upt_rec numeral_3_eq_3)
  ultimately show ?thesis by (simp add: palettePairs_def)
qed

lemma closestPair_second:
  assumes n: "3 \<le> length palette"
    and far: "\<forall>j. 0 < j \<and> j < length palette \<longrightarrow>
                0 < deltaE (w_lab (palette ! 0)) (w_lab (palette ! j))"
    and same: "deltaE (w_lab (palette ! Suc 0)) (w_lab (palette ! Suc (Suc 0))) = 0"
  shows "closestPair palette = (Some 0, Suc 0, Suc (Suc 0))"
proof -
  define pre where "pre = map (\<lambda>j. (0::nat, j)) [Suc 0..<length palette]"
  define post where "post = map (\<lambda>j. (Suc 0, j)) [3..<length palette]
            @ concat (map (\<lambda>i. map (\<lambda>j. (i, j)) [Suc i..<length palette]) [2..<length palette])"
  define st where "st = foldl (closerPair palette) (None, 0, Suc 0) pre"
  have split: "palettePairs (length palette) = pre @ (Suc 0, Suc (Suc 0)) # post"
    unfolding pre_def post_def using n by (rule palettePairs_split)
  have "\<forall>ij \<in> set pre. 0 < deltaE (w_lab (palette ! fst ij)) (w_lab (palette ! snd ij))"
    using far by (auto simp: pre_def)
  then have "positiveOrNone (fst st)"
    unfolding st_def by (rule foldl_closerPair_far) (simp add: positiveOrNone_def)
  with same have "closerPair palette st (Suc 0, Suc (Suc 0)) = (Some 0, Suc 0, Suc (Suc 0))"
    by (rule closerPair_to_zero)
  then show ?thesis
    unfolding closestPair_def split by (simp add: st_def [symmetric] foldl_closerPair_zero)
qed

lemma mergeLoop_black_round:
  assumes far: "0 < deltaE (w_lab e0) \<lparr>lab_L = 0, lab_a = 0, lab_b = 0\<rparr>"
    and more: "maxColors < 3 + length zs"
  shows "mergeLoop maxColors (e0 # blackWork x # blackWork y # map blackWork zs)
           = mergeLoop maxColors (e0 # blackWork (dadd x y) # map blackWork zs)"
proof -
  define p where "p = e0 # blackWork x # blackWork y # map blackWork zs"
  have len: "length p = 3 + length zs" by (simp add: p_def)
  have black: "w_lab (p ! j) = \<lparr>lab_L = 0, lab_a = 0, lab_b = 0\<rparr>" if "0 < j" "j < length p" for j
  proof -
    from that obtain j' where j': "j = Suc j'" by (cases j) auto
    have "p ! j = (blackWork x # blackWork y # map blackWork zs) ! j'"
      by (simp add: p_def j')
    moreover have "j' < length (blackWork x # blackWork y # map blackWork zs)"
      using that(2) len j' by simp
    ultimately have "p ! j \<in> set (blackWork x # blackWork y # map blackWork zs)"
      by (metis nth_mem)
    then show ?thesis by (auto simp: blackWork_def)
  qed
  have "closestPair p = (Some 0, Suc 0, Suc (Suc 0))"
  proof (rule closestPair_second)
    show "3 \<le> length p" using len by simp
    show "\<forall>j. 0 < j \<and> j < length p \<longrightarrow> 0 < deltaE (w_lab (p ! 0)) (w_lab (p ! j))"
      using far black by (simp add: p_def)
    show "deltaE (w_lab (p ! Suc 0)) (w_lab (p ! Suc (Suc 0))) = 0"
      by (simp add: p_def blackWork_def deltaE_def)
  qed
  from mergeLoop_step [OF _ this, of maxColors] more len
  have "mergeLoop maxColors p
          = mergeLoop maxColors (removeAt (Suc (Suc 0)) (p[Suc 0 := mergeEntries (p ! Suc 0) (p ! Suc (Suc 0))]))"
    by simp
  then show ?thesis
    by (simp add: p_def removeAt_def mergeEntries_black)
qed

lemma nearBlack_not_black: "0 < deltaE (rgbToLab nearBlack) \<lparr>lab_L = 0, lab_a = 0, lab_b = 0\<rparr>"
proof -
  have "0 < lab_L (rgbToLab nearBlack)"
    by (simp add: rgbToLab_def nearBlack_def linearize_def lab_f_def Let_def)
  then have "0 < (lab_L (rgbToLab nearBlack) - 0)\<^sup>2" by simp
  moreover have "0 \<le> (lab_a (rgbToLab nearBlack) - 0)\<^sup>2" "0 \<le> (lab_b (rgbToLab nearBlack) - 0)\<^sup>2"
    by (rule zero_le_power2)+
  ultimately have "0 < (lab_L (rgbToLab nearBlack) - 0)\<^sup>2 + (lab_a (rgbToLab nearBlack) - 0)\<^sup>2
                     + (lab_b (rgbToLab nearBlack) - 0)\<^sup>2"
    by linarith
  then show ?thesis
    unfolding deltaE_def by (simp only: lab.simps real_sqrt_gt_0_iff)
qed

lemma double_values:
  "toDouble (1 / 10) = 3602879701896397 / 2 ^ 55"
  "toDouble (7 / 10) = 3152519739159347 / 2 ^ 52"
  by (subst toDouble_eval [where k = 56], simp_all add: roundHalfEven_def Let_def)
     (subst toDouble_eval [where k = 53], simp_all add: roundHalfEven_def Let_def)

lemma merged_areas:
  "dadd (3602879701896397 / 2 ^ 55) (3602879701896397 / 2 ^ 55) = 3602879701896397 / 2 ^ 54"
  "dadd (3602879701896397 / 2 ^ 54) (3602879701896397 / 2 ^ 55) = 1351079888211149 / 2 ^ 52"
  "dadd (1351079888211149 / 2 ^ 52) (3602879701896397 / 2 ^ 55) = 3602879701896397 / 2 ^ 53"
  "dadd (3602879701896397 / 2 ^ 53) (3602879701896397 / 2 ^ 55) = 1 / 2 ^ 1"
  "dadd (1 / 2 ^ 1) (3602879701896397 / 2 ^ 55) = 5404319552844595 / 2 ^ 53"
  unfolding dadd_def
  by (subst toDouble_eval [where k = 55], simp_all add: roundHalfEven_def Let_def)
     (subst toDouble_eval [where k = 54], simp_all add: roundHalfEven_def Let_def,
      subst toDouble_eval [where k = 54], simp_all add: roundHalfEven_def Let_def,
      subst toDouble_eval [where k = 53], simp_all add: roundHalfEven_def Let_def,
      subst toDouble_eval [where k = 53], simp_all add: roundHalfEven_def Let_def)


lemma upt_seven: "[0..<7] = [0,1,2,3,4,5,6]"
  by (simp add: upt_rec)

lemma cloneInk_meshInk: "cloneInk (meshInk k) = blackWork (toDouble (1 / 10))"
  by (simp add: cloneInk_def meshInk_def blackWork_def meshPaint_def)

lemma roundingProfile_length: "length (inkColors roundingProfile) = 8"
  by (simp add: roundingProfile_def)

lemma roundingProfile_areas:
  "map ink_area (inkColors roundingProfile)
     = [toDouble (7 / 10), toDouble (1 / 10), toDouble (1 / 10), toDouble (1 / 10),
        toDouble (1 / 10), toDouble (1 / 10), toDouble (1 / 10), toDouble (1 / 10)]"
  by (simp add: roundingProfile_def upt_seven nearBlackInk_def meshInk_def)

lemma roundingProfile_merge:
  "mergeLoop 3 (map cloneInk (inkColors roundingProfile))
     = Inr [cloneInk nearBlackInk, blackWork (5404319552844595 / 2 ^ 53),
            blackWork (toDouble (1 / 10))]"
proof -
  define e0 where "e0 = cloneInk nearBlackInk"
  define t :: real where "t = 3602879701896397 / 2 ^ 55"
  define b where "b = blackWork t"
  have tv: "toDouble (1 / 10) = t" by (simp only: double_values t_def)
  have far: "0 < deltaE (w_lab e0) \<lparr>lab_L = 0, lab_a = 0, lab_b = 0\<rparr>"
    using nearBlack_not_black by (simp add: e0_def cloneInk_def nearBlackInk_def)
  have start: "map cloneInk (inkColors roundingProfile) = [e0, b, b, b, b, b, b, b]"
    by (simp add: roundingProfile_def upt_seven cloneInk_meshInk e0_def b_def tv)
  have r1: "mergeLoop 3 [e0, b, b, b, b, b, b, b]
              = mergeLoop 3 [e0, blackWork (3602879701896397 / 2 ^ 54), b, b, b, b, b]"
    using mergeLoop_black_round [OF far, of 3 "[t, t, t, t, t]" t t]
    by (simp only: b_def t_def merged_areas list.map) simp
  have r2: "mergeLoop 3 [e0, blackWork (3602879701896397 / 2 ^ 54), b, b, b, b, b]
              = mergeLoop 3 [e0, blackWork (1351079888211149 / 2 ^ 52), b, b, b, b]"
    using mergeLoop_black_round [OF far, of 3 "[t, t, t, t]" "3602879701896397 / 2 ^ 54" t]
    by (simp only: b_def t_def merged_areas list.map) simp
  have r3: "mergeLoop 3 [e0, blackWork (1351079888211149 / 2 ^ 52), b, b, b, b]
              = mergeLoop 3 [e0, blackWork (3602879701896397 / 2 ^ 53), b, b, b]"
    using mergeLoop_black_round [OF far, of 3 "[t, t, t]" "1351079888211149 / 2 ^ 52" t]
    by (simp only: b_def t_def merged_areas list.map) simp
  have r4: "mergeLoop 3 [e0, blackWork (3602879701896397 / 2 ^ 53), b, b, b]
              = mergeLoop 3 [e0, blackWork (1 / 2 ^ 1), b, b]"
    using mergeLoop_black_round [OF far, of 3 "[t, t]" "3602879701896397 / 2 ^ 53" t]
    by (simp only: b_def t_def merged_areas list.map) simp
  have r5: "mergeLoop 3 [e0, blackWork (1 / 2 ^ 1), b, b]
              = mergeLoop 3 [e0, blackWork (5404319552844595 / 2 ^ 53), b]"
    using mergeLoop_black_round [OF far, of 3 "[t]" "1 / 2 ^ 1" t]
    by (simp only: b_def t_def merged_areas list.map) simp
  have "mergeLoop 3 [e0, blackWork (5404319552844595 / 2 ^ 53), b]
          = Inr [e0, blackWork (5404319552844595 / 2 ^ 53), b]"
    by (rule mergeLoop_done) simp
  then show ?thesis
    unfolding start r1 r2 r3 r4 r5 by (simp only: e0_def b_def tv)
qed

lemma roundingProfile_palette: "extractPalette roundingProfile 3 = Inr roundedPalette"
proof -
  have "map stripWork [cloneInk nearBlackInk, blackWork (5404319552844595 / 2 ^ 53),
            blackWork (toDouble (1 / 10))] = roundedPalette"
    by (simp add: stripWork_def cloneInk_def nearBlackInk_def blackWork_def roundedPalette_def)
  then show ?thesis
    unfolding extractPalette_def roundingProfile_merge
    by (simp add: roundingProfile_length del: upt_Suc)
qed

lemma roundedPalette_areas:
  "map pal_area roundedPalette
     = [toDouble (7 / 10), 5404319552844595 / 2 ^ 53, toDouble (1 / 10)]"
  by (simp add: roundedPalette_def)

text \<open>
  The two totals as exact sums, and as a program computes them, in doubles from left to
  right (\<open>reduce((s, e) => s + e.area, 0)\<close>).
\<close>

lemma rounding_exact_sums:
  "sum_list (map ink_area (inkColors roundingProfile)) = 50440315826549555 / 2 ^ 55"
  "sum_list (map pal_area roundedPalette) = 50440315826549553 / 2 ^ 55"
  unfolding roundingProfile_areas roundedPalette_areas double_values by simp_all

lemma rounding_double_sums:
  "foldl dadd 0 (map ink_area (inkColors roundingProfile)) = 6305039478318695 / 2 ^ 52"
  "foldl dadd 0 (map pal_area roundedPalette) = 3152519739159347 / 2 ^ 51"
proof -
  have s: "dadd 0 (3152519739159347 / 2 ^ 52) = 3152519739159347 / 2 ^ 52"
    "dadd (3152519739159347 / 2 ^ 52) (3602879701896397 / 2 ^ 55) = 7205759403792793 / 2 ^ 53"
    "dadd (7205759403792793 / 2 ^ 53) (3602879701896397 / 2 ^ 55) = 2026619832316723 / 2 ^ 51"
    "dadd (2026619832316723 / 2 ^ 51) (3602879701896397 / 2 ^ 55) = 9007199254740991 / 2 ^ 53"
    unfolding dadd_def
    by (subst toDouble_eval [where k = 53], simp_all add: roundHalfEven_def Let_def)
       (subst toDouble_eval [where k = 53], simp_all add: roundHalfEven_def Let_def,
        subst toDouble_eval [where k = 53], simp_all add: roundHalfEven_def Let_def,
        subst toDouble_eval [where k = 53], simp_all add: roundHalfEven_def Let_def)
  have s': "dadd (9007199254740991 / 2 ^ 53) (3602879701896397 / 2 ^ 55) = 4953959590107545 / 2 ^ 52"
    "dadd (4953959590107545 / 2 ^ 52) (3602879701896397 / 2 ^ 55) = 5404319552844595 / 2 ^ 52"
    "dadd (5404319552844595 / 2 ^ 52) (3602879701896397 / 2 ^ 55) = 5854679515581645 / 2 ^ 52"
    "dadd (5854679515581645 / 2 ^ 52) (3602879701896397 / 2 ^ 55) = 6305039478318695 / 2 ^ 52"
    unfolding dadd_def
    by (subst toDouble_eval [where k = 52], simp_all add: roundHalfEven_def Let_def)
       (subst toDouble_eval [where k = 52], simp_all add: roundHalfEven_def Let_def,
        subst toDouble_eval [where k = 52], simp_all add: roundHalfEven_def Let_def,
        subst toDouble_eval [where k = 52], simp_all add: roundHalfEven_def Let_def)
  have p: "dadd (3152519739159347 / 2 ^ 52) (5404319552844595 / 2 ^ 53) = 1463669878895411 / 2 ^ 50"
    "dadd (1463669878895411 / 2 ^ 50) (3602879701896397 / 2 ^ 55) = 3152519739159347 / 2 ^ 51"
    unfolding dadd_def
    by (subst toDouble_eval [where k = 52], simp_all add: roundHalfEven_def Let_def)
       (subst toDouble_eval [where k = 52], simp_all add: roundHalfEven_def Let_def)
  show "foldl dadd 0 (map ink_area (inkColors roundingProfile)) = 6305039478318695 / 2 ^ 52"
    unfolding roundingProfile_areas double_values by (simp only: foldl.simps s s')
  show "foldl dadd 0 (map pal_area roundedPalette) = 3152519739159347 / 2 ^ 51"
    unfolding roundedPalette_areas double_values by (simp only: foldl.simps s p)
qed

text \<open>
  Claim C4, as the specification states it, fails: for this profile of 8 entries
  \<open>extractPalette\<close> with \<open>maxColors = 3\<close> returns 3 entries, of areas 0.7, 0.6 and 0.1,
  whose combined area is not the sum of the 8 original areas.  The merged area is the sum
  of the two areas rounded to a double, and 0.1 added five times to 0.1 gives the double
  0.6, which is \<open>2^(-54)\<close> below the exact sum.  The totals differ as exact sums, and they
  differ when both are added up in doubles (1.4 against 1.4000000000000001).
\<close>

theorem extractPalette_counterexample:
  "length (inkColors roundingProfile) = 8 \<and>
   extractPalette roundingProfile 3 = Inr roundedPalette \<and> length roundedPalette = 3 \<and>
   sum_list (map pal_area roundedPalette) \<noteq> sum_list (map ink_area (inkColors roundingProfile)) \<and>
   sum_list (map ink_area (inkColors roundingProfile)) - sum_list (map pal_area roundedPalette)
     = 1 / 2 ^ 54 \<and>
   foldl dadd 0 (map pal_area roundedPalette)
     \<noteq> foldl dadd 0 (map ink_area (inkColors roundingProfile))"
proof -
  have "length roundedPalette = 3" by (simp add: roundedPalette_def)
  moreover have "sum_list (map ink_area (inkColors roundingProfile))
                   - sum_list (map pal_area roundedPalette) = 1 / 2 ^ 54"
    unfolding rounding_exact_sums by simp
  moreover have "sum_list (map pal_area roundedPalette)
                   \<noteq> sum_list (map ink_area (inkColors roundingProfile))"
    unfolding rounding_exact_sums by simp
  moreover have "foldl dadd 0 (map pal_area roundedPalette)
     \<noteq> foldl dadd 0 (map ink_area (inkColors roundingProfile))"
    unfolding rounding_double_sums by simp
  ultimately show ?thesis
    using roundingProfile_length roundingProfile_palette by simp
qed

text \<open>
  Claim C4, amended.  When the profile size is at most \<open>maxColors\<close>, \<open>extractPalette\<close>
  returns the profile's entries unchanged (their \<open>hex\<close>, \<open>lab\<close> and \<open>area\<close>).  Otherwise,
  for \<open>maxColors\<close> of at least 1 (the callers pass 5, 2 and 1), the greedy closest-pair
  merge terminates with exactly \<open>maxColors\<close> entries; the merged area is the sum of the two
  areas rounded to a double; and when no area is negative the total area is preserved up
  to that rounding: after the \<open>n - maxColors\<close> merges the exact sum of the palette's areas
  differs from the exact sum \<open>S\<close> of the profile's areas by at most
  \<open>((1 + 2^(-53))^(n - maxColors) - 1) * (S + 2^(-1022))\<close>.  In particular a profile of 8
  entries and \<open>maxColors = 3\<close> give exactly 3 entries, whose total area is within
  \<open>((1 + 2^(-53))^5 - 1) * (S + 2^(-1022))\<close> of \<open>S\<close>.
\<close>

theorem extractPalette_area_bound:
  "(length (inkColors ip) \<le> maxColors \<longrightarrow>
      extractPalette ip maxColors = Inr (map toEntry (inkColors ip))) \<and>
   (0 < maxColors \<and> maxColors < length (inkColors ip) \<longrightarrow>
      (\<exists>palette. extractPalette ip maxColors = Inr palette \<and>
         length palette = maxColors \<and>
         ((\<forall>c \<in> set (inkColors ip). 0 \<le> ink_area c) \<longrightarrow>
            \<bar>sum_list (map pal_area palette) - sum_list (map ink_area (inkColors ip))\<bar>
              \<le> ((1 + unitRoundoff) ^ (length (inkColors ip) - maxColors) - 1)
                  * (sum_list (map ink_area (inkColors ip)) + minNormal)))) \<and>
   (length (inkColors ip) = 8 \<longrightarrow>
      (\<exists>palette. extractPalette ip 3 = Inr palette \<and> length palette = 3 \<and>
         ((\<forall>c \<in> set (inkColors ip). 0 \<le> ink_area c) \<longrightarrow>
            \<bar>sum_list (map pal_area palette) - sum_list (map ink_area (inkColors ip))\<bar>
              \<le> ((1 + unitRoundoff) ^ 5 - 1)
                  * (sum_list (map ink_area (inkColors ip)) + minNormal)))) \<and>
   (\<forall>a b. w_area (mergeEntries a b) = dadd (w_area a) (w_area b))"
proof -
  have small: "extractPalette ip m = Inr (map toEntry (inkColors ip))"
    if "length (inkColors ip) \<le> m" for m
    using that by (simp add: extractPalette_def)
  have big: "\<exists>palette. extractPalette ip m = Inr palette \<and> length palette = m \<and>
         ((\<forall>c \<in> set (inkColors ip). 0 \<le> ink_area c) \<longrightarrow>
            \<bar>sum_list (map pal_area palette) - sum_list (map ink_area (inkColors ip))\<bar>
              \<le> ((1 + unitRoundoff) ^ (length (inkColors ip) - m) - 1)
                  * (sum_list (map ink_area (inkColors ip)) + minNormal))"
    if pos: "0 < m" and gt: "m < length (inkColors ip)" for m
  proof -
    let ?start = "map cloneInk (inkColors ip)"
    have le: "m \<le> length ?start" using gt by simp
    from mergeLoop_bound [OF pos le]
    obtain out where out: "mergeLoop m ?start = Inr out" "length out = m"
      by blast
    have "inkColors ip \<noteq> []" using gt by auto
    then have e: "extractPalette ip m = Inr (map stripWork out)"
      using gt out(1) by (simp add: extractPalette_def)
    have "\<bar>sum_list (map pal_area (map stripWork out)) - sum_list (map ink_area (inkColors ip))\<bar>
              \<le> ((1 + unitRoundoff) ^ (length (inkColors ip) - m) - 1)
                  * (sum_list (map ink_area (inkColors ip)) + minNormal)"
      if nn: "\<forall>c \<in> set (inkColors ip). 0 \<le> ink_area c"
    proof -
      have "\<forall>e \<in> set ?start. 0 \<le> w_area e"
        using nn by (simp add: cloneInk_def)
      from mergeLoop_area [OF pos le this out(1)] show ?thesis
        by (simp only: area_strip_clone length_map)
    qed
    with e out(2) show ?thesis by simp
  qed
  have eight: "\<exists>palette. extractPalette ip 3 = Inr palette \<and> length palette = 3 \<and>
         ((\<forall>c \<in> set (inkColors ip). 0 \<le> ink_area c) \<longrightarrow>
            \<bar>sum_list (map pal_area palette) - sum_list (map ink_area (inkColors ip))\<bar>
              \<le> ((1 + unitRoundoff) ^ 5 - 1)
                  * (sum_list (map ink_area (inkColors ip)) + minNormal))"
    if l: "length (inkColors ip) = 8"
    using big [of 3] unfolding l by simp
  have "\<forall>a b. w_area (mergeEntries a b) = dadd (w_area a) (w_area b)"
    by (simp add: mergeEntries_area)
  with small [of maxColors] big [of maxColors] eight show ?thesis
    by (intro conjI impI) simp_all
qed

theorem extractPalette_area_bound_witness:
  "extractPalette (profileOf 0) 0 = Inr [] \<and>
   extractPalette roundingProfile 8 = Inr (map toEntry (inkColors roundingProfile)) \<and>
   extractPalette roundingProfile 3 = Inr roundedPalette \<and> length roundedPalette = 3 \<and>
   \<bar>sum_list (map pal_area roundedPalette) - sum_list (map ink_area (inkColors roundingProfile))\<bar>
     \<le> ((1 + unitRoundoff) ^ 5 - 1)
         * (sum_list (map ink_area (inkColors roundingProfile)) + minNormal) \<and>
   w_area (mergeEntries (blackWork (toDouble (1 / 10))) (blackWork (toDouble (1 / 10))))
     = 3602879701896397 / 2 ^ 54"
proof -
  note t0 = extractPalette_area_bound [of "profileOf 0" 0]
  note t8 = extractPalette_area_bound [of roundingProfile 8]
  note t3 = extractPalette_area_bound [of roundingProfile 3]
  have a: "extractPalette (profileOf 0) 0 = Inr []"
    using t0 [THEN conjunct1] by (simp add: profileOf_def)
  have b: "extractPalette roundingProfile 8 = Inr (map toEntry (inkColors roundingProfile))"
    using t8 [THEN conjunct1] by (simp add: roundingProfile_length)
  have nn: "\<forall>c \<in> set (inkColors roundingProfile). 0 \<le> ink_area c"
    by (simp add: roundingProfile_def upt_seven nearBlackInk_def meshInk_def toDouble_nonneg)
  from t3 [THEN conjunct2, THEN conjunct1]
  obtain palette where p: "extractPalette roundingProfile 3 = Inr palette" "length palette = 3"
    "(\<forall>c \<in> set (inkColors roundingProfile). 0 \<le> ink_area c) \<longrightarrow>
            \<bar>sum_list (map pal_area palette) - sum_list (map ink_area (inkColors roundingProfile))\<bar>
              \<le> ((1 + unitRoundoff) ^ (length (inkColors roundingProfile) - 3) - 1)
                  * (sum_list (map ink_area (inkColors roundingProfile)) + minNormal)"
    by (auto simp: roundingProfile_length)
  from p(1) have e: "palette = roundedPalette" by (simp add: roundingProfile_palette)
  have c: "\<bar>sum_list (map pal_area roundedPalette) - sum_list (map ink_area (inkColors roundingProfile))\<bar>
     \<le> ((1 + unitRoundoff) ^ 5 - 1)
         * (sum_list (map ink_area (inkColors roundingProfile)) + minNormal)"
    using p(3) nn unfolding e roundingProfile_length by simp
  have d: "w_area (mergeEntries (blackWork (toDouble (1 / 10))) (blackWork (toDouble (1 / 10))))
     = 3602879701896397 / 2 ^ 54"
    using t3 [THEN conjunct2, THEN conjunct2, THEN conjunct2]
    by (simp only: double_values merged_areas blackWork_def workEntry.simps)
  from a b p(1,2) c d show ?thesis unfolding e by (intro conjI)
qed

subsection \<open>buildPaintMapping\<close>

text \<open>
  The result is the \<open>Map\<close> from group id to target hex, as the list of its entries in
  insertion order; \<open>Map.prototype.set\<close> is \<open>AList.update\<close>.  The search starts from
  \<open>bestDist = Infinity\<close> (\<open>None\<close>) and \<open>bestHex = palette[0]?.hex || "#000000"\<close>.  The
  set of excluded path ids the source builds first is never read.
\<close>

definition initialHex :: "paletteEntry list \<Rightarrow> string" where
  "initialHex palette =
     (case palette of
        [] \<Rightarrow> ''#000000''
      | p # _ \<Rightarrow> if pal_hex p = [] then ''#000000'' else pal_hex p)"

definition nearestStep :: "lab \<Rightarrow> real option \<times> string \<Rightarrow> paletteEntry \<Rightarrow> real option \<times> string" where
  "nearestStep repLab st p =
     (let d = deltaE repLab (pal_lab p) in
      case fst st of
        None \<Rightarrow> (Some d, pal_hex p)
      | Some bestDist \<Rightarrow> if d < bestDist then (Some d, pal_hex p) else st)"

definition nearestHex :: "lab \<Rightarrow> paletteEntry list \<Rightarrow> string" where
  "nearestHex repLab palette = snd (foldl (nearestStep repLab) (None, initialHex palette) palette)"

definition mappingStep ::
  "paletteEntry list \<Rightarrow> (string \<times> string) list \<Rightarrow> paintGroup \<Rightarrow> (string \<times> string) list" where
  "mappingStep palette mapping grp =
     (case representative grp of
        None \<Rightarrow> mapping
      | Some rep \<Rightarrow>
          if ptype rep = ''none'' then AList.update (group_id grp) ''none'' mapping
          else if isWhiteSolid rep then AList.update (group_id grp) ''#ffffff'' mapping
          else AList.update (group_id grp) (nearestHex (paintLab rep) palette) mapping)"

definition buildPaintMapping ::
  "inkProfile \<Rightarrow> paletteEntry list \<Rightarrow> registries \<Rightarrow> report \<Rightarrow> (string \<times> string) list" where
  "buildPaintMapping ip palette reg rep = foldl (mappingStep palette) [] (paintGroups reg)"

subsection \<open>The nearest palette entry\<close>

text \<open>
  \<open>isFirstNearest l palette i\<close>: entry \<open>i\<close> is nearest to \<open>l\<close> by \<open>deltaE\<close>, and every entry
  before it is strictly farther.
\<close>

definition isFirstNearest :: "lab \<Rightarrow> paletteEntry list \<Rightarrow> nat \<Rightarrow> bool" where
  "isFirstNearest l palette i =
     (i < length palette \<and>
      (\<forall>j < length palette. deltaE l (pal_lab (palette ! i)) \<le> deltaE l (pal_lab (palette ! j))) \<and>
      (\<forall>j < i. deltaE l (pal_lab (palette ! i)) < deltaE l (pal_lab (palette ! j))))"

lemma nearest_scan:
  "xs \<noteq> [] \<Longrightarrow>
   \<exists>i. isFirstNearest l xs i \<and>
       foldl (nearestStep l) (None, h0) xs = (Some (deltaE l (pal_lab (xs ! i))), pal_hex (xs ! i))"
proof (induction xs rule: rev_induct)
  case Nil
  then show ?case by simp
next
  case (snoc p xs)
  show ?case
  proof (cases "xs = []")
    case True
    then have "isFirstNearest l (xs @ [p]) 0"
      by (simp add: isFirstNearest_def)
    with True show ?thesis
      by (intro exI [of _ 0]) (simp add: nearestStep_def)
  next
    case False
    from snoc.IH [OF False] obtain i where i: "isFirstNearest l xs i"
      and f: "foldl (nearestStep l) (None, h0) xs = (Some (deltaE l (pal_lab (xs ! i))), pal_hex (xs ! i))"
      by blast
    from i have il: "i < length xs" by (simp add: isFirstNearest_def)
    show ?thesis
    proof (cases "deltaE l (pal_lab p) < deltaE l (pal_lab (xs ! i))")
      case True
      have "isFirstNearest l (xs @ [p]) (length xs)"
        unfolding isFirstNearest_def
      proof (intro conjI allI impI)
        show "length xs < length (xs @ [p])" by simp
      next
        fix j assume "j < length (xs @ [p])"
        then consider "j < length xs" | "j = length xs" by fastforce
        then show "deltaE l (pal_lab ((xs @ [p]) ! length xs)) \<le> deltaE l (pal_lab ((xs @ [p]) ! j))"
        proof cases
          case 1
          with i have "deltaE l (pal_lab (xs ! i)) \<le> deltaE l (pal_lab (xs ! j))"
            by (simp add: isFirstNearest_def)
          with True 1 show ?thesis by (simp add: nth_append)
        next
          case 2
          then show ?thesis by simp
        qed
      next
        fix j assume j: "j < length xs"
        with i have "deltaE l (pal_lab (xs ! i)) \<le> deltaE l (pal_lab (xs ! j))"
          by (simp add: isFirstNearest_def)
        with True j show "deltaE l (pal_lab ((xs @ [p]) ! length xs)) < deltaE l (pal_lab ((xs @ [p]) ! j))"
          by (simp add: nth_append)
      qed
      moreover have "foldl (nearestStep l) (None, h0) (xs @ [p])
          = (Some (deltaE l (pal_lab ((xs @ [p]) ! length xs))), pal_hex ((xs @ [p]) ! length xs))"
        using f True by (simp add: nearestStep_def)
      ultimately show ?thesis by blast
    next
      case False
      have "isFirstNearest l (xs @ [p]) i"
        unfolding isFirstNearest_def
      proof (intro conjI allI impI)
        show "i < length (xs @ [p])" using il by simp
      next
        fix j assume "j < length (xs @ [p])"
        then consider "j < length xs" | "j = length xs" by fastforce
        then show "deltaE l (pal_lab ((xs @ [p]) ! i)) \<le> deltaE l (pal_lab ((xs @ [p]) ! j))"
        proof cases
          case 1
          with i il show ?thesis by (simp add: isFirstNearest_def nth_append)
        next
          case 2
          with False il show ?thesis by (simp add: nth_append)
        qed
      next
        fix j assume j: "j < i"
        with i il show "deltaE l (pal_lab ((xs @ [p]) ! i)) < deltaE l (pal_lab ((xs @ [p]) ! j))"
          by (simp add: isFirstNearest_def nth_append)
      qed
      moreover have "foldl (nearestStep l) (None, h0) (xs @ [p])
          = (Some (deltaE l (pal_lab ((xs @ [p]) ! i))), pal_hex ((xs @ [p]) ! i))"
        using f False il by (simp add: nearestStep_def nth_append)
      ultimately show ?thesis by blast
    qed
  qed
qed

lemma nearestHex_first_nearest:
  "palette \<noteq> [] \<Longrightarrow> \<exists>i. isFirstNearest l palette i \<and> nearestHex l palette = pal_hex (palette ! i)"
  using nearest_scan [of palette l "initialHex palette"] by (auto simp: nearestHex_def)

lemma nearestHex_empty: "nearestHex l [] = ''#000000''"
  by (simp add: nearestHex_def initialHex_def)

subsection \<open>One entry for every group\<close>

definition targetHex :: "paletteEntry list \<Rightarrow> paint \<Rightarrow> string" where
  "targetHex palette rep =
     (if ptype rep = ''none'' then ''none''
      else if isWhiteSolid rep then ''#ffffff''
      else nearestHex (paintLab rep) palette)"

lemma update_fresh: "k \<notin> fst ` set al \<Longrightarrow> AList.update k v al = al @ [(k, v)]"
  by (induction al) auto

lemma mappingStep_fresh:
  "representative g = Some rep \<Longrightarrow> group_id g \<notin> fst ` set m \<Longrightarrow>
   mappingStep palette m g = m @ [(group_id g, targetHex palette rep)]"
  by (simp add: mappingStep_def targetHex_def update_fresh)

lemma mapping_entries:
  assumes "distinct (map group_id gs)" and "\<forall>g \<in> set gs. representative g \<noteq> None"
  shows "foldl (mappingStep palette) [] gs
           = map (\<lambda>g. (group_id g, targetHex palette (the (representative g)))) gs"
  using assms
proof (induction gs rule: rev_induct)
  case Nil
  then show ?case by simp
next
  case (snoc g gs)
  then have ih: "foldl (mappingStep palette) [] gs
           = map (\<lambda>g. (group_id g, targetHex palette (the (representative g)))) gs"
    by simp
  from snoc.prems obtain rep where rep: "representative g = Some rep" by auto
  have fresh: "group_id g \<notin> fst ` set (map (\<lambda>g. (group_id g, targetHex palette (the (representative g)))) gs)"
    using snoc.prems(1) by (auto simp: image_iff)
  have "mappingStep palette (map (\<lambda>g. (group_id g, targetHex palette (the (representative g)))) gs) g
          = map (\<lambda>g. (group_id g, targetHex palette (the (representative g)))) gs
            @ [(group_id g, targetHex palette rep)]"
    using rep fresh by (rule mappingStep_fresh)
  with ih rep show ?case by simp
qed

lemma map_zip_upt_fst:
  "map (\<lambda>(k, x). f k) (zip [i..<i + length xs] xs) = map f [i..<i + length xs]"
proof (induction xs arbitrary: i)
  case Nil
  then show ?case by simp
next
  case (Cons x xs)
  have "[i..<i + length (x # xs)] = i # [Suc i..<Suc i + length xs]"
    by (simp add: upt_rec)
  with Cons [of "Suc i"] show ?case by simp
qed

lemma solid_ids_distinct: "distinct (map (\<lambda>k. ''pg_'' @ showNat k) [0..<n])"
  by (auto simp: distinct_map inj_on_def dest: showNat_inj)

lemma nonsolid_ids_distinct: "distinct (map (\<lambda>k. ''pg_ns_'' @ showNat k) [0..<n])"
  by (auto simp: distinct_map inj_on_def dest: showNat_inj)

lemma solid_id_not_nonsolid: "''pg_'' @ showNat k \<noteq> ''pg_ns_'' @ showNat j"
proof
  assume "''pg_'' @ showNat k = ''pg_ns_'' @ showNat j"
  then have "showNat k = ''ns_'' @ showNat j" by simp
  then have "CHR ''n'' \<in> set (showNat k)" by simp
  from showNat_digits [OF this] show False by simp
qed

lemma groupPaints_group_ids:
  assumes "groupPaints paintsMap threshold = Inr gs"
  shows "distinct (map group_id gs)"
proof -
  let ?cl = "clusterByPerceptualDistance item_rgb (solidItems paintsMap) threshold"
  let ?ns = "nonSolids paintsMap"
  have a: "map group_id (map (\<lambda>(k, cluster).
            \<lparr>group_id = ''pg_'' @ showNat k, group_type = ''solid_cluster'',
             members = map item_id cluster,
             representative = Some (item_paint (hd cluster))\<rparr>) (zip [0..<0 + length ?cl] ?cl))
        = map (\<lambda>k. ''pg_'' @ showNat k) [0..<0 + length ?cl]"
    using map_zip_upt_fst [of "\<lambda>k. ''pg_'' @ showNat k" 0 ?cl] by (simp add: split_def comp_def)
  have b: "map group_id (map (\<lambda>(k, p). \<lparr>group_id = ''pg_ns_'' @ showNat k, group_type = ptype p,
                     members = [pid p], representative = Some p\<rparr>) (zip [0..<0 + length ?ns] ?ns))
        = map (\<lambda>k. ''pg_ns_'' @ showNat k) [0..<0 + length ?ns]"
    using map_zip_upt_fst [of "\<lambda>k. ''pg_ns_'' @ showNat k" 0 ?ns] by (simp add: split_def comp_def)
  have "map group_id gs = map (\<lambda>k. ''pg_'' @ showNat k) [0..<length ?cl]
                        @ map (\<lambda>k. ''pg_ns_'' @ showNat k) [0..<length ?ns]"
    using assms a b unfolding groupPaints_eq by auto
  moreover have "distinct (map (\<lambda>k. ''pg_'' @ showNat k) [0..<length ?cl]
                        @ map (\<lambda>k. ''pg_ns_'' @ showNat k) [0..<length ?ns])"
    using solid_ids_distinct nonsolid_ids_distinct solid_id_not_nonsolid
    by (auto simp: distinct_append simp del: append.simps)
  ultimately show ?thesis by simp
qed

lemma groupPaints_representatives:
  assumes "groupPaints paintsMap threshold = Inr gs" and "g \<in> set gs"
  shows "representative g \<noteq> None"
  using assms unfolding groupPaints_eq by (auto simp: split_def)

lemma buildRegistries_groups:
  assumes "buildRegistries e vb els = Inr reg"
  shows "\<exists>paintsMap. groupPaints paintsMap 12 = Inr (paintGroups reg)"
  using assms by (auto simp: buildRegistries_def Let_def split: sum.splits)

lemma map_of_keyed:
  "distinct (map k xs) \<Longrightarrow> x \<in> set xs \<Longrightarrow> map_of (map (\<lambda>x. (k x, f x)) xs) (k x) = Some (f x)"
  by (induction xs) (auto simp: image_iff)

lemma registry_mapping:
  assumes "buildRegistries e vb els = Inr reg"
  shows "distinct (map group_id (paintGroups reg))"
    and "buildPaintMapping ip palette reg rep
           = map (\<lambda>g. (group_id g, targetHex palette (the (representative g)))) (paintGroups reg)"
    and "g \<in> set (paintGroups reg) \<Longrightarrow> \<exists>r. representative g = Some r \<and>
           map_of (buildPaintMapping ip palette reg rep) (group_id g) = Some (targetHex palette r)"
proof -
  obtain paintsMap where pm: "groupPaints paintsMap 12 = Inr (paintGroups reg)"
    using buildRegistries_groups [OF assms] by blast
  show d: "distinct (map group_id (paintGroups reg))"
    using pm by (rule groupPaints_group_ids)
  have r: "\<forall>g \<in> set (paintGroups reg). representative g \<noteq> None"
    using groupPaints_representatives [OF pm] by blast
  show m: "buildPaintMapping ip palette reg rep
           = map (\<lambda>g. (group_id g, targetHex palette (the (representative g)))) (paintGroups reg)"
    unfolding buildPaintMapping_def using d r by (rule mapping_entries)
  assume g: "g \<in> set (paintGroups reg)"
  with r obtain r' where r': "representative g = Some r'" by auto
  have "map_of (buildPaintMapping ip palette reg rep) (group_id g)
          = Some (targetHex palette (the (representative g)))"
    unfolding m using d g by (rule map_of_keyed)
  with r' show "\<exists>r. representative g = Some r \<and>
           map_of (buildPaintMapping ip palette reg rep) (group_id g) = Some (targetHex palette r)"
    by simp
qed

subsection \<open>Black, white and none: a registry with three groups\<close>

lemma isWhiteLike_white: "isWhiteLike opaqueWhite"
proof -
  define y :: real where "y = root 3 1.0000001"
  have y: "1 \<le> y" "y < 1.001" using white_y_bounds by (simp_all add: y_def)
  have sq: "(y - 1) * (y - 1) < 0.001 * 0.001"
    using y by (intro mult_strict_mono) auto
  have "500 * (1 - y) * (500 * (1 - y)) + 200 * (y - 1) * (200 * (y - 1)) = 290000 * ((y - 1) * (y - 1))"
    by (simp add: algebra_simps)
  also have "\<dots> < 64" using sq by simp
  finally have "sqrt (500 * (1 - y) * (500 * (1 - y)) + 200 * (y - 1) * (200 * (y - 1))) < sqrt 64"
    by (simp only: real_sqrt_less_iff)
  moreover have "sqrt 64 = (8::real)"
    using real_sqrt_abs [of 8] by simp
  ultimately have "sqrt (500 * (1 - y) * (500 * (1 - y)) + 200 * (y - 1) * (200 * (y - 1))) < 8"
    by simp
  moreover have "116 * y - 16 > 92" using y by simp
  ultimately show ?thesis
    by (simp add: isWhiteLike_def rgbToLab_white y_def Let_def)
qed

lemma rgbToHex_white: "rgbToHex opaqueWhite = ''#ffffff''"
  by (simp add: rgbToHex_def byteHex_def jsRound_def hexDigit_def opaqueWhite_def)

lemma extractPaint_white: "extractPaint exampleEnv (Some ''#ffffff'') = whiteSolid"
  by (simp add: extractPaint_def exampleEnv_def startsWith_def Let_def whiteSolid_def
      rgbToHex_white)

lemma extractPaint_none_attr: "extractPaint e (Some ''none'') = nonePaint"
  by (simp add: extractPaint_def nonePaint_def)

lemma two_far_clusters:
  assumes "deltaE (rgbToLab (rgbOf x)) (rgbToLab (rgbOf y)) > threshold"
  shows "clusterByPerceptualDistance rgbOf [x, y] threshold = [[x], [y]]"
proof -
  let ?cs = "[[\<lparr>l_item = x, l_lab = rgbToLab (rgbOf x)\<rparr>], [\<lparr>l_item = y, l_lab = rgbToLab (rgbOf y)\<rparr>]]"
  have "pairCandidates ?cs = [(deltaE (rgbToLab (rgbOf x)) (rgbToLab (rgbOf y)), 0, Suc 0)]"
    by (simp add: pairCandidates_def upt_rec)
  then have "closestClusters ?cs = Some (deltaE (rgbToLab (rgbOf x)) (rgbToLab (rgbOf y)), 0, Suc 0)"
    by (simp add: closestClusters_def betterPair_def)
  from clusterLoop_unfold_far [OF this assms] show ?thesis
    by (simp add: clusterByPerceptualDistance_def)
qed

definition threeSquares :: "pathEl list" where
  "threeSquares = [squareEl ''a'' ''#000000'', squareEl ''b'' ''none'', squareEl ''c'' ''#ffffff'']"

definition threeGroups :: "paintGroup list" where
  "threeGroups =
     [\<lparr>group_id = ''pg_0'', group_type = ''solid_cluster'', members = [Some ''paint_0''],
       representative = Some (blackSolid\<lparr>pid := Some ''paint_0''\<rparr>)\<rparr>,
      \<lparr>group_id = ''pg_1'', group_type = ''solid_cluster'', members = [Some ''paint_2''],
       representative = Some (whiteSolid\<lparr>pid := Some ''paint_2''\<rparr>)\<rparr>,
      \<lparr>group_id = ''pg_ns_0'', group_type = ''none'', members = [Some ''paint_1''],
       representative = Some (nonePaint\<lparr>pid := Some ''paint_1''\<rparr>)\<rparr>]"

lemma registerPath_square_paints:
  "rs_allPaints (registerPath e st (squareEl i c)) = rs_allPaints st @ [extractPaint e (Some c)]"
  by (simp add: registerPath_def squareEl_def Let_def extractPaint_absent nonePaint_def)

lemma threeSquares_paints:
  "rs_allPaints (foldl (registerPath exampleEnv)
      \<lparr>rs_zIndex = 0, rs_paths = [], rs_allPaints = [], rs_bindings = []\<rparr> threeSquares)
   = [blackSolid, nonePaint, whiteSolid]"
  by (simp add: threeSquares_def registerPath_square_paints extractPaint_black
      extractPaint_none_attr extractPaint_white)

lemma threeSquares_table:
  "deduplicatePaints [blackSolid, nonePaint, whiteSolid] =
     [(''solid:#000000'', blackSolid\<lparr>pid := Some ''paint_0''\<rparr>),
      (''none'', nonePaint\<lparr>pid := Some ''paint_1''\<rparr>),
      (''solid:#ffffff'', whiteSolid\<lparr>pid := Some ''paint_2''\<rparr>)]"
  by (simp add: deduplicatePaints_def dedupStep_def Let_def paintKey_blackSolid
      paintKey_nonePaint paintKey_whiteSolid showNat_0 showNat_1 showNat_2)

lemma threeSquares_groups:
  "groupPaints (deduplicatePaints [blackSolid, nonePaint, whiteSolid]) 12 = Inr threeGroups"
proof -
  have a: "isClusteredSolid (blackSolid\<lparr>pid := Some ''paint_0''\<rparr>)"
      "isClusteredSolid (whiteSolid\<lparr>pid := Some ''paint_2''\<rparr>)"
      "\<not> isClusteredSolid (nonePaint\<lparr>pid := Some ''paint_1''\<rparr>)"
    by (simp_all add: isClusteredSolid_def blackSolid_def whiteSolid_def nonePaint_def
        opaqueWhite_def)
  have rgb: "paint_rgba (blackSolid\<lparr>pid := Some ''paint_0''\<rparr>) = opaqueBlack"
      "paint_rgba (whiteSolid\<lparr>pid := Some ''paint_2''\<rparr>) = opaqueWhite"
    by (simp_all add: blackSolid_def whiteSolid_def opaqueBlack_def)
  have far: "clusterByPerceptualDistance item_rgb
      [\<lparr>item_id = Some ''paint_0'', item_rgb = opaqueBlack,
        item_paint = blackSolid\<lparr>pid := Some ''paint_0''\<rparr>\<rparr>,
       \<lparr>item_id = Some ''paint_2'', item_rgb = opaqueWhite,
        item_paint = whiteSolid\<lparr>pid := Some ''paint_2''\<rparr>\<rparr>] 12
     = [[\<lparr>item_id = Some ''paint_0'', item_rgb = opaqueBlack,
         item_paint = blackSolid\<lparr>pid := Some ''paint_0''\<rparr>\<rparr>],
        [\<lparr>item_id = Some ''paint_2'', item_rgb = opaqueWhite,
         item_paint = whiteSolid\<lparr>pid := Some ''paint_2''\<rparr>\<rparr>]]"
    by (rule two_far_clusters) (simp add: black_white_far)
  have t: "ptype (nonePaint\<lparr>pid := Some ''paint_1''\<rparr>) = ''none''"
    by (simp add: nonePaint_def)
  show ?thesis
    unfolding threeSquares_table
    by (simp add: groupPaints_def Let_def a rgb far t showNat_0 showNat_1 threeGroups_def)
qed

lemma threeSquares_registry:
  "\<exists>reg. buildRegistries exampleEnv unitViewBox threeSquares = Inr reg \<and>
         paintGroups reg = threeGroups"
  by (simp add: buildRegistries_def Let_def threeSquares_paints threeSquares_groups)

definition tiePalette :: "paletteEntry list" where
  "tiePalette =
     [\<lparr>pal_hex = ''#111111'', pal_lab = \<lparr>lab_L = 5, lab_a = 0, lab_b = 0\<rparr>, pal_area = 10\<rparr>,
      \<lparr>pal_hex = ''#222222'', pal_lab = \<lparr>lab_L = - 5, lab_a = 0, lab_b = 0\<rparr>, pal_area = 20\<rparr>]"

lemma threeGroups_reps:
  "ptype (blackSolid\<lparr>pid := Some ''paint_0''\<rparr>) \<noteq> ''none''"
  "\<not> isWhiteSolid (blackSolid\<lparr>pid := Some ''paint_0''\<rparr>)"
  "ptype (whiteSolid\<lparr>pid := Some ''paint_2''\<rparr>) \<noteq> ''none''"
  "isWhiteSolid (whiteSolid\<lparr>pid := Some ''paint_2''\<rparr>)"
  "ptype (nonePaint\<lparr>pid := Some ''paint_1''\<rparr>) = ''none''"
  using isWhiteLike_black isWhiteLike_white
  by (simp_all add: isWhiteSolid_def blackSolid_def whiteSolid_def nonePaint_def opaqueBlack_def)

lemma tie_first:
  assumes "isFirstNearest \<lparr>lab_L = 0, lab_a = 0, lab_b = 0\<rparr> tiePalette i"
  shows "i = 0"
proof (rule ccontr)
  assume "i \<noteq> 0"
  moreover from assms have "i < 2" by (simp add: isFirstNearest_def tiePalette_def)
  ultimately have i: "i = 1" by simp
  from assms have "\<forall>j < i. deltaE \<lparr>lab_L = 0, lab_a = 0, lab_b = 0\<rparr> (pal_lab (tiePalette ! i))
        < deltaE \<lparr>lab_L = 0, lab_a = 0, lab_b = 0\<rparr> (pal_lab (tiePalette ! j))"
    by (simp add: isFirstNearest_def)
  with i have "deltaE \<lparr>lab_L = 0, lab_a = 0, lab_b = 0\<rparr> (pal_lab (tiePalette ! 1))
        < deltaE \<lparr>lab_L = 0, lab_a = 0, lab_b = 0\<rparr> (pal_lab (tiePalette ! 0))"
    by simp
  then show False by (simp add: tiePalette_def deltaE_def)
qed

text \<open>
  Claim C3, as the specification states it, fails for an empty palette.  For the document
  with one black square the computed ink profile is empty, so the palette extracted from
  it is empty, and the group \<open>pg_0\<close>, whose representative is a solid that is not
  white-like, is mapped to \<open>#000000\<close>: the fallback, not the hex of a palette entry, for
  the palette has none.
\<close>

theorem paint_mapping_counterexample:
  "buildRegistries exampleEnv unitViewBox [squareEl ''logo'' ''#000000''] = Inr blackSquareRegistry \<and>
   extractPalette (computeInkProfile blackSquareRegistry \<lparr>decisions = []\<rparr>) 5 = Inr [] \<and>
   buildPaintMapping (computeInkProfile blackSquareRegistry \<lparr>decisions = []\<rparr>) []
       blackSquareRegistry \<lparr>decisions = []\<rparr> = [(''pg_0'', ''#000000'')] \<and>
   map (map_option ptype \<circ> representative) (paintGroups blackSquareRegistry) = [Some ''solid''] \<and>
   \<not> isWhiteSolid (blackSolid\<lparr>pid := Some ''paint_0''\<rparr>)"
proof -
  have "mappingStep [] [] \<lparr>group_id = ''pg_0'', group_type = ''solid_cluster'',
                      members = [Some ''paint_0''],
                      representative = Some (blackSolid\<lparr>pid := Some ''paint_0''\<rparr>)\<rparr>
          = [(''pg_0'', ''#000000'')]"
    using threeGroups_reps(1,2) by (simp add: mappingStep_def nearestHex_empty)
  then have "buildPaintMapping (computeInkProfile blackSquareRegistry \<lparr>decisions = []\<rparr>) []
       blackSquareRegistry \<lparr>decisions = []\<rparr> = [(''pg_0'', ''#000000'')]"
    by (simp add: buildPaintMapping_def blackSquareRegistry_def)
  moreover have "extractPalette (computeInkProfile blackSquareRegistry \<lparr>decisions = []\<rparr>) 5 = Inr []"
    by (simp add: blackSquare_profile extractPalette_def)
  moreover have "map (map_option ptype \<circ> representative) (paintGroups blackSquareRegistry) = [Some ''solid'']"
    by (simp add: blackSquareRegistry_def blackSolid_def)
  ultimately show ?thesis
    using blackSquare_registry threeGroups_reps(2) by simp
qed

text \<open>
  Claim C3, amended.  For every registry \<open>buildRegistries\<close> returns and every palette,
  \<open>buildPaintMapping\<close> returns a mapping with exactly one entry for every paint group, in
  the order of the groups, whose ids are distinct.  Every group has a representative; its
  entry is \<open>none\<close> if the representative is of type \<open>none\<close>, \<open>#ffffff\<close> if it is a white-like
  solid, and otherwise, when the palette is not empty, the hex of the palette entry
  nearest to the representative's Lab colour by \<open>deltaE\<close>, the first such entry on ties.
\<close>

theorem paint_mapping_total:
  assumes "buildRegistries e vb els = Inr reg"
  shows "map fst (buildPaintMapping ip palette reg rep) = map group_id (paintGroups reg) \<and>
         distinct (map group_id (paintGroups reg)) \<and>
         (\<forall>g \<in> set (paintGroups reg). \<exists>r. representative g = Some r \<and>
            (ptype r = ''none'' \<longrightarrow>
               map_of (buildPaintMapping ip palette reg rep) (group_id g) = Some ''none'') \<and>
            (ptype r \<noteq> ''none'' \<and> isWhiteSolid r \<longrightarrow>
               map_of (buildPaintMapping ip palette reg rep) (group_id g) = Some ''#ffffff'') \<and>
            (ptype r \<noteq> ''none'' \<and> \<not> isWhiteSolid r \<and> palette \<noteq> [] \<longrightarrow>
               (\<exists>i. isFirstNearest (paintLab r) palette i \<and>
                  map_of (buildPaintMapping ip palette reg rep) (group_id g)
                    = Some (pal_hex (palette ! i)))))"
proof (intro conjI ballI)
  show "map fst (buildPaintMapping ip palette reg rep) = map group_id (paintGroups reg)"
    unfolding registry_mapping(2) [OF assms] by (simp add: comp_def)
  show "distinct (map group_id (paintGroups reg))"
    by (rule registry_mapping(1) [OF assms])
  fix g assume "g \<in> set (paintGroups reg)"
  from registry_mapping(3) [OF assms this]
  obtain r where r: "representative g = Some r"
    "map_of (buildPaintMapping ip palette reg rep) (group_id g) = Some (targetHex palette r)"
    by blast
  have "\<exists>i. isFirstNearest (paintLab r) palette i \<and> targetHex palette r = pal_hex (palette ! i)"
    if "ptype r \<noteq> ''none''" "\<not> isWhiteSolid r" "palette \<noteq> []"
    using that nearestHex_first_nearest [of palette "paintLab r"] by (simp add: targetHex_def)
  with r show "\<exists>r. representative g = Some r \<and>
            (ptype r = ''none'' \<longrightarrow>
               map_of (buildPaintMapping ip palette reg rep) (group_id g) = Some ''none'') \<and>
            (ptype r \<noteq> ''none'' \<and> isWhiteSolid r \<longrightarrow>
               map_of (buildPaintMapping ip palette reg rep) (group_id g) = Some ''#ffffff'') \<and>
            (ptype r \<noteq> ''none'' \<and> \<not> isWhiteSolid r \<and> palette \<noteq> [] \<longrightarrow>
               (\<exists>i. isFirstNearest (paintLab r) palette i \<and>
                  map_of (buildPaintMapping ip palette reg rep) (group_id g)
                    = Some (pal_hex (palette ! i))))"
    by (auto simp: targetHex_def)
qed

theorem paint_mapping_total_witness:
  "\<exists>reg. buildRegistries exampleEnv unitViewBox threeSquares = Inr reg \<and>
     map fst (buildPaintMapping (profileOf 0) tiePalette reg \<lparr>decisions = []\<rparr>)
       = [''pg_0'', ''pg_1'', ''pg_ns_0''] \<and>
     map_of (buildPaintMapping (profileOf 0) tiePalette reg \<lparr>decisions = []\<rparr>) ''pg_0''
       = Some ''#111111'' \<and>
     map_of (buildPaintMapping (profileOf 0) tiePalette reg \<lparr>decisions = []\<rparr>) ''pg_1''
       = Some ''#ffffff'' \<and>
     map_of (buildPaintMapping (profileOf 0) tiePalette reg \<lparr>decisions = []\<rparr>) ''pg_ns_0''
       = Some ''none''"
proof -
  obtain reg where reg: "buildRegistries exampleEnv unitViewBox threeSquares = Inr reg"
    and gs: "paintGroups reg = threeGroups"
    using threeSquares_registry by blast
  let ?M = "buildPaintMapping (profileOf 0) tiePalette reg \<lparr>decisions = []\<rparr>"
  note t = paint_mapping_total [OF reg, of "profileOf 0" tiePalette "\<lparr>decisions = []\<rparr>"]
  from t have ids: "map fst ?M = [''pg_0'', ''pg_1'', ''pg_ns_0'']"
    by (simp add: gs threeGroups_def)
  from t have each: "\<forall>g \<in> set threeGroups. \<exists>r. representative g = Some r \<and>
            (ptype r = ''none'' \<longrightarrow> map_of ?M (group_id g) = Some ''none'') \<and>
            (ptype r \<noteq> ''none'' \<and> isWhiteSolid r \<longrightarrow> map_of ?M (group_id g) = Some ''#ffffff'') \<and>
            (ptype r \<noteq> ''none'' \<and> \<not> isWhiteSolid r \<and> tiePalette \<noteq> [] \<longrightarrow>
               (\<exists>i. isFirstNearest (paintLab r) tiePalette i \<and>
                  map_of ?M (group_id g) = Some (pal_hex (tiePalette ! i))))"
    unfolding gs by blast
  have ne: "tiePalette \<noteq> []" by (simp add: tiePalette_def)
  have lab0: "paintLab (blackSolid\<lparr>pid := Some ''paint_0''\<rparr>) = \<lparr>lab_L = 0, lab_a = 0, lab_b = 0\<rparr>"
    by (simp add: paintLab_def blackSolid_def)
  from each have "\<exists>i. isFirstNearest (paintLab (blackSolid\<lparr>pid := Some ''paint_0''\<rparr>)) tiePalette i \<and>
                  map_of ?M ''pg_0'' = Some (pal_hex (tiePalette ! i))"
    using threeGroups_reps(1,2) ne by (simp add: threeGroups_def)
  then obtain i where i: "isFirstNearest \<lparr>lab_L = 0, lab_a = 0, lab_b = 0\<rparr> tiePalette i"
    and mi: "map_of ?M ''pg_0'' = Some (pal_hex (tiePalette ! i))"
    unfolding lab0 by blast
  from i have "i = 0" by (rule tie_first)
  with mi have "map_of ?M ''pg_0'' = Some (pal_hex (tiePalette ! 0))" by simp
  then have b: "map_of ?M ''pg_0'' = Some ''#111111''"
    by (simp add: tiePalette_def)
  from each have w: "map_of ?M ''pg_1'' = Some ''#ffffff''"
    using threeGroups_reps(3,4) by (simp add: threeGroups_def)
  from each have n: "map_of ?M ''pg_ns_0'' = Some ''none''"
    using threeGroups_reps(5) by (simp add: threeGroups_def)
  show ?thesis
    by (rule exI [of _ reg]) (simp only: reg ids b w n simp_thms)
qed

text \<open>
  Claim C10.  With an empty palette \<open>buildPaintMapping\<close> (a total function: no branch of
  it can raise) still returns exactly one entry for every paint group of a registry: \<open>none\<close>
  for a representative of type \<open>none\<close>, \<open>#ffffff\<close> for a white-like solid, and the
  fallback \<open>#000000\<close> for every other group.
\<close>

theorem empty_palette_mapping:
  assumes "buildRegistries e vb els = Inr reg"
  shows "map fst (buildPaintMapping ip [] reg rep) = map group_id (paintGroups reg) \<and>
         distinct (map group_id (paintGroups reg)) \<and>
         (\<forall>g \<in> set (paintGroups reg). \<exists>r. representative g = Some r \<and>
            map_of (buildPaintMapping ip [] reg rep) (group_id g)
              = Some (if ptype r = ''none'' then ''none''
                      else if isWhiteSolid r then ''#ffffff'' else ''#000000''))"
proof (intro conjI ballI)
  show "map fst (buildPaintMapping ip [] reg rep) = map group_id (paintGroups reg)"
    unfolding registry_mapping(2) [OF assms] by (simp add: comp_def)
  show "distinct (map group_id (paintGroups reg))"
    by (rule registry_mapping(1) [OF assms])
  fix g assume "g \<in> set (paintGroups reg)"
  from registry_mapping(3) [OF assms this, of ip "[]" rep]
  show "\<exists>r. representative g = Some r \<and>
            map_of (buildPaintMapping ip [] reg rep) (group_id g)
              = Some (if ptype r = ''none'' then ''none''
                      else if isWhiteSolid r then ''#ffffff'' else ''#000000'')"
    by (auto simp: targetHex_def nearestHex_empty)
qed
theorem empty_palette_mapping_witness:
  "\<exists>reg. buildRegistries exampleEnv unitViewBox threeSquares = Inr reg \<and>
     map fst (buildPaintMapping (profileOf 0) [] reg \<lparr>decisions = []\<rparr>)
       = [''pg_0'', ''pg_1'', ''pg_ns_0''] \<and>
     map_of (buildPaintMapping (profileOf 0) [] reg \<lparr>decisions = []\<rparr>) ''pg_0''
       = Some ''#000000'' \<and>
     map_of (buildPaintMapping (profileOf 0) [] reg \<lparr>decisions = []\<rparr>) ''pg_1''
       = Some ''#ffffff'' \<and>
     map_of (buildPaintMapping (profileOf 0) [] reg \<lparr>decisions = []\<rparr>) ''pg_ns_0''
       = Some ''none''"
proof -
  obtain reg where reg: "buildRegistries exampleEnv unitViewBox threeSquares = Inr reg"
    and gs: "paintGroups reg = threeGroups"
    using threeSquares_registry by blast
  let ?M = "buildPaintMapping (profileOf 0) [] reg \<lparr>decisions = []\<rparr>"
  note t = empty_palette_mapping [OF reg, of "profileOf 0" "\<lparr>decisions = []\<rparr>"]
  from t have ids: "map fst ?M = [''pg_0'', ''pg_1'', ''pg_ns_0'']"
    by (simp add: gs threeGroups_def)
  from t have each: "\<forall>g \<in> set threeGroups. \<exists>r. representative g = Some r \<and>
            map_of ?M (group_id g)
              = Some (if ptype r = ''none'' then ''none''
                      else if isWhiteSolid r then ''#ffffff'' else ''#000000'')"
    unfolding gs by blast
  from each have b: "map_of ?M ''pg_0'' = Some ''#000000''"
    using threeGroups_reps(1,2) by (simp add: threeGroups_def)
  from each have w: "map_of ?M ''pg_1'' = Some ''#ffffff''"
    using threeGroups_reps(3,4) by (simp add: threeGroups_def)
  from each have n: "map_of ?M ''pg_ns_0'' = Some ''none''"
    using threeGroups_reps(5) by (simp add: threeGroups_def)
  show ?thesis
    by (rule exI [of _ reg]) (simp only: reg ids b w n simp_thms)
qed

end
